(* ===== verification/Prelude.thy ===== *)
theory Prelude
  imports Main "HOL-Library.Word"
begin

text \<open>
  Shared vocabulary of the development: the names of the model's basic types, the
  collections of rewrite rules the component theories contribute to, and generic lemmas
  on lists, options and bytes that several components use.
\<close>

section \<open>Basic types\<close>

type_synonym byte = "8 word"

text \<open>Milliseconds since the epoch, as \<open>Date.now()\<close> returns them.\<close>
type_synonym millis = nat

section \<open>Rule collections\<close>

text \<open>
  \<open>model_simps\<close> collects the characteristic equations of the operations (the
  branch-by-branch behaviour of each handler and store operation); \<open>wf_intros\<close> the
  facts that an operation keeps a well-formedness invariant.
\<close>

named_theorems model_simps "characteristic equations of the modelled operations"
named_theorems wf_intros "preservation of well-formedness by the modelled operations"

section \<open>Lists\<close>

lemma find_Some_in_set: "find P xs = Some x \<Longrightarrow> x \<in> set xs \<and> P x"
  by (induction xs) (auto split: if_splits)

lemma find_snoc_fresh:
  "k \<notin> set (map f xs) \<Longrightarrow> find (\<lambda>x. f x = k) (xs @ [y]) = (if f y = k then Some y else None)"
  by (induction xs) auto

lemma distinct_map_remove1: "distinct (map f xs) \<Longrightarrow> distinct (map f (remove1 x xs))"
  by (induction xs) (auto dest: subsetD [OF set_remove1_subset])

text \<open>A list of records keyed by \<open>f\<close>, read as a map from keys to records.\<close>

lemma map_of_keyed_find: "map_of (map (\<lambda>d. (f d, d)) xs) k = find (\<lambda>d. f d = k) xs"
  by (induction xs) auto

lemma map_of_keyed_remove1:
  "distinct (map f xs) \<Longrightarrow> x \<in> set xs \<Longrightarrow>
   map_of (map (\<lambda>d. (f d, d)) (remove1 x xs)) = (map_of (map (\<lambda>d. (f d, d)) xs))(f x := None)"
proof (induction xs)
  case Nil then show ?case by simp
next
  case (Cons y ys)
  show ?case
  proof (cases "x = y")
    case True
    with Cons.prems have "f x \<notin> f ` set ys" by auto
    with True show ?thesis by (auto simp: map_of_eq_None_iff fun_eq_iff image_iff)
  next
    case False
    with Cons.prems have x: "x \<in> set ys" and ne: "f x \<noteq> f y" and d: "distinct (map f ys)"
      by (auto simp: image_iff)
    with False Cons.IH [OF d x] show ?thesis by (auto simp: fun_eq_iff)
  qed
qed

lemma singleton_map_add: "m k = None \<Longrightarrow> [k \<mapsto> v] ++ m = m(k \<mapsto> v)"
  by (auto simp: fun_eq_iff map_add_def split: option.splits)

lemma replicate_numeral [simp]: "replicate (numeral k) x = x # replicate (pred_numeral k) x"
  by (simp add: numeral_eq_Suc)

section \<open>Bytes and modular arithmetic\<close>

lemma unat_byte_less [simp]: "unat (b::byte) < 256"
  using unsigned_less [of b, where 'a = nat] by simp

lemma unat_byte_of_nat: "x < 256 \<Longrightarrow> unat (word_of_nat x :: byte) = x"
  by (rule of_nat_inverse [OF refl]) simp

lemma unat_byte_of_nat_mod: "unat (word_of_nat x :: byte) = x mod 256"
  by (simp add: unat_of_nat)

lemma less_10_cases: "d < (10::nat) \<Longrightarrow> d = 0 \<or> d = 1 \<or> d = 2 \<or> d = 3 \<or> d = 4 \<or> d = 5 \<or> d = 6 \<or> d = 7 \<or> d = 8 \<or> d = 9"
  by arith

lemma less_16_cases:
  "(d::nat) < 16 \<Longrightarrow> d = 0 \<or> d = 1 \<or> d = 2 \<or> d = 3 \<or> d = 4 \<or> d = 5 \<or> d = 6 \<or> d = 7 \<or> d = 8 \<or>
     d = 9 \<or> d = 10 \<or> d = 11 \<or> d = 12 \<or> d = 13 \<or> d = 14 \<or> d = 15"
  by arith

text \<open>Two shifts of distinct offsets below the modulus stay distinct.\<close>

lemma mod_shift_eq_le:
  assumes "a \<le> b" and "b < (m::nat)" and "(x + a) mod m = (x + b) mod m"
  shows "a = b"
proof -
  have "m dvd (x + b) - (x + a)"
    using assms(1,3) mod_eq_dvd_iff_nat [of "x + a" "x + b" m] by simp
  then have dvd: "m dvd b - a" by simp
  show ?thesis
  proof (rule ccontr)
    assume "a \<noteq> b"
    with assms(1) have "0 < b - a" by simp
    with dvd have "m \<le> b - a" by (rule dvd_imp_le)
    with assms(2) show False by simp
  qed
qed

lemma mod_shift_inj:
  "a < (m::nat) \<Longrightarrow> b < m \<Longrightarrow> (x + a) mod m = (x + b) mod m \<Longrightarrow> a = b"
  by (metis mod_shift_eq_le nat_le_linear)

end
