(* ===== verification/Json.thy ===== *)
theory Json
  imports Prelude
begin

text \<open>
  JavaScript values as they reach and leave the handlers of \<open>src/index.js\<close>: the
  JSON values that \<open>express.json()\<close> produces for a request body and that
  \<open>res.json\<close> serialises, the truthiness test \<open>!city\<close>, the property read of a
  destructuring assignment, JavaScript's conversions between numbers and strings
  (\<open>String(n)\<close>, \<open>Number(s)\<close>, which Mongoose's casts call) and
  \<open>Date.prototype.toISOString\<close>, which \<open>JSON.stringify\<close> uses for dates. The
  properties: the round trip of \<open>Number::toString\<close> through \<open>StringToNumber\<close>, and
  the format and field ranges of \<open>toISOString\<close>.
\<close>

section \<open>Numbers\<close>

text \<open>
  A JavaScript number is modelled by its value: a finite decimal \<open>JFin m e\<close>, meaning
  \<open>m * 10 ^ e\<close>, or one of the two infinities. NaN is no value of the type: every
  conversion that would produce it returns \<open>None\<close> instead. Rounding to binary64 is not
  modelled: a number is the decimal it was written as.
\<close>

datatype jnum = JFin int int | JPosInf | JNegInf

function norm_dec :: "int \<Rightarrow> int \<Rightarrow> int \<times> int" where
  "norm_dec m e =
     (if m = 0 then (0, 0)
      else if m mod 10 = 0 then norm_dec (m div 10) (e + 1)
      else (m, e))"
  by pat_completeness auto
termination
  by (relation "measure (\<lambda>(m, e). nat \<bar>m\<bar>)") auto

declare norm_dec.simps [simp del]

fun jnum_norm :: "jnum \<Rightarrow> jnum" where
  "jnum_norm (JFin m e) = (case norm_dec m e of (m', e') \<Rightarrow> JFin m' e')"
| "jnum_norm x = x"

definition jnum_is_zero :: "jnum \<Rightarrow> bool" where
  "jnum_is_zero x = (case x of JFin m e \<Rightarrow> m = 0 | _ \<Rightarrow> False)"

subsection \<open>Decimal digits\<close>

definition digit_char :: "nat \<Rightarrow> char" where
  "digit_char d = ''0123456789'' ! d"

definition is_digit :: "char \<Rightarrow> bool" where
  "is_digit c \<longleftrightarrow> (48::nat) \<le> of_char c \<and> of_char c \<le> (57::nat)"

definition digit_value :: "char \<Rightarrow> nat" where
  "digit_value c = of_char c - 48"

fun digits_of :: "nat \<Rightarrow> string" where
  "digits_of n = (if n < 10 then [digit_char n] else digits_of (n div 10) @ [digit_char (n mod 10)])"

declare digits_of.simps [simp del]

definition nat_of_digits :: "string \<Rightarrow> nat" where
  "nat_of_digits ds = foldl (\<lambda>a c. 10 * a + digit_value c) 0 ds"

subsection \<open>\<open>Number::toString\<close>\<close>

text \<open>
  ECMAScript's \<open>Number::toString(x)\<close> for \<open>x > 0\<close>: with \<open>s\<close> the digits of the
  shortest decimal (here the normalised mantissa), \<open>k\<close> their count and \<open>n\<close> the
  position of the decimal point, the four layouts of the specification.
\<close>

definition js_pos_to_string :: "nat \<Rightarrow> int \<Rightarrow> string" where
  "js_pos_to_string s e =
     (let ds = digits_of s; k = int (length ds); n = k + e in
      if k \<le> n \<and> n \<le> 21 then ds @ replicate (nat (n - k)) CHR ''0''
      else if 0 < n \<and> n \<le> 21 then take (nat n) ds @ ''.'' @ drop (nat n) ds
      else if -6 < n \<and> n \<le> 0 then ''0.'' @ replicate (nat (- n)) CHR ''0'' @ ds
      else
        (let ex = n - 1;
             es = (if ex < 0 then CHR ''-'' else CHR ''+'') # digits_of (nat \<bar>ex\<bar>)
         in if k = 1 then ds @ ''e'' @ es else [hd ds] @ ''.'' @ tl ds @ ''e'' @ es))"

fun js_number_to_string :: "jnum \<Rightarrow> string" where
  "js_number_to_string JPosInf = ''Infinity''"
| "js_number_to_string JNegInf = ''-Infinity''"
| "js_number_to_string (JFin m e) =
     (case norm_dec m e of (m', e') \<Rightarrow>
        if m' = 0 then ''0''
        else if m' < 0 then CHR ''-'' # js_pos_to_string (nat (- m')) e'
        else js_pos_to_string (nat m') e')"

subsection \<open>\<open>StringToNumber\<close>\<close>

text \<open>
  \<open>Number(s)\<close> for a string: surrounding white space is removed (the Latin-1 white
  space and line terminators), the empty string is 0, otherwise the rest must be a
  decimal literal with an optional sign, fraction and exponent, \<open>Infinity\<close>, or a
  binary, octal or hexadecimal integer literal without a sign. Anything else is NaN.
\<close>

definition js_space :: "char \<Rightarrow> bool" where
  "js_space c \<longleftrightarrow> of_char c \<in> {9, 10, 11, 12, 13, 32, 160::nat}"

definition js_trim :: "string \<Rightarrow> string" where
  "js_trim s = rev (dropWhile js_space (rev (dropWhile js_space s)))"

definition parse_exponent :: "string \<Rightarrow> int option" where
  "parse_exponent r =
     (case r of
        [] \<Rightarrow> Some 0
      | c # r' \<Rightarrow>
          if c \<noteq> CHR ''e'' \<and> c \<noteq> CHR ''E'' then None
          else
            (let (sg, ds) = (case r' of
                               x # ds \<Rightarrow> if x = CHR ''-'' then (-1, ds)
                                         else if x = CHR ''+'' then (1, ds) else (1, r')
                             | [] \<Rightarrow> (1, []))
             in if ds \<noteq> [] \<and> list_all is_digit ds then Some (sg * int (nat_of_digits ds))
                else None))"

definition parse_unsigned_decimal :: "string \<Rightarrow> jnum option" where
  "parse_unsigned_decimal s =
     (if s = ''Infinity'' then Some JPosInf
      else
        (let ip = takeWhile is_digit s; r1 = dropWhile is_digit s;
             (fp, r2) = (case r1 of
                           c # r \<Rightarrow> if c = CHR ''.'' then (takeWhile is_digit r, dropWhile is_digit r)
                                    else ([], r1)
                         | [] \<Rightarrow> ([], []))
         in if ip = [] \<and> fp = [] then None
            else (case parse_exponent r2 of
                    None \<Rightarrow> None
                  | Some ex \<Rightarrow> Some (jnum_norm (JFin (int (nat_of_digits (ip @ fp)))
                                                      (ex - int (length fp)))))))"

definition jnum_neg :: "jnum \<Rightarrow> jnum" where
  "jnum_neg x = (case x of JFin m e \<Rightarrow> JFin (- m) e | JPosInf \<Rightarrow> JNegInf | JNegInf \<Rightarrow> JPosInf)"

definition radix_digit :: "nat \<Rightarrow> char \<Rightarrow> nat option" where
  "radix_digit b c =
     (let n = of_char c;
          v = (if 48 \<le> n \<and> n \<le> 57 then n - 48
               else if 97 \<le> n \<and> n \<le> 122 then n - 87
               else if 65 \<le> n \<and> n \<le> 90 then n - 55 else 36)
      in if v < b then Some v else None)"

definition parse_radix :: "nat \<Rightarrow> string \<Rightarrow> nat option" where
  "parse_radix b ds =
     (if ds \<noteq> [] \<and> list_all (\<lambda>c. radix_digit b c \<noteq> None) ds
      then Some (foldl (\<lambda>a c. b * a + the (radix_digit b c)) 0 ds) else None)"

definition radix_prefix :: "char \<Rightarrow> nat option" where
  "radix_prefix c =
     (if c = CHR ''x'' \<or> c = CHR ''X'' then Some 16
      else if c = CHR ''o'' \<or> c = CHR ''O'' then Some 8
      else if c = CHR ''b'' \<or> c = CHR ''B'' then Some 2 else None)"

definition js_string_to_number :: "string \<Rightarrow> jnum option" where
  "js_string_to_number str =
     (let t = js_trim str in
      case t of
        [] \<Rightarrow> Some (JFin 0 0)
      | c # r \<Rightarrow>
          (case r of
             p # ds \<Rightarrow>
               if c = CHR ''0'' \<and> radix_prefix p \<noteq> None
               then map_option (\<lambda>v. jnum_norm (JFin (int v) 0)) (parse_radix (the (radix_prefix p)) ds)
               else if c = CHR ''-'' then map_option jnum_neg (parse_unsigned_decimal r)
               else if c = CHR ''+'' then parse_unsigned_decimal r
               else parse_unsigned_decimal t
           | [] \<Rightarrow> parse_unsigned_decimal t))"

section \<open>JSON values\<close>

text \<open>
  A JSON value as \<open>JSON.parse\<close> builds it. Objects keep their members in source order,
  duplicates included, as an association list; reading a property takes the last
  member of that name, as \<open>JSON.parse\<close> overwrites earlier ones.
\<close>

datatype jval =
    JNull
  | JBool bool
  | JNum jnum
  | JStr string
  | JArr "jval list"
  | JObj "(string \<times> jval) list"

text \<open>
  Reading a property of a value, \<open>None\<close> standing for \<open>undefined\<close>. Only objects
  have the properties the handlers read (\<open>city\<close>, \<open>country\<close>,
  \<open>temperature\<close>, \<open>description\<close>, \<open>_id\<close>).
\<close>

fun jget :: "jval \<Rightarrow> string \<Rightarrow> jval option" where
  "jget (JObj kvs) k = map_of (rev kvs) k"
| "jget _ k = None"

text \<open>JavaScript truthiness: \<open>null\<close>, \<open>false\<close>, \<open>0\<close> and \<open>''''\<close> are falsy.\<close>

fun js_truthy :: "jval \<Rightarrow> bool" where
  "js_truthy JNull = False"
| "js_truthy (JBool b) = b"
| "js_truthy (JNum n) = (\<not> jnum_is_zero n)"
| "js_truthy (JStr s) = (s \<noteq> [])"
| "js_truthy (JArr _) = True"
| "js_truthy (JObj _) = True"

text \<open>The same test on a property read, where \<open>undefined\<close> is falsy too.\<close>

definition truthy_opt :: "jval option \<Rightarrow> bool" where
  "truthy_opt v = (case v of None \<Rightarrow> False | Some x \<Rightarrow> js_truthy x)"

section \<open>Dates\<close>

text \<open>
  \<open>JSON.stringify\<close> writes a \<open>Date\<close> with \<open>toISOString\<close>:
  \<open>YYYY-MM-DDTHH:mm:ss.sssZ\<close> in UTC, with a six-digit signed year beyond 9999. The
  civil date of a day count is computed by the era-based conversion (days since
  1970-01-01 shifted to 0000-03-01, eras of 400 years of 146097 days); clock values are
  never negative here, as \<open>Date.now()\<close> is not.
\<close>

definition civil_from_days :: "nat \<Rightarrow> nat \<times> nat \<times> nat" where
  "civil_from_days z0 =
     (let z = z0 + 719468;
          era = z div 146097;
          doe = z mod 146097;
          yoe = (doe - doe div 1460 + doe div 36524 - doe div 146096) div 365;
          doy = doe - (365 * yoe + yoe div 4 - yoe div 100);
          mp = (5 * doy + 2) div 153;
          d = doy - (153 * mp + 2) div 5 + 1;
          m = (if mp < 10 then mp + 3 else mp - 9);
          y = yoe + era * 400 + (if m \<le> 2 then 1 else 0)
      in (y, m, d))"

text \<open>
  The reference the conversion is checked against: the number of days from 1970-01-01
  to a civil date, by the same era arithmetic run forwards.
\<close>

definition days_from_civil :: "nat \<Rightarrow> nat \<Rightarrow> nat \<Rightarrow> nat" where
  "days_from_civil y m d =
     (let y' = (if m \<le> 2 then y - 1 else y);
          era = y' div 400;
          yoe = y' mod 400;
          mp = (if 2 < m then m - 3 else m + 9);
          doy = (153 * mp + 2) div 5 + d - 1;
          doe = 365 * yoe + yoe div 4 - yoe div 100 + doy
      in era * 146097 + doe - 719468)"

definition pad_digits :: "nat \<Rightarrow> nat \<Rightarrow> string" where
  "pad_digits w n = (let ds = digits_of n in replicate (w - length ds) CHR ''0'' @ ds)"

definition iso_date :: "millis \<Rightarrow> string" where
  "iso_date t =
     (let r = t mod 86400000;
          (y, mo, d) = civil_from_days (t div 86400000)
      in (if y \<le> 9999 then pad_digits 4 y else CHR ''+'' # pad_digits 6 y)
         @ ''-'' @ pad_digits 2 mo @ ''-'' @ pad_digits 2 d
         @ ''T'' @ pad_digits 2 (r div 3600000) @ '':'' @ pad_digits 2 (r mod 3600000 div 60000)
         @ '':'' @ pad_digits 2 (r mod 60000 div 1000) @ ''.'' @ pad_digits 3 (r mod 1000) @ ''Z'')"

section \<open>Properties\<close>

subsection \<open>Decimal digits and normalisation\<close>

lemma digit_char_props:
  assumes "d < 10"
  shows "is_digit (digit_char d) \<and> digit_value (digit_char d) = d \<and> (digit_char d = CHR ''0'' \<longleftrightarrow> d = 0)"
  using less_10_cases [OF assms]
  by (elim disjE) (simp_all add: digit_char_def is_digit_def digit_value_def)

lemma digits_of_props:
  "list_all is_digit (digits_of n) \<and> nat_of_digits (digits_of n) = n \<and> digits_of n \<noteq> [] \<and>
   (0 < n \<longrightarrow> hd (digits_of n) \<noteq> CHR ''0'')"
proof (induction n rule: digits_of.induct)
  case (1 n)
  show ?case
  proof (cases "n < 10")
    case True
    with digit_char_props [OF True] show ?thesis
      by (simp add: digits_of.simps nat_of_digits_def)
  next
    case False
    then have "0 < n div 10" by simp
    with 1 False digit_char_props [of "n mod 10"] show ?thesis
      by (auto simp: digits_of.simps [of n] nat_of_digits_def)
  qed
qed

lemma nat_of_digits_append:
  "nat_of_digits (xs @ ys) = nat_of_digits xs * 10 ^ length ys + nat_of_digits ys"
proof (induction ys rule: rev_induct)
  case Nil
  then show ?case by (simp add: nat_of_digits_def)
next
  case (snoc y ys)
  then show ?case by (simp add: nat_of_digits_def algebra_simps)
qed

lemma nat_of_digits_zeros: "nat_of_digits (replicate j CHR ''0'') = 0"
  by (induction j) (simp_all add: nat_of_digits_def digit_value_def replicate_append_same [symmetric])

lemma norm_dec_nondiv: "m \<noteq> 0 \<Longrightarrow> m mod 10 \<noteq> 0 \<Longrightarrow> norm_dec m e = (m, e)"
  by (simp add: norm_dec.simps [of m e])

lemma norm_dec_step: "m \<noteq> 0 \<Longrightarrow> m mod 10 = 0 \<Longrightarrow> norm_dec m e = norm_dec (m div 10) (e + 1)"
  by (simp add: norm_dec.simps [of m e])

lemma norm_dec_pow10: "m \<noteq> 0 \<Longrightarrow> norm_dec (m * 10 ^ j) e = norm_dec m (e + int j)"
proof (induction j arbitrary: e)
  case 0
  then show ?case by simp
next
  case (Suc j)
  have "norm_dec (m * 10 ^ Suc j) e = norm_dec (m * 10 ^ j) (e + 1)"
    using Suc.prems norm_dec_step [of "m * 10 ^ Suc j" e] by simp
  with Suc show ?case by (simp add: algebra_simps)
qed

lemma norm_dec_neg: "norm_dec (- m) e = (- fst (norm_dec m e), snd (norm_dec m e))"
proof (induction m e rule: norm_dec.induct)
  case (1 m e)
  show ?case
  proof (cases "m = 0")
    case True
    then show ?thesis by (simp add: norm_dec.simps [of 0 e])
  next
    case nz: False
    show ?thesis
    proof (cases "m mod 10 = 0")
      case False
      then have "(- m) mod 10 \<noteq> 0" using zmod_zminus1_not_zero [of "- m" 10] by auto
      with nz False show ?thesis by (simp add: norm_dec_nondiv)
    next
      case True
      then have "(- m) mod 10 = 0" and "(- m) div 10 = - (m div 10)"
        by (simp_all add: zmod_zminus1_eq_if zdiv_zminus1_eq_if)
      with nz True "1.IH" show ?thesis by (simp add: norm_dec_step)
    qed
  qed
qed

lemma norm_dec_result:
  "norm_dec m e = (m', e') \<Longrightarrow> (m = 0 \<longrightarrow> m' = 0) \<and> (m \<noteq> 0 \<longrightarrow> m' \<noteq> 0 \<and> m' mod 10 \<noteq> 0 \<and> (0 < m' \<longleftrightarrow> 0 < m))"
proof (induction m e arbitrary: m' e' rule: norm_dec.induct)
  case (1 m e)
  show ?case
  proof (cases "m = 0")
    case True
    with "1.prems" show ?thesis by (simp add: norm_dec.simps [of 0 e])
  next
    case nz: False
    show ?thesis
    proof (cases "m mod 10 = 0")
      case False
      with nz "1.prems" show ?thesis by (simp add: norm_dec_nondiv)
    next
      case True
      then have "m = 10 * (m div 10)" using div_mult_mod_eq [of m 10] by linarith
      with nz have d: "m div 10 \<noteq> 0" and sg: "0 < m div 10 \<longleftrightarrow> 0 < m" by linarith+
      from nz True "1.prems" have nd: "norm_dec (m div 10) (e + 1) = (m', e')"
        by (simp add: norm_dec_step)
      from "1.IH" [OF nz True nd] d sg nz show ?thesis by simp
    qed
  qed
qed

subsection \<open>Reading back what \<open>Number::toString\<close> writes\<close>

text \<open>
  \<open>parse_unsigned_decimal\<close> on the literals the printer produces: digits, an optional
  fraction, an optional exponent.
\<close>

lemma is_digit_not_sep [simp]:
  "\<not> is_digit CHR ''.''" "\<not> is_digit CHR ''e''" "\<not> is_digit CHR ''-''" "\<not> is_digit CHR ''+''"
  by (simp_all add: is_digit_def)

lemma parse_exponent_digits:
  "parse_exponent (CHR ''e'' # (if x < 0 then CHR ''-'' else CHR ''+'') # digits_of (nat \<bar>x\<bar>)) = Some x"
  using digits_of_props [of "nat \<bar>x\<bar>"] by (cases "x < 0") (simp_all add: parse_exponent_def)

lemma parse_unsigned_decimal_lit:
  assumes ip: "list_all is_digit ip" "ip \<noteq> []" and fp: "list_all is_digit fp"
    and r: "r = [] \<or> hd r = CHR ''e''" and x: "parse_exponent r = Some x"
  shows "parse_unsigned_decimal (ip @ (if fp = [] then r else CHR ''.'' # fp @ r)) =
           Some (jnum_norm (JFin (int (nat_of_digits (ip @ fp))) (x - int (length fp))))"
proof -
  have ne: "ip @ (if fp = [] then r else CHR ''.'' # fp @ r) \<noteq> ''Infinity''"
    using ip by (cases ip) (auto simp: is_digit_def)
  have tw: "takeWhile is_digit (ip @ rest) = ip" if "rest = [] \<or> \<not> is_digit (hd rest)" for rest
    using ip that by (cases rest) (auto simp: list_all_iff takeWhile_append2)
  have dw: "dropWhile is_digit (ip @ rest) = rest" if "rest = [] \<or> \<not> is_digit (hd rest)" for rest
    using ip that by (cases rest) (auto simp: list_all_iff dropWhile_append2)
  have twf: "takeWhile is_digit (fp @ r) = fp"
    using fp r by (cases r) (auto simp: list_all_iff takeWhile_append2)
  have dwf: "dropWhile is_digit (fp @ r) = r"
    using fp r by (cases r) (auto simp: list_all_iff dropWhile_append2)
  show ?thesis
  proof (cases "fp = []")
    case True
    from r have "r = [] \<or> \<not> is_digit (hd r)" by auto
    with True ne x ip r show ?thesis
      by (auto simp: parse_unsigned_decimal_def tw dw split: list.splits)
  next
    case False
    with ne x ip twf dwf show ?thesis
      by (simp add: parse_unsigned_decimal_def tw dw)
  qed
qed

lemma nat_of_digits_zero_prefix: "nat_of_digits (CHR ''0'' # replicate j CHR ''0'' @ ds) = nat_of_digits ds"
  using nat_of_digits_append [of "CHR ''0'' # replicate j CHR ''0''" ds]
    nat_of_digits_zeros [of "Suc j"] by simp

lemma jnum_norm_nondiv:
  assumes "0 < s" and "s mod 10 \<noteq> 0"
  shows "norm_dec (int s) x = (int s, x)"
proof (rule norm_dec_nondiv)
  show "int s \<noteq> 0" using assms by simp
  have "int s mod 10 = int (s mod 10)" by (simp add: of_nat_mod)
  then show "int s mod 10 \<noteq> 0" using assms by simp
qed

lemma js_pos_to_string_parse:
  assumes s: "0 < s" "s mod 10 \<noteq> 0"
  shows "parse_unsigned_decimal (js_pos_to_string s e) = Some (JFin (int s) e)"
proof -
  define ds where "ds = digits_of s"
  define k where "k = int (length ds)"
  define n where "n = k + e"
  have D: "list_all is_digit ds" "nat_of_digits ds = s" "ds \<noteq> []"
    using digits_of_props [of s] by (simp_all add: ds_def)
  note N = jnum_norm_nondiv [OF s]
  have lit: "parse_unsigned_decimal (ip @ (if fp = [] then r else CHR ''.'' # fp @ r)) =
           Some (jnum_norm (JFin (int (nat_of_digits (ip @ fp))) (x - int (length fp))))"
    if "list_all is_digit ip" "ip \<noteq> []" "list_all is_digit fp" "r = [] \<or> hd r = CHR ''e''"
       "parse_exponent r = Some x" for ip fp r x
    using parse_unsigned_decimal_lit [OF that] .
  have pe0: "parse_exponent [] = Some 0" by (simp add: parse_exponent_def)
  consider (A) "k \<le> n \<and> n \<le> 21" | (B) "\<not> (k \<le> n \<and> n \<le> 21)" "0 < n \<and> n \<le> 21"
    | (C) "\<not> (k \<le> n \<and> n \<le> 21)" "\<not> (0 < n \<and> n \<le> 21)" "-6 < n \<and> n \<le> 0"
    | (E) "\<not> (k \<le> n \<and> n \<le> 21)" "\<not> (0 < n \<and> n \<le> 21)" "\<not> (-6 < n \<and> n \<le> 0)"
    by blast
  then show ?thesis
  proof cases
    case A
    let ?z = "replicate (nat (n - k)) CHR ''0''"
    have str: "js_pos_to_string s e = (ds @ ?z) @ (if [] = [] then [] else CHR ''.'' # [] @ [])"
      using A by (simp add: js_pos_to_string_def Let_def ds_def k_def n_def)
    have v: "nat_of_digits (ds @ ?z @ []) = s * 10 ^ nat (n - k)"
      using D by (simp add: nat_of_digits_append nat_of_digits_zeros)
    have "norm_dec (int s * 10 ^ nat (n - k)) 0 = (int s, e)"
      using A s N by (simp add: norm_dec_pow10 n_def)
    moreover have "list_all is_digit (ds @ ?z)"
      using D(1) by (auto simp: list_all_iff is_digit_def)
    ultimately show ?thesis
      using lit [of "ds @ ?z" "[]" "[]" 0] D pe0 v str by simp
  next
    case B
    let ?i = "take (nat n) ds" and ?f = "drop (nat n) ds"
    have lt: "nat n < length ds" using B by (simp add: k_def n_def nat_less_iff)
    have ne: "?i \<noteq> []" "?f \<noteq> []" using B lt D(3) by (auto simp: k_def n_def)
    have str: "js_pos_to_string s e = ?i @ (if ?f = [] then [] else CHR ''.'' # ?f @ [])"
      using B ne by (simp add: js_pos_to_string_def Let_def ds_def k_def n_def)
    have dig: "list_all is_digit ?i" "list_all is_digit ?f"
      using D(1) by (auto simp: list_all_iff dest: in_set_takeD in_set_dropD)
    have ex: "0 - int (length ?f) = e" using B lt by (simp add: k_def n_def)
    show ?thesis
      using lit [OF dig(1) ne(1) dig(2) _ pe0] str D(2) ex N by simp
  next
    case C
    let ?f = "replicate (nat (- n)) CHR ''0'' @ ds"
    have str: "js_pos_to_string s e = [CHR ''0''] @ (if ?f = [] then [] else CHR ''.'' # ?f @ [])"
      using C D(3) by (simp add: js_pos_to_string_def Let_def ds_def k_def n_def)
    have dig: "list_all is_digit [CHR ''0'']" "list_all is_digit ?f"
      using D(1) by (auto simp: list_all_iff is_digit_def)
    have ex: "0 - int (length ?f) = e" using C by (simp add: k_def n_def)
    show ?thesis
      using lit [OF dig(1) _ dig(2) _ pe0] str D(2) ex N by (simp add: nat_of_digits_zero_prefix)
  next
    case E
    let ?es = "(if n - 1 < 0 then CHR ''-'' else CHR ''+'') # digits_of (nat \<bar>n - 1\<bar>)"
    have pe: "parse_exponent (CHR ''e'' # ?es) = Some (n - 1)" by (rule parse_exponent_digits)
    show ?thesis
    proof (cases "k = 1")
      case True
      have str: "js_pos_to_string s e = ds @ (if [] = [] then CHR ''e'' # ?es else CHR ''.'' # [] @ [])"
        unfolding js_pos_to_string_def Let_def ds_def [symmetric] k_def [symmetric] n_def [symmetric]
        using E True by auto
      have ex: "n - 1 - int (length []) = e" using True by (simp add: n_def)
      show ?thesis
        using lit [of ds "[]" "CHR ''e'' # ?es" "n - 1"] D pe str ex N by simp
    next
      case False
      have ne: "tl ds \<noteq> []" using False D(3) by (cases ds) (auto simp: k_def)
      have str: "js_pos_to_string s e = [hd ds] @ (if tl ds = [] then CHR ''e'' # ?es else CHR ''.'' # tl ds @ CHR ''e'' # ?es)"
        unfolding js_pos_to_string_def Let_def ds_def [symmetric] k_def [symmetric] n_def [symmetric]
        using E False ne by auto
      have dig: "list_all is_digit [hd ds]" "list_all is_digit (tl ds)"
        using D(1) D(3) by (cases ds; simp)+
      have v: "nat_of_digits ([hd ds] @ tl ds) = s" using D(2,3) by simp
      have ex: "n - 1 - int (length (tl ds)) = e" using D(3) by (cases ds) (simp_all add: k_def n_def)
      show ?thesis
        using lit [of "[hd ds]" "tl ds" "CHR ''e'' # ?es" "n - 1"] dig pe str v ex N by simp
    qed
  qed
qed

lemma js_pos_to_string_chars:
  assumes "0 < s"
  shows "js_pos_to_string s e \<noteq> [] \<and> is_digit (hd (js_pos_to_string s e)) \<and>
         list_all (\<lambda>c. is_digit c \<or> c \<in> set ''.e+-'') (js_pos_to_string s e)"
proof -
  have D: "list_all is_digit (digits_of s)" "digits_of s \<noteq> []"
    using digits_of_props [of s] by simp_all
  have E: "list_all is_digit (digits_of x)" for x using digits_of_props [of x] by simp
  have z: "is_digit CHR ''0''" by (simp add: is_digit_def)
  have hdd: "is_digit (hd (digits_of s))" using D by (cases "digits_of s") simp_all
  have ne: "js_pos_to_string s e \<noteq> []"
    using D(2) by (simp add: js_pos_to_string_def Let_def)
  have h: "hd (js_pos_to_string s e) = hd (digits_of s) \<or> hd (js_pos_to_string s e) = CHR ''0''"
    using D(2) by (simp add: js_pos_to_string_def Let_def hd_append hd_take)
  have sub: "set (js_pos_to_string s e) \<subseteq> (\<Union>x. set (digits_of x)) \<union> set ''0.e+-''"
    using D(2) by (auto simp: js_pos_to_string_def Let_def
        dest: in_set_takeD in_set_dropD list.set_sel(2) intro: list.set_sel(1))
  have l: "list_all (\<lambda>c. is_digit c \<or> c \<in> set ''.e+-'') (js_pos_to_string s e)"
  proof (unfold list_all_iff, intro ballI)
    fix c assume "c \<in> set (js_pos_to_string s e)"
    with sub have "(\<exists>x. c \<in> set (digits_of x)) \<or> c \<in> set ''0.e+-''" by blast
    with E z show "is_digit c \<or> c \<in> set ''.e+-''" by (auto simp: list_all_iff)
  qed
  from ne h hdd z l show ?thesis by auto
qed

lemma js_trim_num:
  assumes "list_all (\<lambda>c. is_digit c \<or> c \<in> set ''.e+-'') t"
  shows "js_trim t = t"
proof -
  have ns: "\<not> js_space c" if "is_digit c \<or> c \<in> set ''.e+-''" for c
    using that by (auto simp: is_digit_def js_space_def)
  have dw: "dropWhile js_space xs = xs" if "list_all (\<lambda>c. is_digit c \<or> c \<in> set ''.e+-'') xs" for xs
    using that ns by (cases xs) auto
  show ?thesis
    using dw [OF assms] dw [of "rev t"] assms by (simp add: js_trim_def)
qed

lemma js_string_to_number_digits:
  assumes "t \<noteq> []" and "is_digit (hd t)" and "list_all (\<lambda>c. is_digit c \<or> c \<in> set ''.e+-'') t"
  shows "js_string_to_number t = parse_unsigned_decimal t"
proof -
  obtain c r where t: "t = c # r" using assms(1) by (cases t) auto
  have tr: "js_trim t = t" by (rule js_trim_num [OF assms(3)])
  have c: "c \<noteq> CHR ''-''" "c \<noteq> CHR ''+''" using assms(2) t by auto
  show ?thesis
  proof (cases r)
    case Nil
    with t tr show ?thesis by (simp add: js_string_to_number_def)
  next
    case (Cons p ds)
    have "is_digit p \<or> p \<in> set ''.e+-''" using assms(3) t Cons by simp
    then have "radix_prefix p = None" by (auto simp: radix_prefix_def is_digit_def)
    with t tr c Cons show ?thesis by (simp add: js_string_to_number_def)
  qed
qed

lemma js_string_to_number_minus:
  assumes "t \<noteq> []" and "list_all (\<lambda>c. is_digit c \<or> c \<in> set ''.e+-'') t"
  shows "js_string_to_number (CHR ''-'' # t) = map_option jnum_neg (parse_unsigned_decimal t)"
proof -
  have "list_all (\<lambda>c. is_digit c \<or> c \<in> set ''.e+-'') (CHR ''-'' # t)" using assms(2) by simp
  from js_trim_num [OF this] assms(1) show ?thesis
    by (cases t) (simp_all add: js_string_to_number_def)
qed

text \<open>
  \<open>Number(String(x))\<close> is \<open>x\<close>: for every number of the model, reading its string form
  back gives its normalised value.
\<close>

lemma js_number_roundtrip: "js_string_to_number (js_number_to_string x) = Some (jnum_norm x)"
proof (cases x)
  case (JFin m e)
  obtain m' e' where nd: "norm_dec m e = (m', e')" by (metis prod.exhaust)
  note R = norm_dec_result [OF nd]
  consider "m' = 0" | "m' < 0" | "0 < m'" by linarith
  then show ?thesis
  proof cases
    case 1
    with R have "m = 0" by auto
    with nd have "e' = 0" by (simp add: norm_dec.simps [of 0 e])
    with 1 JFin nd show ?thesis
      by (simp add: js_string_to_number_def js_trim_def js_space_def parse_unsigned_decimal_def
          parse_exponent_def is_digit_def nat_of_digits_def digit_value_def norm_dec.simps [of 0 0])
  next
    case 2
    let ?s = "nat (- m')"
    from 2 R have m: "m' mod 10 \<noteq> 0" by auto
    have "(- m') mod 10 \<noteq> 0" using m zmod_zminus1_not_zero [of "- m'" 10] by simp
    moreover have "int (?s mod 10) = (- m') mod 10" using 2 by (simp add: of_nat_mod)
    ultimately have s: "0 < ?s" "?s mod 10 \<noteq> 0" using 2 by auto
    note C = js_pos_to_string_chars [OF s(1), of e']
    show ?thesis
      using 2 JFin nd js_string_to_number_minus [of "js_pos_to_string ?s e'"] C js_pos_to_string_parse [OF s]
      by (simp add: jnum_neg_def)
  next
    case 3
    let ?s = "nat m'"
    from 3 R have m: "m' mod 10 \<noteq> 0" by auto
    have "int (?s mod 10) = m' mod 10" using 3 by (simp add: of_nat_mod)
    with 3 m have s: "0 < ?s" "?s mod 10 \<noteq> 0" by auto
    note C = js_pos_to_string_chars [OF s(1), of e']
    show ?thesis
      using 3 JFin nd js_string_to_number_digits [of "js_pos_to_string ?s e'"] C js_pos_to_string_parse [OF s]
      by simp
  qed
next
  case JPosInf
  then show ?thesis
    by (simp add: js_string_to_number_def js_trim_def js_space_def parse_unsigned_decimal_def)
next
  case JNegInf
  then show ?thesis
    by (simp add: js_string_to_number_def js_trim_def js_space_def parse_unsigned_decimal_def jnum_neg_def)
qed

lemma js_number_to_string_ne: "js_number_to_string x \<noteq> []"
proof (cases x)
  case (JFin m e)
  obtain m' e' where "norm_dec m e = (m', e')" by (metis prod.exhaust)
  with JFin show ?thesis
    using js_pos_to_string_chars [of "nat m'" e'] js_pos_to_string_chars [of "nat (- m')" e'] by auto
qed simp_all

subsection \<open>Dates\<close>

text \<open>
  The era-based conversion: within an era of 400 years, the year of a day is found by
  discounting the leap days before it; the day of the year it leaves is at most 365,
  which bounds the month and the day of the month.
\<close>

lemma length_digits_of: "n < 10 ^ k \<Longrightarrow> 0 < k \<Longrightarrow> length (digits_of n) \<le> k"
proof (induction n arbitrary: k rule: digits_of.induct)
  case (1 n)
  show ?case
  proof (cases "n < 10")
    case True
    with "1.prems" show ?thesis by (simp add: digits_of.simps)
  next
    case False
    have "\<not> k \<le> 1"
    proof
      assume "k \<le> 1"
      then have "(10::nat) ^ k \<le> 10 ^ 1" by (rule power_increasing) simp
      with "1.prems"(1) False show False by simp
    qed
    then obtain k' where k: "k = Suc k'" and "0 < k'" by (cases k) auto
    have "n < 10 ^ k' * 10" using "1.prems"(1) k by (simp add: mult.commute)
    then have "n div 10 < 10 ^ k'" by (rule less_mult_imp_div_less)
    with "1.IH" [OF False] \<open>0 < k'\<close> k False show ?thesis by (simp add: digits_of.simps [of n])
  qed
qed

lemma length_pad_digits: "n < 10 ^ w \<Longrightarrow> 0 < w \<Longrightarrow> length (pad_digits w n) = w"
  using length_digits_of [of n w] by (simp add: pad_digits_def Let_def)

lemma civil_doy_bound:
  fixes doe yoe :: nat
  assumes "doe < 146097"
    and "yoe = (doe - doe div 1460 + doe div 36524 - doe div 146096) div 365"
  shows "365 * yoe + yoe div 4 - yoe div 100 \<le> doe \<and> doe - (365 * yoe + yoe div 4 - yoe div 100) \<le> 365 \<and>
         yoe \<le> 399"
proof (cases "doe = 146096")
  case True
  then show ?thesis using assms(2) by simp
next
  case False
  define c where "c = doe div 36524"
  define q where "q = doe mod 36524 div 1461"
  define s where "s = doe mod 36524 mod 1461"
  define ind where "ind = (24 * c + q + s) div 1460"
  have c3: "c \<le> 3" using assms(1) False by (simp add: c_def less_Suc_eq_le div_le_mono [of doe 146095 36524, simplified])
  have doe_eq: "doe = 36524 * c + 1461 * q + s" by (simp add: c_def q_def s_def)
  have e: "1461 * q + s = doe mod 36524" and e_lt: "doe mod 36524 < 36524"
    using div_mult_mod_eq [of "doe mod 36524" 1461] by (simp_all add: q_def s_def mult.commute)
  have q24: "q \<le> 24" and s24: "q = 24 \<Longrightarrow> s \<le> 1459" and s1461: "s < 1461"
    using e e_lt by (auto simp: s_def)
  have ind1: "ind \<le> 1" and ind_s: "s = 1460 \<Longrightarrow> ind = 1" and s_ind: "ind \<le> s"
    using c3 q24 s1461 by (auto simp: ind_def)
  have a: "doe div 1460 = 25 * c + q + ind"
  proof -
    have "doe = 1460 * (25 * c + q) + (24 * c + q + s)" using doe_eq by simp
    then show ?thesis by (simp add: ind_def)
  qed
  have b: "doe div 36524 = c" and b4: "doe div 146096 = 0"
    using assms(1) False by (simp_all add: c_def)
  define j where "j = (s - ind) div 365"
  have yoe: "yoe = 100 * c + 4 * q + j"
  proof -
    define k where "k = 100 * c + 4 * q"
    have "doe - doe div 1460 + doe div 36524 - doe div 146096 = (s - ind) + k * 365"
      using doe_eq a b b4 s_ind by (simp add: k_def)
    then have "yoe = (s - ind) div 365 + k" using assms(2) by simp
    then show ?thesis by (simp add: j_def k_def)
  qed
  have j3: "j \<le> 3"
  proof -
    have "s - ind \<le> 1459" using s1461 ind_s by (cases "s = 1460") auto
    then show ?thesis by (simp add: j_def)
  qed
  have y4: "yoe div 4 = 25 * c + q" and y100: "yoe div 100 = c"
    using yoe j3 q24 by simp_all
  have start: "365 * yoe + yoe div 4 - yoe div 100 = 36524 * c + 1461 * q + 365 * j"
    using yoe y4 y100 by simp
  have "365 * j \<le> s - ind" and "s - ind < 365 * j + 365"
    by (simp_all add: j_def)
  moreover have "yoe \<le> 399" using yoe c3 q24 j3 by simp
  ultimately show ?thesis using ind1 s_ind start doe_eq by simp arith
qed

lemma civil_day_bound: "doy - (153 * ((5 * doy + 2) div 153) + 2) div 5 \<le> (30::nat)"
proof -
  define mp where "mp = (5 * doy + 2) div 153"
  define w where "w = (153 * mp + 2) div 5"
  have "5 * doy + 2 = 153 * mp + (5 * doy + 2) mod 153" and "(5 * doy + 2) mod 153 < 153"
    by (simp_all add: mp_def)
  moreover have "153 * mp + 2 = 5 * w + (153 * mp + 2) mod 5" and "(153 * mp + 2) mod 5 < 5"
    by (simp_all add: w_def)
  ultimately have "doy - w \<le> 30" by linarith
  then show ?thesis by (simp add: mp_def w_def)
qed

lemma civil_from_days_bounds:
  assumes "civil_from_days z = (y, m, d)"
  shows "1 \<le> m \<and> m \<le> 12 \<and> 1 \<le> d \<and> d \<le> 31"
proof -
  define doe where "doe = (z + 719468) mod 146097"
  define yoe where "yoe = (doe - doe div 1460 + doe div 36524 - doe div 146096) div 365"
  define doy where "doy = doe - (365 * yoe + yoe div 4 - yoe div 100)"
  define mp where "mp = (5 * doy + 2) div 153"
  from assms have m: "m = (if mp < 10 then mp + 3 else mp - 9)" and d: "d = doy - (153 * mp + 2) div 5 + 1"
    unfolding civil_from_days_def Let_def doe_def [symmetric] yoe_def [symmetric] doy_def [symmetric]
      mp_def [symmetric]
    by (auto simp only: prod.inject)
  have "doe < 146097" by (simp add: doe_def)
  then have "doy \<le> 365" using civil_doy_bound [OF _ yoe_def] by (simp add: doy_def)
  then have "mp \<le> 11" using div_le_mono [of "5 * doy + 2" 1827 153] by (simp add: mp_def)
  moreover have "doy - (153 * mp + 2) div 5 \<le> 30" using civil_day_bound [of doy] by (simp only: mp_def)
  ultimately show ?thesis using m d by auto
qed

text \<open>The conversion inverts the day count: the civil date names exactly the given day.\<close>

lemma civil_from_days_inverse:
  assumes "civil_from_days z = (y, m, d)"
  shows "days_from_civil y m d = z"
proof -
  define era where "era = (z + 719468) div 146097"
  define doe where "doe = (z + 719468) mod 146097"
  define yoe where "yoe = (doe - doe div 1460 + doe div 36524 - doe div 146096) div 365"
  define doy where "doy = doe - (365 * yoe + yoe div 4 - yoe div 100)"
  define mp where "mp = (5 * doy + 2) div 153"
  from assms have y: "y = yoe + era * 400 + (if m \<le> 2 then 1 else 0)"
    and m: "m = (if mp < 10 then mp + 3 else mp - 9)" and d: "d = doy - (153 * mp + 2) div 5 + 1"
    unfolding civil_from_days_def Let_def era_def [symmetric] doe_def [symmetric] yoe_def [symmetric]
      doy_def [symmetric] mp_def [symmetric]
    by (auto simp only: prod.inject)
  have "doe < 146097" by (simp add: doe_def)
  from civil_doy_bound [OF this yoe_def]
  have sy: "365 * yoe + yoe div 4 - yoe div 100 \<le> doe" and "doy \<le> 365" and yoe: "yoe \<le> 399"
    by (simp_all add: doy_def)
  then have "mp \<le> 11" using div_le_mono [of "5 * doy + 2" 1827 153] by (simp add: mp_def)
  have w: "(153 * mp + 2) div 5 \<le> doy"
  proof -
    have "153 * mp \<le> 5 * doy + 2" using div_times_less_eq_dividend [of "5 * doy + 2" 153]
      by (simp add: mp_def mult.commute)
    then have "(153 * mp + 2) div 5 \<le> (5 * doy + 4) div 5" by (intro div_le_mono) simp
    then show ?thesis by simp
  qed
  have y': "(if m \<le> 2 then y - 1 else y) = yoe + era * 400" using y by simp
  have "(yoe + era * 400) div 400 = era" and "(yoe + era * 400) mod 400 = yoe" using yoe by simp_all
  moreover have "(if 2 < m then m - 3 else m + 9) = mp" using m \<open>mp \<le> 11\<close> by auto
  moreover have "(153 * mp + 2) div 5 + d - 1 = doy" using d w by simp
  moreover have "365 * yoe + yoe div 4 - yoe div 100 + doy = doe" using sy by (simp add: doy_def)
  moreover have "era * 146097 + doe = z + 719468" by (simp add: era_def doe_def mult.commute)
  ultimately show ?thesis unfolding days_from_civil_def Let_def y' by simp
qed

lemma pad_digits_props:
  assumes "n < 10 ^ w" and "0 < w"
  shows "length (pad_digits w n) = w \<and> list_all is_digit (pad_digits w n) \<and> nat_of_digits (pad_digits w n) = n"
proof -
  have "list_all is_digit (replicate k CHR ''0'')" for k by (induction k) (simp_all add: is_digit_def)
  with length_digits_of [OF assms] digits_of_props [of n] show ?thesis
    by (simp add: pad_digits_def Let_def nat_of_digits_append nat_of_digits_zeros)
qed

lemma day_time_split:
  fixes r :: nat
  shows "r div 3600000 * 3600000 + r mod 3600000 div 60000 * 60000 + r mod 60000 div 1000 * 1000 + r mod 1000 = r"
proof -
  have "r mod 3600000 mod 60000 = r mod 60000" by (rule mod_mod_cancel) simp
  moreover have "r mod 60000 mod 1000 = r mod 1000" by (rule mod_mod_cancel) simp
  moreover have "r mod 3600000 div 60000 * 60000 + r mod 3600000 mod 60000 = r mod 3600000" by simp
  moreover have "r mod 60000 div 1000 * 1000 + r mod 60000 mod 1000 = r mod 60000" by simp
  moreover have "r div 3600000 * 3600000 + r mod 3600000 = r" by simp
  ultimately show ?thesis by linarith
qed

text \<open>
  C31. \<open>toISOString\<close>, as the health route sends it (line 25), has the format
  \<open>YYYY-MM-DDTHH:mm:ss.sssZ\<close> for every clock value up to year 9999: fixed-width
  digit fields reading back the civil year, a month in 1..12 and a day in 1..31 that name
  exactly the day of the clock value (counted back by the reference \<open>days_from_civil\<close>),
  and a time of day whose fields are in range and add up to the milliseconds since
  midnight.
\<close>

theorem iso_date_format:
  assumes "civil_from_days (t div 86400000) = (y, mo, d)" and "y \<le> 9999"
  shows "\<exists>ys ms ds hs ns ss fs.
           iso_date t = ys @ ''-'' @ ms @ ''-'' @ ds @ ''T'' @ hs @ '':'' @ ns @ '':'' @ ss @ ''.'' @ fs @ ''Z'' \<and>
           length ys = 4 \<and> length ms = 2 \<and> length ds = 2 \<and> length hs = 2 \<and> length ns = 2 \<and>
           length ss = 2 \<and> length fs = 3 \<and> list_all is_digit (ys @ ms @ ds @ hs @ ns @ ss @ fs) \<and>
           nat_of_digits ys = y \<and> nat_of_digits ms = mo \<and> nat_of_digits ds = d \<and>
           1 \<le> mo \<and> mo \<le> 12 \<and> 1 \<le> d \<and> d \<le> 31 \<and> days_from_civil y mo d = t div 86400000 \<and>
           nat_of_digits hs < 24 \<and> nat_of_digits ns < 60 \<and> nat_of_digits ss < 60 \<and>
           nat_of_digits hs * 3600000 + nat_of_digits ns * 60000 + nat_of_digits ss * 1000 + nat_of_digits fs =
             t mod 86400000"
proof -
  define r where "r = t mod 86400000"
  have b: "1 \<le> mo \<and> mo \<le> 12 \<and> 1 \<le> d \<and> d \<le> 31" by (rule civil_from_days_bounds [OF assms(1)])
  have "r < 86400000" by (simp add: r_def)
  then have h: "r div 3600000 < 24" using less_mult_imp_div_less [of r 24 3600000] by simp
  have "r mod 3600000 < 60 * 60000" by simp
  then have n: "r mod 3600000 div 60000 < 60" by (rule less_mult_imp_div_less)
  have "r mod 60000 < 60 * 1000" by simp
  then have s: "r mod 60000 div 1000 < 60" by (rule less_mult_imp_div_less)
  have py: "length (pad_digits 4 y) = 4 \<and> list_all is_digit (pad_digits 4 y) \<and> nat_of_digits (pad_digits 4 y) = y"
    using assms(2) by (intro pad_digits_props) simp_all
  have pm: "length (pad_digits 2 mo) = 2 \<and> list_all is_digit (pad_digits 2 mo) \<and> nat_of_digits (pad_digits 2 mo) = mo"
    using b by (intro pad_digits_props) simp_all
  have pd: "length (pad_digits 2 d) = 2 \<and> list_all is_digit (pad_digits 2 d) \<and> nat_of_digits (pad_digits 2 d) = d"
    using b by (intro pad_digits_props) simp_all
  have ph: "length (pad_digits 2 (r div 3600000)) = 2 \<and> list_all is_digit (pad_digits 2 (r div 3600000)) \<and>
      nat_of_digits (pad_digits 2 (r div 3600000)) = r div 3600000"
    using h by (intro pad_digits_props) simp_all
  have pn: "length (pad_digits 2 (r mod 3600000 div 60000)) = 2 \<and>
      list_all is_digit (pad_digits 2 (r mod 3600000 div 60000)) \<and>
      nat_of_digits (pad_digits 2 (r mod 3600000 div 60000)) = r mod 3600000 div 60000"
    using n by (intro pad_digits_props) simp_all
  have ps: "length (pad_digits 2 (r mod 60000 div 1000)) = 2 \<and>
      list_all is_digit (pad_digits 2 (r mod 60000 div 1000)) \<and>
      nat_of_digits (pad_digits 2 (r mod 60000 div 1000)) = r mod 60000 div 1000"
    using s by (intro pad_digits_props) simp_all
  have pf: "length (pad_digits 3 (r mod 1000)) = 3 \<and> list_all is_digit (pad_digits 3 (r mod 1000)) \<and>
      nat_of_digits (pad_digits 3 (r mod 1000)) = r mod 1000"
    by (intro pad_digits_props) simp_all
  have eq: "iso_date t = pad_digits 4 y @ ''-'' @ pad_digits 2 mo @ ''-'' @ pad_digits 2 d @ ''T'' @
      pad_digits 2 (r div 3600000) @ '':'' @ pad_digits 2 (r mod 3600000 div 60000) @ '':'' @
      pad_digits 2 (r mod 60000 div 1000) @ ''.'' @ pad_digits 3 (r mod 1000) @ ''Z''"
    unfolding iso_date_def Let_def r_def [symmetric] using assms by simp
  have d1: "list_all is_digit (pad_digits 4 y @ pad_digits 2 mo @ pad_digits 2 d @ pad_digits 2 (r div 3600000) @
      pad_digits 2 (r mod 3600000 div 60000) @ pad_digits 2 (r mod 60000 div 1000) @ pad_digits 3 (r mod 1000))"
    using py pm pd ph pn ps pf by simp
  have d2: "nat_of_digits (pad_digits 2 (r div 3600000)) * 3600000 +
      nat_of_digits (pad_digits 2 (r mod 3600000 div 60000)) * 60000 +
      nat_of_digits (pad_digits 2 (r mod 60000 div 1000)) * 1000 + nat_of_digits (pad_digits 3 (r mod 1000)) = r"
    using ph pn ps pf day_time_split [of r] by (simp only:)
  show ?thesis
    unfolding r_def [symmetric]
    apply (intro exI conjI)
                        apply (rule eq)
    using py pm pd ph pn ps pf b h n s d1 d2 civil_from_days_inverse [OF assms(1)] by (simp_all only: simp_thms)
qed


theorem iso_date_format_witness:
  "civil_from_days (1700000000000 div 86400000) = (2023, 11, 14) \<and>
   (\<exists>ys ms ds rest. iso_date 1700000000000 = ys @ ''-'' @ ms @ ''-'' @ ds @ rest \<and>
      nat_of_digits ys = 2023 \<and> nat_of_digits ms = 11 \<and> nat_of_digits ds = 14)"
proof -
  have c: "civil_from_days (1700000000000 div 86400000) = (2023, 11, 14)"
    by (simp add: civil_from_days_def Let_def)
  have y: "2023 \<le> (9999::nat)" by simp
  from iso_date_format [OF c y] obtain ys ms ds hs ns ss fs where
    e: "iso_date 1700000000000 = ys @ ''-'' @ ms @ ''-'' @ ds @ ''T'' @ hs @ '':'' @ ns @ '':'' @ ss @ ''.'' @ fs @ ''Z''"
    and v: "nat_of_digits ys = 2023" "nat_of_digits ms = 11" "nat_of_digits ds = 14"
    by blast
  show ?thesis using c e v by blast
qed

end
