(* ===== verification/ObjectId.thy ===== *)
theory ObjectId
  imports Prelude
begin

text \<open>
  MongoDB object identifiers, the \<open>_id\<close> every weather document gets: twelve bytes,
  written as 24 lower-case hex digits in JSON (\<open>toHexString\<close>), read back from the
  \<open>:id\<close> path parameter by Mongoose's cast (the bson \<open>ObjectId\<close> constructor), and
  generated when a document is constructed (bson's \<open>ObjectId.generate\<close>: four bytes of
  seconds, five bytes drawn once per process, a three-byte counter).
\<close>

datatype objectid = ObjectId "byte list"

fun oid_bytes :: "objectid \<Rightarrow> byte list" where
  "oid_bytes (ObjectId bs) = bs"

definition wf_oid :: "objectid \<Rightarrow> bool" where
  "wf_oid oid \<longleftrightarrow> length (oid_bytes oid) = 12"

section \<open>Hex rendering and parsing\<close>

definition hex_char :: "nat \<Rightarrow> char" where
  "hex_char d = ''0123456789abcdef'' ! d"

definition byte_hex :: "byte \<Rightarrow> string" where
  "byte_hex b = [hex_char (unat b div 16), hex_char (unat b mod 16)]"

text \<open>\<open>ObjectId.prototype.toHexString\<close>, which \<open>toJSON\<close> calls.\<close>

definition oid_to_hex :: "objectid \<Rightarrow> string" where
  "oid_to_hex oid = concat (map byte_hex (oid_bytes oid))"

definition hex_value :: "char \<Rightarrow> nat option" where
  "hex_value c =
     (let n = of_char c :: nat in
      if 48 \<le> n \<and> n \<le> 57 then Some (n - 48)
      else if 97 \<le> n \<and> n \<le> 102 then Some (n - 87)
      else if 65 \<le> n \<and> n \<le> 70 then Some (n - 55)
      else None)"

text \<open>\<open>Buffer.from(s, 'hex')\<close> on a string of hex digit pairs.\<close>

fun hex_to_bytes :: "string \<Rightarrow> byte list option" where
  "hex_to_bytes [] = Some []"
| "hex_to_bytes [c] = None"
| "hex_to_bytes (h # l # r) =
     (case (hex_value h, hex_value l, hex_to_bytes r) of
        (Some a, Some b, Some bs) \<Rightarrow> Some (word_of_nat (16 * a + b) # bs)
      | _ \<Rightarrow> None)"

section \<open>The cast of a path parameter\<close>

text \<open>
  \<open>Weather.findById(id)\<close> and \<open>findByIdAndDelete(id)\<close> cast the string \<open>id\<close> with
  \<open>new ObjectId(id)\<close> (bson 4, as used by Mongoose 6): a string of length 12 is
  taken as its UTF-8 bytes when these are twelve (so every character is ASCII); a
  string of length 24 matching \<open>/^[0-9a-fA-F]{24}$/\<close> is decoded as hex; anything
  else throws, which Mongoose reports as a \<open>CastError\<close> (\<open>None\<close> here).
  Characters are Latin-1 code units, so a character of code 128 or more is two bytes
  in UTF-8.
\<close>

definition cast_objectid :: "string \<Rightarrow> objectid option" where
  "cast_objectid s =
     (if length s = 12 then
        (if list_all (\<lambda>c. of_char c < (128::nat)) s
         then Some (ObjectId (map (\<lambda>c. word_of_nat (of_char c)) s)) else None)
      else if length s = 24 \<and> list_all (\<lambda>c. hex_value c \<noteq> None) s
      then map_option ObjectId (hex_to_bytes s)
      else None)"

section \<open>Generation\<close>

text \<open>
  bson keeps two pieces of process state: \<open>ObjectId.index\<close>, a counter advanced by
  \<open>(index + 1) % 0xffffff\<close> before each use, and \<open>PROCESS_UNIQUE\<close>, five random
  bytes. \<open>ObjectId.generate(time)\<close> lays out the time in seconds as a big-endian
  32-bit value (\<open>setUint32\<close>, so modulo \<open>2^32\<close>), the five process bytes, and the
  counter's low three bytes, big-endian.
\<close>

record oid_gen =
  oid_index :: nat
  oid_process :: "byte list"

definition oid_counter_mod :: nat where
  "oid_counter_mod = 16777215"

definition wf_gen :: "oid_gen \<Rightarrow> bool" where
  "wf_gen g \<longleftrightarrow> oid_index g < oid_counter_mod \<and> length (oid_process g) = 5"

fun be_bytes :: "nat \<Rightarrow> nat \<Rightarrow> byte list" where
  "be_bytes 0 x = []"
| "be_bytes (Suc n) x = be_bytes n (x div 256) @ [word_of_nat x]"

definition objectid_generate :: "nat \<Rightarrow> oid_gen \<Rightarrow> objectid \<times> oid_gen" where
  "objectid_generate secs g =
     (let inc = (oid_index g + 1) mod oid_counter_mod in
      (ObjectId (be_bytes 4 secs @ oid_process g @ be_bytes 3 inc), g\<lparr>oid_index := inc\<rparr>))"

text \<open>Generating one identifier per time stamp of a list, threading the generator.\<close>

fun generate_all :: "nat list \<Rightarrow> oid_gen \<Rightarrow> objectid list \<times> oid_gen" where
  "generate_all [] g = ([], g)"
| "generate_all (t # ts) g =
     (let (oid, g') = objectid_generate t g; (oids, g'') = generate_all ts g' in (oid # oids, g''))"

text \<open>Reading a hex digit back in lower case, as \<open>toHexString\<close> writes it.\<close>

definition hex_lower :: "char \<Rightarrow> char" where
  "hex_lower c = (if (65::nat) \<le> of_char c \<and> (of_char c :: nat) \<le> 70 then char_of (of_char c + (32::nat)) else c)"

text \<open>The big-endian value of a byte string, the inverse of \<open>be_bytes\<close>.\<close>

definition be_nat :: "byte list \<Rightarrow> nat" where
  "be_nat bs = foldl (\<lambda>a b. 256 * a + unat b) 0 bs"

section \<open>Properties\<close>

subsection \<open>The hex codec\<close>

lemma byte_nibbles_lt: "unat (b::byte) div 16 < 16" "unat b mod 16 < 16"
  by (auto simp: less_mult_imp_div_less)

lemma of_char_hex_char: "d < 16 \<Longrightarrow> of_char (hex_char d) = (if d < 10 then 48 + d else 87 + d)"
  by (drule less_16_cases) (elim disjE; simp add: hex_char_def)

lemma hex_value_hex_char: "d < 16 \<Longrightarrow> hex_value (hex_char d) = Some d"
  by (simp add: hex_value_def of_char_hex_char Let_def)

lemma hex_value_Some: "hex_value c = Some a \<Longrightarrow> a < 16 \<and> hex_char a = hex_lower c"
proof -
  assume h: "hex_value c = Some a"
  have lt: "a < 16" using h by (auto simp: hex_value_def Let_def split: if_splits)
  have "of_char (hex_char a) = (of_char (hex_lower c) :: nat)"
    using h of_char_hex_char [OF lt]
    by (auto simp: hex_value_def hex_lower_def Let_def split: if_splits)
  with lt show ?thesis by simp
qed

lemma byte_hex_decode: "hex_to_bytes (byte_hex b @ r) = map_option ((#) b) (hex_to_bytes r)"
proof -
  have "word_of_nat (16 * (unat b div 16) + unat b mod 16) = b"
    by simp
  then show ?thesis
    by (simp add: byte_hex_def hex_value_hex_char byte_nibbles_lt split: option.splits)
qed

lemma hex_to_bytes_oid_hex: "hex_to_bytes (concat (map byte_hex bs)) = Some bs"
  by (induction bs) (simp_all add: byte_hex_decode)

lemma length_oid_to_hex: "length (oid_to_hex oid) = 2 * length (oid_bytes oid)"
proof -
  have "\<And>bs. length (concat (map byte_hex bs)) = 2 * length bs"
    by (induct_tac bs) (auto simp: byte_hex_def)
  then show ?thesis by (simp add: oid_to_hex_def)
qed

lemma hex_value_oid_hex: "list_all (\<lambda>c. hex_value c \<noteq> None) (oid_to_hex oid)"
proof -
  have "\<And>b. list_all (\<lambda>c. hex_value c \<noteq> None) (byte_hex b)"
    by (simp add: byte_hex_def hex_value_hex_char byte_nibbles_lt)
  then show ?thesis by (simp add: oid_to_hex_def list_all_iff)
qed

lemma cast_oid_to_hex: "wf_oid oid \<Longrightarrow> cast_objectid (oid_to_hex oid) = Some oid"
proof -
  assume "wf_oid oid"
  then have len: "length (oid_to_hex oid) = 24"
    by (simp add: wf_oid_def length_oid_to_hex)
  have dec: "hex_to_bytes (oid_to_hex oid) = Some (oid_bytes oid)"
    by (simp add: oid_to_hex_def hex_to_bytes_oid_hex)
  show ?thesis
    using len dec hex_value_oid_hex [of oid] by (cases oid) (simp add: cast_objectid_def)
qed

lemma hex_to_bytes_lower: "hex_to_bytes s = Some bs \<Longrightarrow> concat (map byte_hex bs) = map hex_lower s"
proof (induction s arbitrary: bs rule: hex_to_bytes.induct)
  case 1 then show ?case by simp
next
  case (2 c) then show ?case by simp
next
  case (3 h l r)
  then obtain a b bs' where a: "hex_value h = Some a" and b: "hex_value l = Some b"
    and r: "hex_to_bytes r = Some bs'" and bs: "bs = word_of_nat (16 * a + b) # bs'"
    by (auto split: option.splits)
  from a b have "a < 16" "b < 16" "hex_char a = hex_lower h" "hex_char b = hex_lower l"
    using hex_value_Some by blast+
  moreover have "unat (word_of_nat (16 * a + b) :: byte) = 16 * a + b"
    using \<open>a < 16\<close> \<open>b < 16\<close> by (intro unat_byte_of_nat) simp
  then have "byte_hex (word_of_nat (16 * a + b)) = [hex_char a, hex_char b]"
    using \<open>a < 16\<close> \<open>b < 16\<close> by (simp only: byte_hex_def) simp
  ultimately show ?case using "3.IH" [OF r] bs by simp
qed

text \<open>
  C10. Reading an identifier back: when the \<open>:id\<close> parameter is 24 characters long and
  Mongoose casts it to an identifier, that identifier's JSON form (\<open>toHexString\<close>) is
  the parameter in lower case. So the \<open>id\<close> a DELETE answers with is the requested one,
  up to the case of its hex digits.
\<close>

theorem oid_to_hex_cast:
  "length s = 24 \<Longrightarrow> cast_objectid s = Some oid \<Longrightarrow> oid_to_hex oid = map hex_lower s"
  by (auto simp: cast_objectid_def oid_to_hex_def split: if_splits dest: hex_to_bytes_lower)

theorem oid_to_hex_cast_witness:
  "cast_objectid ''507F1F77bcf86cd799439011'' =
     Some (ObjectId [80, 127, 31, 119, 188, 248, 108, 215, 153, 67, 144, 17]) \<and>
   oid_to_hex (ObjectId [80, 127, 31, 119, 188, 248, 108, 215, 153, 67, 144, 17]) =
     map hex_lower ''507F1F77bcf86cd799439011''"
proof -
  have c: "cast_objectid ''507F1F77bcf86cd799439011'' =
      Some (ObjectId [80, 127, 31, 119, 188, 248, 108, 215, 153, 67, 144, 17])"
    by (simp add: cast_objectid_def hex_value_def)
  show ?thesis using c oid_to_hex_cast [OF _ c] by simp
qed

subsection \<open>Big-endian bytes\<close>

lemma be_nat_snoc: "be_nat (bs @ [b]) = 256 * be_nat bs + unat b"
  by (simp add: be_nat_def)

lemma be_nat_be_bytes: "be_nat (be_bytes n x) = x mod 256 ^ n"
proof (induction n arbitrary: x)
  case 0
  show ?case by (simp add: be_nat_def)
next
  case (Suc n)
  have "be_nat (be_bytes (Suc n) x) = 256 * (x div 256 mod 256 ^ n) + x mod 256"
    by (simp only: be_bytes.simps be_nat_snoc Suc.IH unat_byte_of_nat_mod)
  also have "\<dots> = x mod 256 ^ Suc n"
    by (simp add: mod_mult2_eq)
  finally show ?case .
qed

lemma length_be_bytes [simp]: "length (be_bytes n x) = n"
  by (induction n arbitrary: x) auto

lemma be_bytes_inj:
  assumes "x < 256 ^ n" and "y < 256 ^ n" and "be_bytes n x = be_bytes n y"
  shows "x = y"
proof -
  have "x mod 256 ^ n = y mod 256 ^ n"
    using assms(3) by (metis be_nat_be_bytes)
  with assms(1,2) show ?thesis by simp
qed

subsection \<open>Generation\<close>

lemma objectid_generate_wf:
  assumes "wf_gen g"
  shows "wf_oid (fst (objectid_generate t g)) \<and> wf_gen (snd (objectid_generate t g))"
  using assms by (simp add: objectid_generate_def wf_oid_def wf_gen_def Let_def)

lemma generate_all_Cons:
  "generate_all (t # ts) g =
     (fst (objectid_generate t g) # fst (generate_all ts (snd (objectid_generate t g))),
      snd (generate_all ts (snd (objectid_generate t g))))"
  by (simp add: split_def Let_def)

declare generate_all.simps(2) [simp del]

lemma generate_all_length: "length (fst (generate_all ts g)) = length ts"
  by (induction ts arbitrary: g) (simp_all add: generate_all_Cons)

lemma generate_all_nth:
  "k < length ts \<Longrightarrow> fst (generate_all ts g) ! k =
     ObjectId (be_bytes 4 (ts ! k) @ oid_process g @ be_bytes 3 ((oid_index g + Suc k) mod oid_counter_mod))"
proof (induction ts arbitrary: g k)
  case Nil
  then show ?case by simp
next
  case (Cons t ts)
  show ?case
  proof (cases k)
    case 0
    then show ?thesis by (simp add: generate_all_Cons objectid_generate_def Let_def)
  next
    case (Suc j)
    let ?g' = "g\<lparr>oid_index := (oid_index g + 1) mod oid_counter_mod\<rparr>"
    have j: "j < length ts" using Cons.prems Suc by simp
    have "((oid_index g + 1) mod oid_counter_mod + Suc j) mod oid_counter_mod
          = (oid_index g + 1 + Suc j) mod oid_counter_mod"
      by (rule mod_add_left_eq)
    then have "(oid_index ?g' + Suc j) mod oid_counter_mod = (oid_index g + Suc k) mod oid_counter_mod"
      using Suc by simp
    then show ?thesis
      using Cons.IH [OF j, of ?g'] Suc by (simp add: generate_all_Cons objectid_generate_def Let_def)
  qed
qed

lemma counter_bytes_inj:
  assumes "be_bytes 3 (x mod oid_counter_mod) = be_bytes 3 (y mod oid_counter_mod)"
  shows "x mod oid_counter_mod = y mod oid_counter_mod"
proof (rule be_bytes_inj [OF _ _ assms])
  have "oid_counter_mod \<le> 256 ^ 3" by (simp add: oid_counter_mod_def)
  then show "x mod oid_counter_mod < 256 ^ 3" "y mod oid_counter_mod < 256 ^ 3"
    by (simp_all add: oid_counter_mod_def)
qed

text \<open>
  C11. Uniqueness of generated identifiers, within its bound: any run of at most
  \<open>0xffffff\<close> consecutive generations, whatever the clock reads at each, yields pairwise
  distinct identifiers, because their counters differ.
\<close>

theorem generate_all_distinct:
  assumes "length ts \<le> oid_counter_mod"
  shows "distinct (fst (generate_all ts g))"
proof (rule distinct_conv_nth [THEN iffD2], intro allI impI)
  fix i j
  assume i: "i < length (fst (generate_all ts g))" and j: "j < length (fst (generate_all ts g))"
    and ij: "i \<noteq> j"
  let ?x = "oid_index g + 1"
  show "fst (generate_all ts g) ! i \<noteq> fst (generate_all ts g) ! j"
  proof
    assume "fst (generate_all ts g) ! i = fst (generate_all ts g) ! j"
    with i j have "be_bytes 3 ((?x + i) mod oid_counter_mod) = be_bytes 3 ((?x + j) mod oid_counter_mod)"
      by (simp add: generate_all_nth generate_all_length)
    then have "(?x + i) mod oid_counter_mod = (?x + j) mod oid_counter_mod"
      by (rule counter_bytes_inj)
    moreover have "i < oid_counter_mod" "j < oid_counter_mod"
      using i j assms by (simp_all add: generate_all_length)
    ultimately have "i = j" by (metis mod_shift_inj)
    with ij show False ..
  qed
qed

theorem generate_all_distinct_witness:
  "distinct (fst (generate_all [0, 0, 0] \<lparr>oid_index = 0, oid_process = [1, 2, 3, 4, 5]\<rparr>))"
  by (rule generate_all_distinct) (simp add: oid_counter_mod_def)

text \<open>
  C12. The bound is exact: \<open>0xffffff + 1\<close> generations within one second produce the
  same identifier twice, because the counter runs modulo \<open>0xffffff\<close>. Uniqueness of
  \<open>_id\<close> "across all records ever inserted" therefore rests on the database's unique
  index, which rejects the second insert.
\<close>

theorem generate_same_second_collides:
  "\<not> distinct (fst (generate_all (replicate (Suc oid_counter_mod) t) g))"
proof
  let ?ids = "fst (generate_all (replicate (Suc oid_counter_mod) t) g)"
  assume d: "distinct ?ids"
  have "oid_index g + Suc oid_counter_mod = (oid_index g + Suc 0) + oid_counter_mod"
    by simp
  then have "(oid_index g + Suc oid_counter_mod) mod oid_counter_mod = (oid_index g + Suc 0) mod oid_counter_mod"
    by (simp only: mod_add_self2)
  moreover have "replicate (Suc oid_counter_mod) t ! oid_counter_mod = t"
    by (simp only: nth_replicate lessI)
  ultimately have eq: "?ids ! 0 = ?ids ! oid_counter_mod"
    by (simp add: generate_all_nth del: replicate_Suc)
  have len: "oid_counter_mod < length ?ids" "0 < length ?ids"
    by (simp_all only: generate_all_length length_replicate)
  have "oid_counter_mod \<noteq> 0"
    by (simp add: oid_counter_mod_def)
  with nth_eq_iff_index_eq [OF d len(2) len(1)] eq show False
    by simp
qed

end
