(* ===== verification/Weather.thy ===== *)
theory Weather
  imports Json ObjectId
begin

text \<open>
  The Mongoose model of \<open>src/weather.js\<close>: a document with the paths \<open>city\<close>
  (required String), \<open>country\<close> (String), \<open>temperature\<close> (required Number),
  \<open>description\<close> (String), \<open>recordedAt\<close> (Date, default \<open>Date.now\<close>) and the
  automatic \<open>_id\<close> and \<open>__v\<close>. Constructing a document (\<open>new Weather({...})\<close>,
  \<open>src/index.js\<close> line 37) generates the \<open>_id\<close>, applies the default and casts
  every given value to its path's type; a cast that fails leaves the path unset and
  records a cast error. Validation, run by \<open>save()\<close>, reports these cast errors and
  the required paths that are missing. \<open>toJSON\<close> is what \<open>res.json\<close> sends.
\<close>

section \<open>Documents\<close>

text \<open>A path of a document holds nothing (\<open>undefined\<close>), \<open>null\<close>, or a value of its type.\<close>

datatype 'a path_value = Unset | Null | Value 'a

record weather =
  doc_id :: objectid
  city :: "string path_value"
  country :: "string path_value"
  temperature :: "jnum path_value"
  description :: "string path_value"
  recordedAt :: millis
  doc_v :: "nat option"

datatype validation_error = CastError string | RequiredError string

fun error_path :: "validation_error \<Rightarrow> string" where
  "error_path (CastError p) = p"
| "error_path (RequiredError p) = p"

section \<open>Casts\<close>

text \<open>
  Mongoose's \<open>castString\<close> on a value that is neither \<open>null\<close> nor
  \<open>undefined\<close>: a string is kept; an object whose \<open>_id\<close> is a non-empty string
  gives that string; a value whose \<open>toString\<close> is not \<open>Object.prototype.toString\<close>
  and that is no array gives \<open>toString()\<close> (booleans and numbers); anything else is a
  cast error. A JSON object either inherits \<open>Object.prototype.toString\<close> or has an own
  member \<open>toString\<close> that is no function, so it fails either way.
\<close>

fun cast_string_value :: "jval \<Rightarrow> string option" where
  "cast_string_value (JStr s) = Some s"
| "cast_string_value (JBool b) = Some (if b then ''true'' else ''false'')"
| "cast_string_value (JNum n) = Some (js_number_to_string n)"
| "cast_string_value (JArr xs) = None"
| "cast_string_value (JObj kvs) =
     (case jget (JObj kvs) ''_id'' of
        Some (JStr s) \<Rightarrow> if s \<noteq> [] then Some s else None
      | _ \<Rightarrow> None)"
| "cast_string_value JNull = None"

definition cast_string :: "jval option \<Rightarrow> string path_value option" where
  "cast_string v =
     (case v of
        None \<Rightarrow> Some Unset
      | Some JNull \<Rightarrow> Some Null
      | Some x \<Rightarrow> map_option Value (cast_string_value x))"

text \<open>
  Mongoose's \<open>castNumber\<close>: \<open>null\<close> and the empty string give \<open>null\<close>; strings and
  booleans go through \<open>Number(...)\<close> and must not be NaN; numbers are kept; arrays
  and plain objects fail (\<open>isNaN\<close> of an object, or the final assertion for an
  array). \<open>SchemaNumber.prototype.cast\<close> first replaces a value that has an
  \<open>_id\<close> by that \<open>_id\<close>.
\<close>

fun cast_number_value :: "jval \<Rightarrow> jnum path_value option" where
  "cast_number_value JNull = Some Null"
| "cast_number_value (JStr s) =
     (if s = [] then Some Null else map_option Value (js_string_to_number s))"
| "cast_number_value (JBool b) = Some (Value (JFin (if b then 1 else 0) 0))"
| "cast_number_value (JNum n) = Some (Value n)"
| "cast_number_value (JArr xs) = None"
| "cast_number_value (JObj kvs) = None"

definition cast_number :: "jval option \<Rightarrow> jnum path_value option" where
  "cast_number v =
     (case v of
        None \<Rightarrow> Some Unset
      | Some (JObj kvs) \<Rightarrow>
          (case jget (JObj kvs) ''_id'' of None \<Rightarrow> None | Some x \<Rightarrow> cast_number_value x)
      | Some x \<Rightarrow> cast_number_value x)"

section \<open>Construction\<close>

definition cast_or_unset :: "'a path_value option \<Rightarrow> 'a path_value" where
  "cast_or_unset c = (case c of None \<Rightarrow> Unset | Some p \<Rightarrow> p)"

definition cast_errors :: "string \<Rightarrow> 'a path_value option \<Rightarrow> validation_error list" where
  "cast_errors p c = (if c = None then [CastError p] else [])"

text \<open>
  \<open>new Weather({ city, country, temperature, description })\<close> at time \<open>now\<close>: the
  \<open>_id\<close> is generated from the clock's seconds and the generator (which advances),
  \<open>recordedAt\<close> is \<open>now\<close>, and each of the four values is cast. The result is the
  document, the cast errors it carries, and the new generator.
\<close>

definition new_weather ::
  "millis \<Rightarrow> oid_gen \<Rightarrow> jval option \<Rightarrow> jval option \<Rightarrow> jval option \<Rightarrow> jval option \<Rightarrow>
   (weather \<times> validation_error list) \<times> oid_gen" where
  "new_weather now g ci co te de =
     (let (oid, g') = objectid_generate (now div 1000) g;
          c1 = cast_string ci; c2 = cast_string co; c3 = cast_number te; c4 = cast_string de;
          d = \<lparr>doc_id = oid, city = cast_or_unset c1, country = cast_or_unset c2,
               temperature = cast_or_unset c3, description = cast_or_unset c4,
               recordedAt = now, doc_v = None\<rparr>
      in ((d, cast_errors ''city'' c1 @ cast_errors ''country'' c2 @
               cast_errors ''temperature'' c3 @ cast_errors ''description'' c4), g'))"

section \<open>Validation\<close>

text \<open>
  The \<open>required\<close> validators: a String path needs a non-empty string
  (\<open>checkRequired\<close> tests \<open>typeof v === 'string' && v.length\<close>), a Number path a
  number. A path that already has a cast error is not validated again.
\<close>

fun string_present :: "string path_value \<Rightarrow> bool" where
  "string_present (Value s) = (s \<noteq> [])"
| "string_present _ = False"

fun number_present :: "jnum path_value \<Rightarrow> bool" where
  "number_present (Value n) = True"
| "number_present _ = False"

definition required_errors :: "weather \<Rightarrow> validation_error list" where
  "required_errors d =
     (if string_present (city d) then [] else [RequiredError ''city'']) @
     (if number_present (temperature d) then [] else [RequiredError ''temperature''])"

definition validate_weather :: "weather \<Rightarrow> validation_error list \<Rightarrow> validation_error list" where
  "validate_weather d errs =
     errs @ filter (\<lambda>e. error_path e \<notin> error_path ` set errs) (required_errors d)"

definition valid_weather :: "weather \<Rightarrow> bool" where
  "valid_weather d \<longleftrightarrow> string_present (city d) \<and> number_present (temperature d)"

section \<open>Serialisation\<close>

text \<open>
  \<open>toJSON\<close> of a document: the \<open>_id\<close> as its hex string, each path that is set, the
  date as \<open>toISOString\<close>, and \<open>__v\<close> once saved. \<open>JSON.stringify\<close> writes the
  infinities as \<open>null\<close>. (The order of the members is not significant to a JSON client.)
\<close>

definition num_json :: "jnum \<Rightarrow> jval" where
  "num_json n = (case n of JFin m e \<Rightarrow> JNum n | _ \<Rightarrow> JNull)"

fun path_json :: "string \<Rightarrow> ('a \<Rightarrow> jval) \<Rightarrow> 'a path_value \<Rightarrow> (string \<times> jval) list" where
  "path_json k f Unset = []"
| "path_json k f Null = [(k, JNull)]"
| "path_json k f (Value v) = [(k, f v)]"

definition weather_json :: "weather \<Rightarrow> jval" where
  "weather_json d =
     JObj ([(''_id'', JStr (oid_to_hex (doc_id d)))] @
           path_json ''city'' JStr (city d) @
           path_json ''country'' JStr (country d) @
           path_json ''temperature'' num_json (temperature d) @
           path_json ''description'' JStr (description d) @
           [(''recordedAt'', JStr (iso_date (recordedAt d)))] @
           (case doc_v d of None \<Rightarrow> [] | Some v \<Rightarrow> [(''__v'', JNum (JFin (int v) 0))]))"

section \<open>Properties\<close>

lemma new_weather_fields:
  assumes "new_weather now g ci co te de = ((d, errs), g')"
  shows "doc_id d = fst (objectid_generate (now div 1000) g) \<and> g' = snd (objectid_generate (now div 1000) g)
         \<and> recordedAt d = now \<and> doc_v d = None"
  using assms by (auto simp: new_weather_def Let_def split: prod.splits)

text \<open>A body whose city is a string and whose temperature is a number casts without error.\<close>

lemma new_weather_valid_body:
  assumes "cast_string co = Some co'" and "cast_string de = Some de'"
  shows "new_weather now g (Some (JStr c)) co (Some (JNum n)) de =
           ((\<lparr>doc_id = fst (objectid_generate (now div 1000) g), city = Value c, country = co',
              temperature = Value n, description = de', recordedAt = now, doc_v = None\<rparr>, []),
            snd (objectid_generate (now div 1000) g))"
  using assms by (simp add: new_weather_def Let_def split_def cast_string_def cast_number_def
      cast_or_unset_def cast_errors_def)

lemma new_weather_null_temperature:
  "new_weather now g ci co (Some JNull) de = ((d, errs), g') \<Longrightarrow> temperature d = Null"
  by (auto simp: new_weather_def Let_def cast_number_def cast_or_unset_def split: prod.splits)


text \<open>
  C25. The JSON a valid document is sent as has the shape of the spec's record: an
  \<open>_id\<close> of 24 characters, a non-empty string \<open>city\<close>, and a \<open>temperature\<close> that
  is a number, except that an infinite temperature is sent as \<open>null\<close> (what
  \<open>JSON.stringify\<close> writes for \<open>Infinity\<close>).
\<close>

theorem weather_json_shape:
  assumes "valid_weather d" and "wf_oid (doc_id d)"
  shows "\<exists>h c t. jget (weather_json d) ''_id'' = Some (JStr h) \<and> length h = 24 \<and>
           jget (weather_json d) ''city'' = Some (JStr c) \<and> c \<noteq> [] \<and>
           jget (weather_json d) ''temperature'' = Some t \<and>
           (t = JNull \<longleftrightarrow> temperature d = Value JPosInf \<or> temperature d = Value JNegInf) \<and>
           (t \<noteq> JNull \<longrightarrow> (\<exists>n. t = JNum n))"
proof -
  from assms(1) obtain c n where c: "city d = Value c" "c \<noteq> []" and t: "temperature d = Value n"
    by (cases "city d"; cases "temperature d") (auto simp: valid_weather_def)
  have h: "length (oid_to_hex (doc_id d)) = 24"
    using assms(2) by (simp add: length_oid_to_hex wf_oid_def)
  show ?thesis
    using c t h
    by (cases "country d"; cases "description d"; cases "doc_v d"; cases n)
      (auto simp: weather_json_def num_json_def)
qed

theorem weather_json_shape_witness:
  "valid_weather \<lparr>doc_id = ObjectId (replicate 12 97), city = Value ''Oslo'', country = Unset,
                  temperature = Value (JFin (-3) 0), description = Unset, recordedAt = 0, doc_v = Some 0\<rparr> \<and>
   wf_oid (ObjectId (replicate 12 97)) \<and>
   jget (weather_json \<lparr>doc_id = ObjectId (replicate 12 97), city = Value ''Oslo'', country = Unset,
                  temperature = Value (JFin (-3) 0), description = Unset, recordedAt = 0, doc_v = Some 0\<rparr>)
        ''temperature'' = Some (JNum (JFin (-3) 0))"
proof -
  let ?d = "\<lparr>doc_id = ObjectId (replicate 12 97), city = Value ''Oslo'', country = Unset,
             temperature = Value (JFin (-3) 0), description = Unset, recordedAt = 0, doc_v = Some 0\<rparr>"
  have v: "valid_weather ?d" and w: "wf_oid (doc_id ?d)" by (simp_all add: valid_weather_def wf_oid_def)
  from weather_json_shape [OF v w] have "\<exists>t. jget (weather_json ?d) ''temperature'' = Some t" by blast
  with v w show ?thesis by (simp add: weather_json_def num_json_def)
qed

end
