(* ===== verification/Store.thy ===== *)
theory Store
  imports Weather "HOL-Library.Multiset"
begin

text \<open>
  The MongoDB collection behind the \<open>Weather\<close> model and the five Mongoose calls of
  \<open>src/index.js\<close>: \<open>record.save()\<close> (line 38), \<open>Weather.find().sort({recordedAt:
  -1}).limit(100)\<close> (line 50), \<open>Weather.findById(id)\<close> (line 62),
  \<open>Weather.findByIdAndDelete(id)\<close> (line 75) and \<open>Weather.deleteMany({})\<close> (line 88).
  The collection is the list of its documents in natural (insertion) order; the unique
  index on \<open>_id\<close> rejects a second document with the same identifier. \<open>db_up\<close> says
  whether the server answers; when it does not, every call fails with a store error.
\<close>

section \<open>State and errors\<close>

record store =
  docs :: "weather list"
  db_up :: bool

datatype db_error =
    DbUnavailable
  | DuplicateKey
  | Invalid "validation_error list"
  | IdCastError

definition recent_limit :: nat where
  "recent_limit = 100"

section \<open>Operations\<close>

text \<open>
  \<open>save()\<close> of a new document: validation first (a \<open>ValidationError\<close> rejects the
  promise before the server is contacted), then the insert, which sets \<open>__v\<close> to 0 and
  fails on a duplicate \<open>_id\<close>.
\<close>

definition insert_doc :: "weather \<Rightarrow> store \<Rightarrow> (db_error + weather) \<times> store" where
  "insert_doc d st =
     (if \<not> db_up st then (Inl DbUnavailable, st)
      else if doc_id d \<in> set (map doc_id (docs st)) then (Inl DuplicateKey, st)
      else (let d' = d\<lparr>doc_v := Some 0\<rparr> in (Inr d', st\<lparr>docs := docs st @ [d']\<rparr>)))"

definition save_weather ::
  "weather \<Rightarrow> validation_error list \<Rightarrow> store \<Rightarrow> (db_error + weather) \<times> store" where
  "save_weather d errs st =
     (let es = validate_weather d errs in
      if es \<noteq> [] then (Inl (Invalid es), st) else insert_doc d st)"

text \<open>
  \<open>sort({recordedAt: -1})\<close> orders by descending \<open>recordedAt\<close>. The server does not
  specify the order of documents with equal keys; the model keeps their natural order
  (a stable sort), and \<open>recent_spec\<close> below states what any server order satisfies.
\<close>

definition sort_recent :: "weather list \<Rightarrow> weather list" where
  "sort_recent ds = sort_key (\<lambda>d. - int (recordedAt d)) ds"

definition find_recent :: "store \<Rightarrow> db_error + weather list" where
  "find_recent st =
     (if db_up st then Inr (take recent_limit (sort_recent (docs st))) else Inl DbUnavailable)"

text \<open>The by-id queries cast the id first; a cast failure never reaches the server.\<close>

definition find_by_id :: "string \<Rightarrow> store \<Rightarrow> db_error + weather option" where
  "find_by_id s st =
     (case cast_objectid s of
        None \<Rightarrow> Inl IdCastError
      | Some oid \<Rightarrow>
          if db_up st then Inr (find (\<lambda>d. doc_id d = oid) (docs st)) else Inl DbUnavailable)"

definition find_by_id_and_delete ::
  "string \<Rightarrow> store \<Rightarrow> (db_error + weather option) \<times> store" where
  "find_by_id_and_delete s st =
     (case cast_objectid s of
        None \<Rightarrow> (Inl IdCastError, st)
      | Some oid \<Rightarrow>
          if \<not> db_up st then (Inl DbUnavailable, st)
          else (case find (\<lambda>d. doc_id d = oid) (docs st) of
                  None \<Rightarrow> (Inr None, st)
                | Some d \<Rightarrow> (Inr (Some d), st\<lparr>docs := remove1 d (docs st)\<rparr>)))"

definition delete_many :: "store \<Rightarrow> (db_error + unit) \<times> store" where
  "delete_many st = (if db_up st then (Inr (), st\<lparr>docs := []\<rparr>) else (Inl DbUnavailable, st))"

section \<open>Invariant and abstraction\<close>

text \<open>
  Every stored document has a well-formed identifier, passed validation and was saved
  (\<open>__v = 0\<close>), and no two share an identifier.
\<close>

definition wf_store :: "store \<Rightarrow> bool" where
  "wf_store st \<longleftrightarrow>
     distinct (map doc_id (docs st)) \<and>
     (\<forall>d \<in> set (docs st). wf_oid (doc_id d) \<and> valid_weather d \<and> doc_v d = Some 0)"

text \<open>The collection as the map from identifiers to documents that the spec describes.\<close>

definition store_map :: "store \<Rightarrow> objectid \<rightharpoonup> weather" where
  "store_map st = map_of (map (\<lambda>d. (doc_id d, d)) (docs st))"

text \<open>
  What a listing promises, whatever order the server gives to equal keys: the result is
  ordered by non-increasing \<open>recordedAt\<close>, is a sub-multiset of the collection, has
  \<open>min 100 n\<close> elements, and no document left out is more recent than one listed.
\<close>

definition recent_spec :: "weather list \<Rightarrow> weather list \<Rightarrow> bool" where
  "recent_spec ds res \<longleftrightarrow>
     sorted_wrt (\<lambda>a b. recordedAt b \<le> recordedAt a) res \<and>
     mset res \<subseteq># mset ds \<and>
     length res = min recent_limit (length ds) \<and>
     (\<forall>d \<in># mset ds - mset res. \<forall>r \<in> set res. recordedAt d \<le> recordedAt r)"

section \<open>Properties\<close>

subsection \<open>Listing\<close>

lemma sort_recent_mset: "mset (sort_recent ds) = mset ds"
  by (simp add: sort_recent_def)

lemma sort_recent_sorted: "sorted_wrt (\<lambda>a b. recordedAt b \<le> recordedAt a) (sort_recent ds)"
proof -
  have "sorted (map (\<lambda>d. - int (recordedAt d)) (sort_recent ds))"
    by (simp add: sort_recent_def)
  then show ?thesis
    by (simp add: sorted_map)
qed

lemma recent_spec_take:
  assumes s: "sorted_wrt (\<lambda>a b. recordedAt b \<le> recordedAt a) s" and m: "mset s = mset ds"
  shows "recent_spec ds (take recent_limit s)"
proof -
  let ?t = "take recent_limit s" and ?r = "drop recent_limit s"
  have sorted: "sorted_wrt (\<lambda>a b. recordedAt b \<le> recordedAt a) ?t"
    using s by (rule sorted_wrt_take)
  have split: "mset ds = mset ?t + mset ?r"
    using m by (metis append_take_drop_id mset_append)
  then have sub: "mset ?t \<subseteq># mset ds" by simp
  have len: "length ?t = min recent_limit (length ds)"
    using mset_eq_length [OF m] by simp
  have rest: "mset ds - mset ?t = mset ?r"
    using split by simp
  have top: "\<forall>d \<in> set ?r. \<forall>r \<in> set ?t. recordedAt d \<le> recordedAt r"
    using s by (metis append_take_drop_id sorted_wrt_append)
  show ?thesis
    unfolding recent_spec_def using sorted sub len rest top by simp
qed

theorem find_recent_spec:
  "db_up st \<Longrightarrow> \<exists>res. find_recent st = Inr res \<and> recent_spec (docs st) res"
  by (simp add: find_recent_def recent_spec_take sort_recent_sorted sort_recent_mset)

subsection \<open>The invariant\<close>

lemma validate_weather_Nil: "validate_weather d errs = [] \<longleftrightarrow> errs = [] \<and> valid_weather d"
  by (auto simp: validate_weather_def required_errors_def valid_weather_def)

lemma save_weather_Inr:
  assumes "save_weather d errs st = (Inr d', st')"
  shows "d' = d\<lparr>doc_v := Some 0\<rparr> \<and> errs = [] \<and> valid_weather d \<and> db_up st \<and>
         doc_id d \<notin> set (map doc_id (docs st)) \<and> st' = st\<lparr>docs := docs st @ [d']\<rparr>"
  using assms by (auto simp: save_weather_def insert_doc_def validate_weather_Nil Let_def split: if_splits)

lemma save_weather_invalid:
  "\<not> valid_weather d \<Longrightarrow> save_weather d errs st = (Inl (Invalid (validate_weather d errs)), st)"
  by (auto simp: save_weather_def validate_weather_Nil Let_def)

lemma insert_doc_wf [wf_intros]:
  assumes "wf_store st" and "wf_oid (doc_id d)" and "valid_weather d"
  shows "wf_store (snd (insert_doc d st))"
  using assms by (auto simp: insert_doc_def wf_store_def valid_weather_def Let_def)

lemma save_weather_wf [wf_intros]:
  assumes "wf_store st" and "wf_oid (doc_id d)"
  shows "wf_store (snd (save_weather d errs st))"
  using assms insert_doc_wf [of st d] by (simp add: save_weather_def validate_weather_Nil Let_def)

lemma find_by_id_and_delete_wf [wf_intros]:
  "wf_store st \<Longrightarrow> wf_store (snd (find_by_id_and_delete s st))"
  by (auto simp: find_by_id_and_delete_def wf_store_def distinct_map_remove1
      dest: subsetD [OF set_remove1_subset] split: option.splits)

lemma find_by_id_and_delete_db_up [model_simps]: "db_up (snd (find_by_id_and_delete i s)) = db_up s"
  by (simp add: find_by_id_and_delete_def split: option.splits)

lemma delete_many_wf [wf_intros]: "wf_store st \<Longrightarrow> wf_store (snd (delete_many st))"
  by (simp add: delete_many_def wf_store_def)

subsection \<open>Refinement of the map view\<close>

lemma find_by_id_map:
  "cast_objectid s = Some oid \<Longrightarrow> db_up st \<Longrightarrow> find_by_id s st = Inr (store_map st oid)"
  by (simp add: find_by_id_def store_map_def map_of_keyed_find)

lemma insert_doc_map:
  "insert_doc d st = (Inr d', st') \<Longrightarrow> store_map st' = (store_map st)(doc_id d \<mapsto> d')"
proof -
  assume ins: "insert_doc d st = (Inr d', st')"
  then have "store_map st (doc_id d) = None"
    by (auto simp: insert_doc_def store_map_def map_of_eq_None_iff image_iff split: if_splits)
  with ins show ?thesis
    by (auto simp: insert_doc_def store_map_def Let_def singleton_map_add split: if_splits)
qed

lemma find_by_id_and_delete_map:
  assumes "wf_store st" and "find_by_id_and_delete s st = (Inr (Some d), st')"
  shows "cast_objectid s = Some (doc_id d) \<and> store_map st' = (store_map st)(doc_id d := None)"
  using assms
  by (auto simp: find_by_id_and_delete_def wf_store_def store_map_def map_of_keyed_remove1
      dest: find_Some_in_set split: option.splits if_splits)

lemma delete_many_map: "delete_many st = (Inr u, st') \<Longrightarrow> store_map st' = Map.empty"
  by (auto simp: delete_many_def store_map_def split: if_splits)

end
