(* ===== verification/Api.thy ===== *)
theory Api
  imports Store
begin

text \<open>
  The HTTP layer of \<open>src/index.js\<close>: the six route handlers, each one call into the
  store wrapped in \<open>try\<close>/\<open>catch\<close>, and Express's dispatch of a request to them. The
  handlers keep no state of their own; the state they touch is the collection, the clock
  that \<open>Date.now()\<close> and \<open>new Date()\<close> read, and bson's identifier generator.
\<close>

section \<open>Requests, responses, state\<close>

datatype http_method = GET | HEAD | POST | PUT | PATCH | DELETE | OPTIONS

text \<open>
  A request's path is given as its segments after the leading \<open>/\<close>, already
  percent-decoded (Express decodes route parameters with \<open>decodeURIComponent\<close>); its
  body is what \<open>express.json()\<close> produced.
\<close>

record request =
  req_method :: http_method
  req_path :: "string list"
  req_body :: jval

text \<open>A response's body is JSON; \<open>JNull\<close> stands for an empty body (204, HEAD).\<close>

record response =
  status :: nat
  resp_body :: jval

record app_state =
  db :: store
  clock :: millis
  gen :: oid_gen

definition json_error :: "nat \<Rightarrow> string \<Rightarrow> response" where
  "json_error code msg = \<lparr>status = code, resp_body = JObj [(''error'', JStr msg)]\<rparr>"

definition ok_json :: "jval \<Rightarrow> response" where
  "ok_json v = \<lparr>status = 200, resp_body = v\<rparr>"

section \<open>Handlers\<close>

text \<open>\<open>GET /api/health\<close> (line 25).\<close>

definition get_health :: "app_state \<Rightarrow> response" where
  "get_health st = ok_json (JObj [(''status'', JStr ''ok''), (''time'', JStr (iso_date (clock st)))])"

text \<open>
  \<open>POST /api/weather\<close> (lines 30--44). Destructuring \<open>req.body\<close> (line 32) throws when
  the body is \<open>null\<close> or \<open>undefined\<close> (\<open>JNull\<close> here; \<open>undefined\<close> is what a
  request without a JSON body leaves under body-parser 2), and the \<open>catch\<close> answers 500. The guard is \<open>!city ||
  temperature === undefined\<close>. The document is then constructed (advancing the
  identifier generator whatever happens next) and saved; any rejection of
  \<open>save()\<close> is a 500.
\<close>

definition post_weather :: "jval \<Rightarrow> app_state \<Rightarrow> response \<times> app_state" where
  "post_weather body st =
     (if body = JNull then (json_error 500 ''server error'', st)
      else
        (let ci = jget body ''city''; co = jget body ''country'';
             te = jget body ''temperature''; de = jget body ''description''
         in if \<not> truthy_opt ci \<or> te = None
            then (json_error 400 ''city and temperature are required'', st)
            else
              (let ((d, errs), g') = new_weather (clock st) (gen st) ci co te de;
                   (r, db') = save_weather d errs (db st)
               in (case r of
                     Inl e \<Rightarrow> json_error 500 ''server error''
                   | Inr saved \<Rightarrow> \<lparr>status = 201, resp_body = weather_json saved\<rparr>,
                   st\<lparr>db := db', gen := g'\<rparr>))))"

text \<open>\<open>GET /api/weather\<close> (lines 48--56).\<close>

definition get_weather_list :: "app_state \<Rightarrow> response" where
  "get_weather_list st =
     (case find_recent (db st) of
        Inl e \<Rightarrow> json_error 500 ''server error''
      | Inr ds \<Rightarrow> ok_json (JArr (map weather_json ds)))"

text \<open>
  \<open>GET /api/weather/:id\<close> (lines 60--69): every error of the query, whatever its
  cause, is answered 400 \<open>Invalid id\<close>.
\<close>

definition get_weather_by_id :: "string \<Rightarrow> app_state \<Rightarrow> response" where
  "get_weather_by_id i st =
     (case find_by_id i (db st) of
        Inl e \<Rightarrow> json_error 400 ''Invalid id''
      | Inr None \<Rightarrow> json_error 404 ''Not found''
      | Inr (Some d) \<Rightarrow> ok_json (weather_json d))"

text \<open>\<open>DELETE /api/weather/:id\<close> (lines 73--82).\<close>

definition delete_weather_by_id :: "string \<Rightarrow> app_state \<Rightarrow> response \<times> app_state" where
  "delete_weather_by_id i st =
     (case find_by_id_and_delete i (db st) of
        (Inl e, db') \<Rightarrow> (json_error 400 ''Invalid id'', st\<lparr>db := db'\<rparr>)
      | (Inr None, db') \<Rightarrow> (json_error 404 ''Not found'', st\<lparr>db := db'\<rparr>)
      | (Inr (Some d), db') \<Rightarrow>
          (ok_json (JObj [(''deleted'', JBool True), (''id'', JStr (oid_to_hex (doc_id d)))]),
           st\<lparr>db := db'\<rparr>))"

text \<open>\<open>DELETE /api/weather\<close> (lines 86--94).\<close>

definition delete_all_weather :: "app_state \<Rightarrow> response \<times> app_state" where
  "delete_all_weather st =
     (case delete_many (db st) of
        (Inl e, db') \<Rightarrow> (json_error 500 ''server error'', st\<lparr>db := db'\<rparr>)
      | (Inr u, db') \<Rightarrow> (ok_json (JObj [(''deletedAll'', JBool True)]), st\<lparr>db := db'\<rparr>))"

section \<open>Routing\<close>

text \<open>
  Express compiles a route path into a case-insensitive regular expression that allows
  one trailing slash; a parameter matches one non-empty segment.
\<close>

datatype seg = Lit string | Param

definition ascii_lower :: "char \<Rightarrow> char" where
  "ascii_lower c =
     (if (65::nat) \<le> of_char c \<and> (of_char c :: nat) \<le> 90 then char_of (of_char c + (32::nat)) else c)"

fun match_segs :: "seg list \<Rightarrow> string list \<Rightarrow> string list option" where
  "match_segs [] [] = Some []"
| "match_segs [] [s] = (if s = [] then Some [] else None)"
| "match_segs [] (s # t # ss) = None"
| "match_segs (Lit l # ps) (s # ss) =
     (if map ascii_lower l = map ascii_lower s then match_segs ps ss else None)"
| "match_segs (Param # ps) (s # ss) =
     (if s \<noteq> [] then map_option ((#) s) (match_segs ps ss) else None)"
| "match_segs (p # ps) [] = None"

datatype route = Health | CreateWeather | ListWeather | GetWeather | DeleteWeather | DeleteAllWeather

text \<open>The route table, in the order of registration in \<open>src/index.js\<close>.\<close>

definition routes :: "(http_method \<times> seg list \<times> route) list" where
  "routes =
     [(GET, [Lit ''api'', Lit ''health''], Health),
      (POST, [Lit ''api'', Lit ''weather''], CreateWeather),
      (GET, [Lit ''api'', Lit ''weather''], ListWeather),
      (GET, [Lit ''api'', Lit ''weather'', Param], GetWeather),
      (DELETE, [Lit ''api'', Lit ''weather'', Param], DeleteWeather),
      (DELETE, [Lit ''api'', Lit ''weather''], DeleteAllWeather)]"

text \<open>A \<open>HEAD\<close> request is served by the \<open>GET\<close> route of its path.\<close>

definition route_method :: "http_method \<Rightarrow> http_method" where
  "route_method m = (if m = HEAD then GET else m)"

fun select_route ::
  "(http_method \<times> seg list \<times> route) list \<Rightarrow> http_method \<Rightarrow> string list \<Rightarrow>
   (route \<times> string list) option" where
  "select_route [] m p = None"
| "select_route ((m', pat, rt) # rs) m p =
     (if m' = route_method m then
        (case match_segs pat p of Some ps \<Rightarrow> Some (rt, ps) | None \<Rightarrow> select_route rs m p)
      else select_route rs m p)"

fun run_route :: "route \<Rightarrow> string list \<Rightarrow> jval \<Rightarrow> app_state \<Rightarrow> response \<times> app_state" where
  "run_route Health ps b st = (get_health st, st)"
| "run_route CreateWeather ps b st = post_weather b st"
| "run_route ListWeather ps b st = (get_weather_list st, st)"
| "run_route GetWeather ps b st = (get_weather_by_id (hd ps) st, st)"
| "run_route DeleteWeather ps b st = delete_weather_by_id (hd ps) st"
| "run_route DeleteAllWeather ps b st = delete_all_weather st"

text \<open>
  The whole application for one request. \<open>cors()\<close> (line 16) answers every
  \<open>OPTIONS\<close> request itself with 204. A request that no route matches falls through to
  the static files of \<open>public/\<close> and to Express's own 404, which \<open>Middleware\<close> adds;
  here such a request has no response from the API (\<open>None\<close>). A HEAD response carries
  the status of the GET handler and no body.
\<close>

definition handle_request :: "request \<Rightarrow> app_state \<Rightarrow> response option \<times> app_state" where
  "handle_request r st =
     (if req_method r = OPTIONS then (Some \<lparr>status = 204, resp_body = JNull\<rparr>, st)
      else
        (case select_route routes (req_method r) (req_path r) of
           None \<Rightarrow> (None, st)
         | Some (rt, ps) \<Rightarrow>
             (let (resp, st') = run_route rt ps (req_body r) st
              in (Some (if req_method r = HEAD then resp\<lparr>resp_body := JNull\<rparr> else resp), st'))))"

section \<open>The application invariant\<close>

text \<open>The store invariant, and a generator whose next identifiers are well formed.\<close>

definition wf_app :: "app_state \<Rightarrow> bool" where
  "wf_app st \<longleftrightarrow> wf_store (db st) \<and> wf_gen (gen st)"

section \<open>Sample states\<close>

text \<open>Concrete states the witnesses below evaluate the handlers on.\<close>

abbreviation gen0 :: oid_gen where
  "gen0 \<equiv> \<lparr>oid_index = 0, oid_process = [1, 2, 3, 4, 5]\<rparr>"

abbreviation st_empty :: app_state where
  "st_empty \<equiv> \<lparr>db = \<lparr>docs = [], db_up = True\<rparr>, clock = 0, gen = gen0\<rparr>"

abbreviation paris :: jval where
  "paris \<equiv> JObj [(''city'', JStr ''Paris''), (''temperature'', JNum (JFin 18 0))]"

abbreviation doc_a :: weather where
  "doc_a \<equiv> \<lparr>doc_id = ObjectId (replicate 12 97), city = Value ''Oslo'', country = Unset,
            temperature = Value (JFin (-3) 0), description = Unset, recordedAt = 0, doc_v = Some 0\<rparr>"

abbreviation st_a :: app_state where
  "st_a \<equiv> \<lparr>db = \<lparr>docs = [doc_a], db_up = True\<rparr>, clock = 0, gen = gen0\<rparr>"

section \<open>Properties\<close>

subsection \<open>Effects of the handlers\<close>

lemma json_error_status [simp]: "status (json_error c m) = c"
  by (simp add: json_error_def)

text \<open>
  A POST either changes nothing and is answered 400 or 500, or constructs the document
  and answers as \<open>save()\<close> decides.
\<close>

lemma post_weather_cases:
  assumes "post_weather body st = (r, st')"
  shows "(st' = st \<and> status r \<in> {400, 500}) \<or>
         (\<exists>d errs g'. new_weather (clock st) (gen st) (jget body ''city'') (jget body ''country'')
             (jget body ''temperature'') (jget body ''description'') = ((d, errs), g') \<and>
           st' = st\<lparr>db := snd (save_weather d errs (db st)), gen := g'\<rparr> \<and>
           r = (case fst (save_weather d errs (db st)) of
                  Inl e \<Rightarrow> json_error 500 ''server error''
                | Inr saved \<Rightarrow> \<lparr>status = 201, resp_body = weather_json saved\<rparr>))"
proof -
  obtain d errs g' where nw: "new_weather (clock st) (gen st) (jget body ''city'') (jget body ''country'')
      (jget body ''temperature'') (jget body ''description'') = ((d, errs), g')"
    by (metis prod.exhaust)
  obtain res db' where sv: "save_weather d errs (db st) = (res, db')"
    by (metis prod.exhaust)
  show ?thesis
    using assms nw sv
    by (auto simp: post_weather_def Let_def simp del: not_None_eq split: if_splits sum.splits)
qed

lemma post_weather_wf [wf_intros]: "wf_app st \<Longrightarrow> wf_app (snd (post_weather b st))"
proof -
  assume wf: "wf_app st"
  obtain r st' where p: "post_weather b st = (r, st')" by (metis prod.exhaust)
  from post_weather_cases [OF p] show ?thesis
  proof
    assume "st' = st \<and> status r \<in> {400, 500}"
    with wf p show ?thesis by simp
  next
    assume "\<exists>d errs g'. new_weather (clock st) (gen st) (jget b ''city'') (jget b ''country'')
             (jget b ''temperature'') (jget b ''description'') = ((d, errs), g') \<and>
           st' = st\<lparr>db := snd (save_weather d errs (db st)), gen := g'\<rparr> \<and>
           r = (case fst (save_weather d errs (db st)) of
                  Inl e \<Rightarrow> json_error 500 ''server error''
                | Inr saved \<Rightarrow> \<lparr>status = 201, resp_body = weather_json saved\<rparr>)"
    then obtain d errs g' where nw: "new_weather (clock st) (gen st) (jget b ''city'') (jget b ''country'')
        (jget b ''temperature'') (jget b ''description'') = ((d, errs), g')"
      and s': "st' = st\<lparr>db := snd (save_weather d errs (db st)), gen := g'\<rparr>" by blast
    from wf new_weather_fields [OF nw] objectid_generate_wf
    have "wf_oid (doc_id d)" "wf_gen g'" by (auto simp: wf_app_def)
    with wf save_weather_wf [of "db st" d errs] p s' show ?thesis
      by (simp add: wf_app_def)
  qed
qed

lemma delete_weather_by_id_state [model_simps]:
  "snd (delete_weather_by_id i st) = st\<lparr>db := snd (find_by_id_and_delete i (db st))\<rparr>"
  by (simp add: delete_weather_by_id_def split: prod.splits sum.splits option.splits)

lemma delete_all_weather_state [model_simps]: "snd (delete_all_weather st) = st\<lparr>db := snd (delete_many (db st))\<rparr>"
  by (simp add: delete_all_weather_def split: prod.splits sum.splits)

lemma wf_app_db_update: "wf_app st \<Longrightarrow> (wf_store (db st) \<Longrightarrow> wf_store x) \<Longrightarrow> wf_app (st\<lparr>db := x\<rparr>)"
  by (simp add: wf_app_def)

lemma run_route_wf: "wf_app st \<Longrightarrow> wf_app (snd (run_route rt ps b st))"
  by (cases rt) (simp_all add: wf_intros model_simps wf_app_db_update)

lemma handle_request_state:
  "snd (handle_request r st) =
     (if req_method r = OPTIONS then st
      else case select_route routes (req_method r) (req_path r) of
             None \<Rightarrow> st
           | Some (rt, ps) \<Rightarrow> snd (run_route rt ps (req_body r) st))"
  by (simp add: handle_request_def split: option.splits prod.splits)

text \<open>Once the guard has passed, the answer is decided by \<open>save()\<close> alone.\<close>

lemma post_weather_after_guard:
  assumes "body \<noteq> JNull" and "truthy_opt (jget body ''city'')" and "jget body ''temperature'' = Some t"
    and "new_weather (clock st) (gen st) (jget body ''city'') (jget body ''country'')
           (Some t) (jget body ''description'') = ((d, errs), g')"
  shows "post_weather body st =
           (case fst (save_weather d errs (db st)) of
              Inl e \<Rightarrow> json_error 500 ''server error''
            | Inr saved \<Rightarrow> \<lparr>status = 201, resp_body = weather_json saved\<rparr>,
            st\<lparr>db := snd (save_weather d errs (db st)), gen := g'\<rparr>)"
  using assms by (simp add: post_weather_def Let_def split_def)

lemma post_weather_201:
  assumes "post_weather body st = (r, st')" and "status r = 201"
  shows "\<exists>d. resp_body r = weather_json d \<and> db st' = (db st)\<lparr>docs := docs (db st) @ [d]\<rparr> \<and>
           gen st' = snd (objectid_generate (clock st div 1000) (gen st)) \<and> clock st' = clock st \<and>
           db_up (db st) \<and> doc_id d \<notin> set (map doc_id (docs (db st))) \<and>
           doc_id d = fst (objectid_generate (clock st div 1000) (gen st)) \<and>
           doc_v d = Some 0 \<and> valid_weather d"
proof -
  from post_weather_cases [OF assms(1)] assms(2) obtain d0 errs g' where
    nw: "new_weather (clock st) (gen st) (jget body ''city'') (jget body ''country'')
      (jget body ''temperature'') (jget body ''description'') = ((d0, errs), g')"
    and s': "st' = st\<lparr>db := snd (save_weather d0 errs (db st)), gen := g'\<rparr>"
    and r: "r = (case fst (save_weather d0 errs (db st)) of
                  Inl e \<Rightarrow> json_error 500 ''server error''
                | Inr saved \<Rightarrow> \<lparr>status = 201, resp_body = weather_json saved\<rparr>)"
    by auto
  obtain res db' where sv: "save_weather d0 errs (db st) = (res, db')"
    by (metis prod.exhaust)
  with r assms(2) obtain d' where Inr: "res = Inr d'" and rb: "resp_body r = weather_json d'"
    by (cases res) auto
  with save_weather_Inr [of d0 errs "db st" d' db'] sv s' new_weather_fields [OF nw] rb show ?thesis
    by (intro exI [of _ d']) (auto simp: valid_weather_def)
qed

lemma delete_weather_by_id_200:
  assumes "delete_weather_by_id i st = (r, st')" and "status r = 200"
  shows "\<exists>d. find_by_id_and_delete i (db st) = (Inr (Some d), db st') \<and> st' = st\<lparr>db := db st'\<rparr> \<and>
             resp_body r = JObj [(''deleted'', JBool True), (''id'', JStr (oid_to_hex (doc_id d)))]"
proof -
  obtain res db' where fd: "find_by_id_and_delete i (db st) = (res, db')"
    by (metis prod.exhaust)
  with assms show ?thesis
    by (auto simp: delete_weather_by_id_def ok_json_def split: sum.splits option.splits)
qed

lemma wf_app_st_empty: "wf_app st_empty"
  by (simp add: wf_app_def wf_store_def wf_gen_def oid_counter_mod_def)

lemma wf_app_st_a: "wf_app st_a"
  by (simp add: wf_app_def wf_store_def wf_gen_def oid_counter_mod_def wf_oid_def valid_weather_def)

subsection \<open>Creating a record\<close>

text \<open>
  C1. A POST whose body has no truthy \<open>city\<close> or no \<open>temperature\<close> member is answered
  400 with the message of the code, and changes nothing: no record is stored and no
  identifier is generated.
\<close>

theorem post_weather_missing_fields:
  assumes "body \<noteq> JNull" and "\<not> truthy_opt (jget body ''city'') \<or> jget body ''temperature'' = None"
  shows "post_weather body st = (json_error 400 ''city and temperature are required'', st)"
  using assms by (auto simp: post_weather_def Let_def)

theorem post_weather_missing_fields_witness:
  "post_weather (JObj [(''city'', JStr ''Paris'')]) st_empty =
     (json_error 400 ''city and temperature are required'', st_empty)"
  by (rule post_weather_missing_fields) simp_all

text \<open>
  C2. A POST with a non-empty string \<open>city\<close>, a number \<open>temperature\<close> and optional
  members that cast is answered 201 with the stored document: a fresh identifier from the
  generator, the given values, \<open>recordedAt\<close> the current time and \<open>__v = 0\<close>. The
  document is appended to the collection and the generator advances.
\<close>

theorem post_weather_creates:
  assumes "jget body ''city'' = Some (JStr c)" and "c \<noteq> []" and "jget body ''temperature'' = Some (JNum n)"
    and "cast_string (jget body ''country'') = Some co" and "cast_string (jget body ''description'') = Some de"
    and "db_up (db st)"
    and "fst (objectid_generate (clock st div 1000) (gen st)) \<notin> set (map doc_id (docs (db st)))"
  shows "post_weather body st =
           (let d = \<lparr>doc_id = fst (objectid_generate (clock st div 1000) (gen st)), city = Value c,
                     country = co, temperature = Value n, description = de, recordedAt = clock st,
                     doc_v = Some 0\<rparr>
            in (\<lparr>status = 201, resp_body = weather_json d\<rparr>,
                st\<lparr>db := (db st)\<lparr>docs := docs (db st) @ [d]\<rparr>,
                    gen := snd (objectid_generate (clock st div 1000) (gen st))\<rparr>))"
proof -
  have nn: "body \<noteq> JNull" using assms(1) by auto
  have ci: "truthy_opt (jget body ''city'')" using assms(1,2) by (simp add: truthy_opt_def)
  note nw = new_weather_valid_body [OF assms(4,5), of "clock st" "gen st" c n]
  show ?thesis
    using post_weather_after_guard [OF nn ci assms(3) nw [folded assms(1)]] assms(2,6,7)
    by (simp add: save_weather_def validate_weather_def required_errors_def insert_doc_def Let_def)
qed

theorem post_weather_creates_witness:
  "post_weather paris st_empty =
     (let d = \<lparr>doc_id = fst (objectid_generate 0 gen0), city = Value ''Paris'', country = Unset,
               temperature = Value (JFin 18 0), description = Unset, recordedAt = 0, doc_v = Some 0\<rparr>
      in (\<lparr>status = 201, resp_body = weather_json d\<rparr>,
          st_empty\<lparr>db := \<lparr>docs = [d], db_up = True\<rparr>, gen := snd (objectid_generate 0 gen0)\<rparr>))"
  using post_weather_creates [of paris "''Paris''" "JFin 18 0" Unset Unset st_empty]
  by (simp add: cast_string_def)

text \<open>
  C13. When the identifier the generator produces is already stored (C12 shows this
  happens after \<open>0xffffff\<close> generations within a second), the insert is rejected by
  the unique index and the POST is answered 500; nothing is stored, but the generator
  has advanced.
\<close>

theorem post_weather_duplicate_id:
  assumes "jget body ''city'' = Some (JStr c)" and "c \<noteq> []" and "jget body ''temperature'' = Some (JNum n)"
    and "cast_string (jget body ''country'') = Some co" and "cast_string (jget body ''description'') = Some de"
    and "fst (objectid_generate (clock st div 1000) (gen st)) \<in> set (map doc_id (docs (db st)))"
  shows "post_weather body st =
           (json_error 500 ''server error'', st\<lparr>gen := snd (objectid_generate (clock st div 1000) (gen st))\<rparr>)"
proof -
  have nn: "body \<noteq> JNull" using assms(1) by auto
  have ci: "truthy_opt (jget body ''city'')" using assms(1,2) by (simp add: truthy_opt_def)
  note nw = new_weather_valid_body [OF assms(4,5), of "clock st" "gen st" c n]
  show ?thesis
    using post_weather_after_guard [OF nn ci assms(3) nw [folded assms(1)]] assms(2,6)
    by (simp add: save_weather_def validate_weather_def required_errors_def insert_doc_def Let_def)
qed

theorem post_weather_duplicate_id_witness:
  "post_weather paris (st_empty\<lparr>db := \<lparr>docs = [doc_a\<lparr>doc_id := fst (objectid_generate 0 gen0)\<rparr>], db_up = True\<rparr>\<rparr>) =
     (json_error 500 ''server error'',
      st_empty\<lparr>db := \<lparr>docs = [doc_a\<lparr>doc_id := fst (objectid_generate 0 gen0)\<rparr>], db_up = True\<rparr>,
               gen := snd (objectid_generate 0 gen0)\<rparr>)"
  using post_weather_duplicate_id [of paris "''Paris''" "JFin 18 0" Unset Unset
      "st_empty\<lparr>db := \<lparr>docs = [doc_a\<lparr>doc_id := fst (objectid_generate 0 gen0)\<rparr>], db_up = True\<rparr>\<rparr>"]
  by (simp add: cast_string_def)

text \<open>
  C15. A \<open>temperature\<close> of \<open>null\<close> passes the handler's check
  (\<open>temperature === undefined\<close> is false) and is cast to \<open>null\<close>, so the
  \<open>required\<close> validator rejects the document and the POST is answered 500, not 400;
  nothing is stored, and the generator has advanced.
\<close>

theorem post_weather_null_temperature:
  assumes "truthy_opt (jget body ''city'')" and "jget body ''temperature'' = Some JNull"
  shows "post_weather body st =
           (json_error 500 ''server error'', st\<lparr>gen := snd (objectid_generate (clock st div 1000) (gen st))\<rparr>)"
proof -
  have nn: "body \<noteq> JNull" using assms(2) by auto
  obtain d errs g' where nw: "new_weather (clock st) (gen st) (jget body ''city'') (jget body ''country'')
      (Some JNull) (jget body ''description'') = ((d, errs), g')"
    by (metis prod.exhaust)
  then have "\<not> valid_weather d"
    by (simp add: valid_weather_def new_weather_null_temperature)
  with post_weather_after_guard [OF nn assms(1) assms(2) nw] new_weather_fields [OF nw] show ?thesis
    by (simp add: save_weather_invalid)
qed

theorem post_weather_null_temperature_witness:
  "post_weather (JObj [(''city'', JStr ''Paris''), (''temperature'', JNull)]) st_empty =
     (json_error 500 ''server error'', st_empty\<lparr>gen := \<lparr>oid_index = 1, oid_process = [1, 2, 3, 4, 5]\<rparr>\<rparr>)"
  using post_weather_null_temperature [of "JObj [(''city'', JStr ''Paris''), (''temperature'', JNull)]" st_empty]
  by (simp add: truthy_opt_def objectid_generate_def oid_counter_mod_def)

subsection \<open>The invariant\<close>

text \<open>
  C3. Every request, whatever its method, path and body, keeps the application
  invariant: stored documents have distinct well-formed identifiers, passed validation
  and were saved, and the generator's counter stays below \<open>0xffffff\<close>.
\<close>

theorem handle_request_wf: "wf_app st \<Longrightarrow> wf_app (snd (handle_request r st))"
  by (simp add: handle_request_state run_route_wf split: option.splits prod.splits)

theorem handle_request_wf_witness:
  "wf_app st_empty \<and>
   wf_app (snd (handle_request \<lparr>req_method = POST, req_path = [''api'', ''weather''], req_body = paris\<rparr> st_empty))"
  using wf_app_st_empty handle_request_wf [OF wf_app_st_empty] by simp

subsection \<open>Reading records\<close>

text \<open>
  C4. While the store answers, \<open>GET /api/weather\<close> returns 200 with a list that meets
  \<open>recent_spec\<close>: newest first by \<open>recordedAt\<close>, at most 100 entries (all of them when
  there are fewer), drawn from the collection, and none left out more recent than one
  listed.
\<close>

theorem get_weather_list_spec:
  assumes "db_up (db st)"
  shows "\<exists>ds. get_weather_list st = ok_json (JArr (map weather_json ds)) \<and> recent_spec (docs (db st)) ds"
  using find_recent_spec [OF assms] by (auto simp: get_weather_list_def)

theorem get_weather_list_spec_witness:
  "db_up (db st_a) \<and>
   (\<exists>ds. get_weather_list st_a = ok_json (JArr (map weather_json ds)) \<and> recent_spec [doc_a] ds)"
  using get_weather_list_spec [of st_a] by simp

text \<open>
  C9. The identifier a client receives addresses its record: for a well-formed
  identifier, \<open>GET /api/weather/<hex>\<close> with its hex form answers 200 with the document
  stored under it, or 404 when there is none.
\<close>

theorem get_weather_by_hex_id:
  assumes "wf_oid oid" and "db_up (db st)"
  shows "get_weather_by_id (oid_to_hex oid) st =
           (case store_map (db st) oid of
              None \<Rightarrow> json_error 404 ''Not found''
            | Some d \<Rightarrow> ok_json (weather_json d))"
  using assms by (simp add: get_weather_by_id_def find_by_id_map cast_oid_to_hex split: option.splits)

theorem get_weather_by_hex_id_witness:
  "get_weather_by_id (oid_to_hex (ObjectId (replicate 12 97))) st_a = ok_json (weather_json doc_a)"
  using get_weather_by_hex_id [of "ObjectId (replicate 12 97)" st_a]
  by (simp add: wf_oid_def store_map_def)

text \<open>
  C14. The by-id routes answer 400 \<open>Invalid id\<close> for every error of their query, so
  when the store does not answer they report an invalid id, whatever the id, where the
  spec asks for a 500 store error.
\<close>

theorem by_id_store_down_invalid_id:
  assumes "\<not> db_up (db st)"
  shows "get_weather_by_id i st = json_error 400 ''Invalid id'' \<and>
         delete_weather_by_id i st = (json_error 400 ''Invalid id'', st)"
  using assms by (simp add: get_weather_by_id_def delete_weather_by_id_def find_by_id_def
      find_by_id_and_delete_def split: option.splits)

theorem by_id_store_down_invalid_id_witness:
  "get_weather_by_id ''507f1f77bcf86cd799439011'' (st_empty\<lparr>db := \<lparr>docs = [], db_up = False\<rparr>\<rparr>) =
     json_error 400 ''Invalid id''"
  using by_id_store_down_invalid_id [of "st_empty\<lparr>db := \<lparr>docs = [], db_up = False\<rparr>\<rparr>"
      "''507f1f77bcf86cd799439011''"]
  by simp

text \<open>
  C16. Any twelve-character ASCII string is a valid identifier for Mongoose (its bytes
  are the identifier), so \<open>GET /api/weather/aaaaaaaaaaaa\<close> is answered 404 when no
  document has that identifier, not 400 \<open>Invalid id\<close>.
\<close>

theorem get_by_id_twelve_chars:
  assumes "length i = 12" and "list_all (\<lambda>c. of_char c < (128::nat)) i" and "db_up (db st)"
    and "store_map (db st) (ObjectId (map (\<lambda>c. word_of_nat (of_char c)) i)) = None"
  shows "get_weather_by_id i st = json_error 404 ''Not found''"
  using assms by (simp add: get_weather_by_id_def find_by_id_map cast_objectid_def)

theorem get_by_id_twelve_chars_witness:
  "get_weather_by_id ''aaaaaaaaaaaa'' st_empty = json_error 404 ''Not found''"
  by (rule get_by_id_twelve_chars) (simp_all add: store_map_def)

subsection \<open>Routing\<close>

text \<open>
  C17. A GET whose path is \<open>/api/weather/<id>\<close>, in any letter case, is served by the
  by-id handler with that id, and leaves the state unchanged.
\<close>

theorem route_get_by_id:
  assumes "map ascii_lower a = ''api''" and "map ascii_lower w = ''weather''" and "i \<noteq> []"
  shows "handle_request \<lparr>req_method = GET, req_path = [a, w, i], req_body = b\<rparr> st =
           (Some (get_weather_by_id i st), st)"
proof -
  have "map ascii_lower ''api'' = ''api''" "map ascii_lower ''weather'' = ''weather''"
    "map ascii_lower ''health'' = ''health''"
    by (simp_all add: ascii_lower_def)
  with assms have "select_route routes GET [a, w, i] = Some (GetWeather, [i])"
    by (simp add: routes_def route_method_def)
  then show ?thesis by (simp add: handle_request_def)
qed

theorem route_get_by_id_witness:
  "handle_request \<lparr>req_method = GET, req_path = [''API'', ''Weather'', ''abc''], req_body = JObj []\<rparr> st_empty =
     (Some (get_weather_by_id ''abc'' st_empty), st_empty)"
  by (rule route_get_by_id) (simp_all add: ascii_lower_def char_of_def bit_0)

subsection \<open>No update endpoint\<close>

text \<open>
  C23. There is no update operation: a \<open>PUT\<close> or \<open>PATCH\<close> request, to any path, gets
  no answer from the API (it falls through to the static files and Express's 404) and
  changes nothing.
\<close>

theorem no_update_endpoint:
  assumes "req_method r = PUT \<or> req_method r = PATCH"
  shows "handle_request r st = (None, st)"
proof -
  have "select_route routes (req_method r) (req_path r) = None"
    using assms by (auto simp: routes_def route_method_def)
  with assms show ?thesis by (auto simp: handle_request_def)
qed

theorem no_update_endpoint_witness:
  "handle_request \<lparr>req_method = PUT, req_path = [''api'', ''weather'', ''aaaaaaaaaaaa''], req_body = paris\<rparr> st_a =
     (None, st_a)"
  by (rule no_update_endpoint) simp

subsection \<open>What the guard lets through\<close>

text \<open>
  C24. The guard tests \<open>city\<close> for truthiness only, and \<open>castString\<close> turns a
  boolean into its name: a POST with \<open>city: true\<close> and a number \<open>temperature\<close> is
  answered 201 with a record whose city is the string \<open>"true"\<close>. The spec's "city:
  string, required, non-empty" is not what the code checks.
\<close>

theorem post_weather_city_true:
  assumes "jget body ''city'' = Some (JBool True)" and "jget body ''temperature'' = Some (JNum n)"
    and "cast_string (jget body ''country'') = Some co" and "cast_string (jget body ''description'') = Some de"
    and "db_up (db st)"
    and "fst (objectid_generate (clock st div 1000) (gen st)) \<notin> set (map doc_id (docs (db st)))"
  shows "fst (post_weather body st) =
           \<lparr>status = 201, resp_body = weather_json
              \<lparr>doc_id = fst (objectid_generate (clock st div 1000) (gen st)), city = Value ''true'',
               country = co, temperature = Value n, description = de, recordedAt = clock st,
               doc_v = Some 0\<rparr>\<rparr>"
proof -
  have nn: "body \<noteq> JNull" using assms(1) by auto
  have ci: "truthy_opt (jget body ''city'')" using assms(1) by (simp add: truthy_opt_def)
  have nw: "new_weather (clock st) (gen st) (Some (JBool True)) (jget body ''country'') (Some (JNum n))
              (jget body ''description'') =
            ((\<lparr>doc_id = fst (objectid_generate (clock st div 1000) (gen st)), city = Value ''true'',
               country = co, temperature = Value n, description = de, recordedAt = clock st, doc_v = None\<rparr>, []),
             snd (objectid_generate (clock st div 1000) (gen st)))"
    using assms(3,4) by (simp add: new_weather_def Let_def split_def cast_string_def cast_number_def
        cast_or_unset_def cast_errors_def)
  show ?thesis
    using post_weather_after_guard [OF nn ci assms(2) nw [folded assms(1)]] assms(5,6)
    by (simp add: save_weather_def validate_weather_def required_errors_def insert_doc_def Let_def)
qed

theorem post_weather_city_true_witness:
  "fst (post_weather (JObj [(''city'', JBool True), (''temperature'', JNum (JFin 18 0))]) st_empty) =
     \<lparr>status = 201, resp_body = weather_json
        \<lparr>doc_id = fst (objectid_generate 0 gen0), city = Value ''true'', country = Unset,
         temperature = Value (JFin 18 0), description = Unset, recordedAt = 0, doc_v = Some 0\<rparr>\<rparr>"
  using post_weather_city_true [of "JObj [(''city'', JBool True), (''temperature'', JNum (JFin 18 0))]"
      "JFin 18 0" Unset Unset st_empty]
  by (simp add: cast_string_def)

text \<open>
  C26. \<open>temperature: "Infinity"\<close> passes every check: \<open>castNumber\<close> gives
  \<open>Number("Infinity")\<close>, which is no NaN, and the \<open>required\<close> validator accepts any
  number. The record is stored and answered 201, but its JSON carries
  \<open>temperature: null\<close>, so a client reads back a record without a numeric temperature.
\<close>

theorem post_weather_infinite_temperature:
  assumes "jget body ''city'' = Some (JStr c)" and "c \<noteq> []"
    and "jget body ''temperature'' = Some (JStr ''Infinity'')"
    and "cast_string (jget body ''country'') = Some co" and "cast_string (jget body ''description'') = Some de"
    and "db_up (db st)"
    and "fst (objectid_generate (clock st div 1000) (gen st)) \<notin> set (map doc_id (docs (db st)))"
  shows "status (fst (post_weather body st)) = 201 \<and>
         jget (resp_body (fst (post_weather body st))) ''temperature'' = Some JNull"
proof -
  have nn: "body \<noteq> JNull" using assms(1) by auto
  have ci: "truthy_opt (jget body ''city'')" using assms(1,2) by (simp add: truthy_opt_def)
  have inf: "cast_number (Some (JStr ''Infinity'')) = Some (Value JPosInf)"
    by (simp add: cast_number_def js_string_to_number_def js_trim_def js_space_def parse_unsigned_decimal_def)
  let ?d = "\<lparr>doc_id = fst (objectid_generate (clock st div 1000) (gen st)), city = Value c,
             country = co, temperature = Value JPosInf, description = de, recordedAt = clock st, doc_v = None\<rparr>"
  have nw: "new_weather (clock st) (gen st) (Some (JStr c)) (jget body ''country'') (Some (JStr ''Infinity''))
              (jget body ''description'') = ((?d, []), snd (objectid_generate (clock st div 1000) (gen st)))"
    using assms(4,5) inf by (simp add: new_weather_def Let_def split_def cast_string_def cast_or_unset_def cast_errors_def)
  have r: "fst (post_weather body st) = \<lparr>status = 201, resp_body = weather_json (?d\<lparr>doc_v := Some 0\<rparr>)\<rparr>"
    using post_weather_after_guard [OF nn ci assms(3) nw [folded assms(1)]] assms(2,6,7)
    by (simp add: save_weather_def validate_weather_def required_errors_def insert_doc_def Let_def)
  show ?thesis
    using r by (cases co; cases de) (simp_all add: weather_json_def num_json_def)
qed

theorem post_weather_infinite_temperature_witness:
  "status (fst (post_weather (JObj [(''city'', JStr ''Oslo''), (''temperature'', JStr ''Infinity'')]) st_empty)) = 201 \<and>
   jget (resp_body (fst (post_weather (JObj [(''city'', JStr ''Oslo''), (''temperature'', JStr ''Infinity'')]) st_empty)))
     ''temperature'' = Some JNull"
  using post_weather_infinite_temperature [of "JObj [(''city'', JStr ''Oslo''), (''temperature'', JStr ''Infinity'')]"
      "''Oslo''" Unset Unset st_empty]
  by (simp add: cast_string_def)

subsection \<open>HEAD requests and store failures\<close>

text \<open>
  C27. When the store does not answer, the listing and the bulk delete are answered 500
  \<open>server error\<close> and change nothing, as the spec's table says (unlike the by-id
  routes, C14).
\<close>

theorem store_down_server_error:
  assumes "\<not> db_up (db st)"
  shows "get_weather_list st = json_error 500 ''server error'' \<and>
         delete_all_weather st = (json_error 500 ''server error'', st)"
  using assms by (simp add: get_weather_list_def find_recent_def delete_all_weather_def delete_many_def)

theorem store_down_server_error_witness:
  "\<not> db_up (db (st_a\<lparr>db := \<lparr>docs = [doc_a], db_up = False\<rparr>\<rparr>)) \<and>
   delete_all_weather (st_a\<lparr>db := \<lparr>docs = [doc_a], db_up = False\<rparr>\<rparr>) =
     (json_error 500 ''server error'', st_a\<lparr>db := \<lparr>docs = [doc_a], db_up = False\<rparr>\<rparr>)"
  using store_down_server_error [of "st_a\<lparr>db := \<lparr>docs = [doc_a], db_up = False\<rparr>\<rparr>"] by simp

end
