(* ===== verification/Server.thy ===== *)
theory Server
  imports Api
begin

text \<open>
  The process of \<open>src/index.js\<close> over time. Lines 10--14 read the configuration;
  lines 97--105 connect to MongoDB and only then listen; once listening, requests are
  served concurrently on one event loop. Each handler runs synchronously up to its one
  \<open>await\<close> (the database call) and resumes when that call settles, so the database
  calls of several requests interleave. This theory splits every handler at its
  \<open>await\<close> (\<open>route_start\<close>, \<open>complete\<close>), shows that running the two halves back to
  back is the handler of \<open>Api\<close> (\<open>handle_request_split\<close>), and describes the whole
  server as a step relation \<open>server_step\<close> over the phase of start-up, the application
  state, the requests in flight and the responses sent.
\<close>

section \<open>Configuration and start-up phases\<close>

text \<open>\<open>process.env\<close> after \<open>dotenv.config()\<close>: the two variables the program reads.\<close>

record env =
  env_port :: "string option"
  env_uri :: "string option"

text \<open>\<open>process.env.PORT || 5000\<close>: an unset or empty \<open>PORT\<close> gives 5000.\<close>

definition listen_port :: "string option \<Rightarrow> string" where
  "listen_port p = (case p of Some s \<Rightarrow> if s = [] then ''5000'' else s | None \<Rightarrow> ''5000'')"

text \<open>
  \<open>mongoose.connect(...)\<close> is pending (\<open>Connecting\<close>), then either resolves and
  \<open>app.listen(PORT)\<close> runs (\<open>Listening\<close>), or rejects and the \<open>catch\<close> only logs
  (\<open>ConnectFailed\<close>: the process stays up and never listens).
\<close>

datatype phase = Booting | Connecting | Listening string | ConnectFailed

fun is_listening :: "phase \<Rightarrow> bool" where
  "is_listening (Listening p) = True"
| "is_listening _ = False"

section \<open>Handlers split at their await\<close>

text \<open>What a handler awaits: the database call and what the handler does with its result.\<close>

datatype pending =
    PSave weather "validation_error list"
  | PList
  | PGet string
  | PDelete string
  | PDeleteAll

text \<open>
  The synchronous part of \<open>POST /api/weather\<close> (lines 32--37): destructuring, the
  guard, and \<open>new Weather(...)\<close>, which reads the clock and advances the generator. It
  either answers at once or leaves the \<open>save()\<close> of line 38 pending.
\<close>

definition post_start :: "jval \<Rightarrow> app_state \<Rightarrow> (response + pending) \<times> app_state" where
  "post_start body st =
     (if body = JNull then (Inl (json_error 500 ''server error''), st)
      else
        (let ci = jget body ''city''; co = jget body ''country'';
             te = jget body ''temperature''; de = jget body ''description''
         in if \<not> truthy_opt ci \<or> te = None
            then (Inl (json_error 400 ''city and temperature are required''), st)
            else
              (let ((d, errs), g') = new_weather (clock st) (gen st) ci co te de
               in (Inr (PSave d errs), st\<lparr>gen := g'\<rparr>))))"

text \<open>The continuation after the \<open>await\<close> of each handler (lines 38--43, 50--55, 62--68, 75--81, 88--93).\<close>

fun complete :: "pending \<Rightarrow> app_state \<Rightarrow> response \<times> app_state" where
  "complete (PSave d errs) st =
     (let (r, db') = save_weather d errs (db st)
      in (case r of
            Inl e \<Rightarrow> json_error 500 ''server error''
          | Inr saved \<Rightarrow> \<lparr>status = 201, resp_body = weather_json saved\<rparr>,
          st\<lparr>db := db'\<rparr>))"
| "complete PList st = (get_weather_list st, st)"
| "complete (PGet i) st = (get_weather_by_id i st, st)"
| "complete (PDelete i) st = delete_weather_by_id i st"
| "complete PDeleteAll st = delete_all_weather st"

text \<open>The synchronous part of each route; the health route has no \<open>await\<close>.\<close>

fun route_start :: "route \<Rightarrow> string list \<Rightarrow> jval \<Rightarrow> app_state \<Rightarrow> (response + pending) \<times> app_state" where
  "route_start Health ps b st = (Inl (get_health st), st)"
| "route_start CreateWeather ps b st = post_start b st"
| "route_start ListWeather ps b st = (Inr PList, st)"
| "route_start GetWeather ps b st = (Inr (PGet (hd ps)), st)"
| "route_start DeleteWeather ps b st = (Inr (PDelete (hd ps)), st)"
| "route_start DeleteAllWeather ps b st = (Inr PDeleteAll, st)"

definition head_body :: "http_method \<Rightarrow> response \<Rightarrow> response" where
  "head_body m resp = (if m = HEAD then resp\<lparr>resp_body := JNull\<rparr> else resp)"

text \<open>
  The arrival of a request: \<open>cors()\<close> answers \<open>OPTIONS\<close>, an unmatched path has no API
  response, and a matched route runs its synchronous part. A pending request remembers
  its method, so that a \<open>HEAD\<close> response is sent without body.
\<close>

definition start_request ::
  "request \<Rightarrow> app_state \<Rightarrow> (response option + pending \<times> http_method) \<times> app_state" where
  "start_request r st =
     (if req_method r = OPTIONS then (Inl (Some \<lparr>status = 204, resp_body = JNull\<rparr>), st)
      else
        (case select_route routes (req_method r) (req_path r) of
           None \<Rightarrow> (Inl None, st)
         | Some (rt, ps) \<Rightarrow>
             (case route_start rt ps (req_body r) st of
                (Inl resp, st') \<Rightarrow> (Inl (Some (head_body (req_method r) resp)), st')
              | (Inr p, st') \<Rightarrow> (Inr (p, req_method r), st'))))"

text \<open>
  What the server runs when a request arrives: the synchronous part of the request's
  handling, which answers at once (\<open>Inl\<close>, \<open>None\<close> for no response) or leaves a
  database call pending. \<open>start_request\<close> is the one of the routes alone; \<open>Middleware\<close>
  gives the one of the whole middleware chain.
\<close>

type_synonym 'q starter = "'q \<Rightarrow> app_state \<Rightarrow> (response option + pending \<times> http_method) \<times> app_state"

section \<open>The server\<close>

text \<open>
  The server's state: the start-up phase, the application state of \<open>Api\<close>, the
  requests in flight (their number, what they await, their method), the responses sent
  in order (\<open>None\<close> for a request the API does not answer), and the next request number.
\<close>

record server =
  phase :: phase
  app :: app_state
  inflight :: "(nat \<times> pending \<times> http_method) list"
  sent :: "(nat \<times> response option) list"
  next_req :: nat

text \<open>
  The steps of the server running \<open>start\<close> under the environment \<open>e\<close>. Start-up:
  \<open>connect\<close> is called with \<open>MONGODB_URI\<close> (an unset URI rejects at once), and
  settles either way. While
  listening: a request arrives and runs its synchronous part; any request in flight
  resumes when its database call settles (in any order); the connection to the database
  drops and comes back. At any time the clock advances.
\<close>

inductive server_step :: "'q starter \<Rightarrow> env \<Rightarrow> server \<Rightarrow> server \<Rightarrow> bool" for start e where
  connect_call: "phase s = Booting \<Longrightarrow> env_uri e \<noteq> None \<Longrightarrow>
    server_step start e s (s\<lparr>phase := Connecting\<rparr>)"
| connect_no_uri: "phase s = Booting \<Longrightarrow> env_uri e = None \<Longrightarrow>
    server_step start e s (s\<lparr>phase := ConnectFailed\<rparr>)"
| connected: "phase s = Connecting \<Longrightarrow>
    server_step start e s (s\<lparr>phase := Listening (listen_port (env_port e)),
                       app := (app s)\<lparr>db := (db (app s))\<lparr>db_up := True\<rparr>\<rparr>\<rparr>)"
| connect_error: "phase s = Connecting \<Longrightarrow> server_step start e s (s\<lparr>phase := ConnectFailed\<rparr>)"
| arrive_answered: "is_listening (phase s) \<Longrightarrow> start r (app s) = (Inl resp, st') \<Longrightarrow>
    server_step start e s (s\<lparr>app := st', sent := sent s @ [(next_req s, resp)], next_req := Suc (next_req s)\<rparr>)"
| arrive_pending: "is_listening (phase s) \<Longrightarrow> start r (app s) = (Inr pm, st') \<Longrightarrow>
    server_step start e s (s\<lparr>app := st', inflight := inflight s @ [(next_req s, pm)], next_req := Suc (next_req s)\<rparr>)"
| resume: "is_listening (phase s) \<Longrightarrow> inflight s = xs @ (n, pd, m) # ys \<Longrightarrow> complete pd (app s) = (resp, st') \<Longrightarrow>
    server_step start e s (s\<lparr>app := st', inflight := xs @ ys, sent := sent s @ [(n, Some (head_body m resp))]\<rparr>)"
| db_lost: "is_listening (phase s) \<Longrightarrow>
    server_step start e s (s\<lparr>app := (app s)\<lparr>db := (db (app s))\<lparr>db_up := False\<rparr>\<rparr>\<rparr>)"
| db_back: "is_listening (phase s) \<Longrightarrow>
    server_step start e s (s\<lparr>app := (app s)\<lparr>db := (db (app s))\<lparr>db_up := True\<rparr>\<rparr>\<rparr>)"
| tick: "server_step start e s (s\<lparr>app := (app s)\<lparr>clock := clock (app s) + k\<rparr>\<rparr>)"

text \<open>
  A process starts booting with nothing in flight, the collection as earlier runs left
  it (well formed), and a fresh generator.
\<close>

definition server_init :: "server \<Rightarrow> bool" where
  "server_init s \<longleftrightarrow> phase s = Booting \<and> inflight s = [] \<and> sent s = [] \<and> wf_app (app s)"

inductive reachable :: "'q starter \<Rightarrow> env \<Rightarrow> server \<Rightarrow> bool" for start e where
  init: "server_init s \<Longrightarrow> reachable start e s"
| step: "reachable start e s \<Longrightarrow> server_step start e s s' \<Longrightarrow> reachable start e s'"

text \<open>A pending request is well formed when the document it saves has a well-formed identifier.\<close>

fun pending_ok :: "pending \<Rightarrow> bool" where
  "pending_ok (PSave d errs) = wf_oid (doc_id d)"
| "pending_ok _ = True"

text \<open>
  The interface between the server and what it runs: a start function keeps the
  application invariant and leaves only well-formed saves pending.
\<close>

definition start_ok :: "'q starter \<Rightarrow> bool" where
  "start_ok start \<longleftrightarrow>
     (\<forall>r st x st'. wf_app st \<longrightarrow> start r st = (x, st') \<longrightarrow>
        wf_app st' \<and> (\<forall>pd m. x = Inr (pd, m) \<longrightarrow> pending_ok pd))"

text \<open>The invariant of the state: the application invariant and well-formed pending saves.\<close>

definition wf_server :: "server \<Rightarrow> bool" where
  "wf_server s \<longleftrightarrow> wf_app (app s) \<and> list_all (\<lambda>(n, pd, m). pending_ok pd) (inflight s)"

section \<open>Sample runs\<close>

text \<open>
  A process started with a connection string, booting over an empty collection; a
  Paris record as a POST constructs it; and the state after two such POSTs, one second
  apart, both waiting for their \<open>save()\<close>.
\<close>

abbreviation env0 :: env where
  "env0 \<equiv> \<lparr>env_port = None, env_uri = Some ''mongodb://localhost:27017/weather''\<rparr>"

abbreviation boot0 :: server where
  "boot0 \<equiv> \<lparr>phase = Booting, app = st_empty, inflight = [], sent = [], next_req = 0\<rparr>"

abbreviation paris_at :: "objectid \<Rightarrow> millis \<Rightarrow> weather" where
  "paris_at i t \<equiv> \<lparr>doc_id = i, city = Value ''Paris'', country = Unset, temperature = Value (JFin 18 0),
                    description = Unset, recordedAt = t, doc_v = None\<rparr>"

abbreviation oid_first :: objectid where
  "oid_first \<equiv> fst (objectid_generate 0 gen0)"

abbreviation oid_second :: objectid where
  "oid_second \<equiv> fst (objectid_generate 1 (snd (objectid_generate 0 gen0)))"

abbreviation post_paris :: request where
  "post_paris \<equiv> \<lparr>req_method = POST, req_path = [''api'', ''weather''], req_body = paris\<rparr>"

abbreviation two_saves :: "string \<Rightarrow> server" where
  "two_saves p \<equiv>
     \<lparr>phase = Listening p,
      app = st_empty\<lparr>clock := 1000, gen := snd (objectid_generate 1 (snd (objectid_generate 0 gen0)))\<rparr>,
      inflight = [(0, PSave (paris_at oid_first 0) [], POST), (1, PSave (paris_at oid_second 1000) [], POST)],
      sent = [], next_req = 2\<rparr>"

section \<open>Properties\<close>

subsection \<open>The split handlers\<close>

lemma post_weather_split:
  "post_weather b st =
     (case post_start b st of (Inl resp, st') \<Rightarrow> (resp, st') | (Inr pd, st') \<Rightarrow> complete pd st')"
  by (simp add: post_weather_def post_start_def Let_def split_def)

lemma run_route_split:
  "run_route rt ps b st =
     (case route_start rt ps b st of (Inl resp, st') \<Rightarrow> (resp, st') | (Inr pd, st') \<Rightarrow> complete pd st')"
  by (cases rt) (simp_all add: post_weather_split)

text \<open>
  Splitting the handlers at their \<open>await\<close> is faithful: for every request and
  state, running the synchronous part and then, at once, the continuation gives exactly
  the response and state of \<open>handle_request\<close>. The properties proved of \<open>handle_request\<close>
  are therefore those of a request that nothing interleaves with.
\<close>

lemma handle_request_split:
  "handle_request r st =
     (case start_request r st of
        (Inl resp, st') \<Rightarrow> (resp, st')
      | (Inr (pd, m), st') \<Rightarrow> (let (resp, st'') = complete pd st' in (Some (head_body m resp), st'')))"
  by (auto simp: handle_request_def start_request_def run_route_split head_body_def
      split: option.splits prod.splits sum.splits)

subsection \<open>The routes keep the interface\<close>

lemma post_start_wf:
  assumes "wf_app st" and "post_start b st = (x, st')"
  shows "wf_app st' \<and> (\<forall>pd. x = Inr pd \<longrightarrow> pending_ok pd)"
proof -
  obtain d errs g' where nw: "new_weather (clock st) (gen st) (jget b ''city'') (jget b ''country'')
      (jget b ''temperature'') (jget b ''description'') = ((d, errs), g')"
    by (metis prod.exhaust)
  from assms(1) new_weather_fields [OF nw] objectid_generate_wf
  have "wf_oid (doc_id d)" "wf_gen g'" by (auto simp: wf_app_def)
  with assms nw show ?thesis
    by (auto simp: post_start_def wf_app_def Let_def simp del: not_None_eq split: if_splits)
qed

lemma start_request_wf:
  assumes "wf_app st" and "start_request r st = (x, st')"
  shows "wf_app st' \<and> (\<forall>pd m. x = Inr (pd, m) \<longrightarrow> pending_ok pd)"
proof (cases "req_method r = OPTIONS")
  case True
  with assms show ?thesis by (auto simp: start_request_def)
next
  case False
  show ?thesis
  proof (cases "select_route routes (req_method r) (req_path r)")
    case None
    with False assms show ?thesis by (auto simp: start_request_def)
  next
    case (Some a)
    obtain rt ps where a: "a = (rt, ps)" by (cases a)
    obtain y st'' where rs: "route_start rt ps (req_body r) st = (y, st'')"
      by (metis prod.exhaust)
    have "wf_app st'' \<and> (\<forall>pd. y = Inr pd \<longrightarrow> pending_ok pd)"
      using post_start_wf [OF assms(1)] assms(1) rs by (cases rt) auto
    with False Some a rs assms(2) show ?thesis
      by (auto simp: start_request_def split: sum.splits)
  qed
qed

lemma start_request_ok: "start_ok start_request"
  unfolding start_ok_def using start_request_wf by blast

lemma start_okD:
  "start_ok start \<Longrightarrow> wf_app st \<Longrightarrow> start r st = (x, st') \<Longrightarrow>
     wf_app st' \<and> (\<forall>pd m. x = Inr (pd, m) \<longrightarrow> pending_ok pd)"
  unfolding start_ok_def by blast

lemma complete_wf: "wf_app st \<Longrightarrow> pending_ok pd \<Longrightarrow> wf_app (snd (complete pd st))"
  by (cases pd) (auto simp: wf_app_def Let_def split_def wf_intros model_simps)

lemma wf_app_db_up [simp]: "wf_app (st\<lparr>db := (db st)\<lparr>db_up := b\<rparr>\<rparr>) = wf_app st"
  by (simp add: wf_app_def wf_store_def)

lemma wf_app_clock [simp]: "wf_app (st\<lparr>clock := c\<rparr>) = wf_app st"
  by (simp add: wf_app_def)

subsection \<open>Preservation of the invariant\<close>

text \<open>The state invariant holds when what the server runs keeps the interface.\<close>

lemma server_step_wf:
  assumes "server_step start e s s'" and "start_ok start" and "wf_server s"
  shows "wf_server s'"
  using assms(1,3)
proof (induction rule: server_step.induct)
  case (arrive_answered s r resp st')
  then show ?case using start_okD [OF assms(2), of "app s" r "Inl resp" st']
    by (auto simp: wf_server_def)
next
  case (arrive_pending s r pm st')
  then show ?case using start_okD [OF assms(2), of "app s" r "Inr pm" st']
    by (cases pm) (auto simp: wf_server_def)
next
  case (resume s xs n pd m ys resp st')
  then have "wf_app (snd (complete pd (app s)))"
    by (intro complete_wf) (auto simp: wf_server_def)
  with resume show ?case by (auto simp: wf_server_def)
qed (auto simp: wf_server_def)

lemma reachable_wf:
  assumes "start_ok start" and "reachable start e s"
  shows "wf_server s"
  using assms(2)
proof (induction rule: reachable.induct)
  case (init s)
  then show ?case by (simp add: server_init_def wf_server_def)
next
  case (step s s')
  from server_step_wf [OF step.hyps(2) assms(1) step.IH] show ?case .
qed

lemma reachable_no_uri:
  assumes "env_uri e = None" and "reachable start e s"
  shows "(phase s = Booting \<or> phase s = ConnectFailed) \<and> sent s = []"
  using assms(2)
proof (induction rule: reachable.induct)
  case (init s)
  then show ?case by (simp add: server_init_def)
next
  case (step s s')
  from step.hyps(2) step.IH assms(1) show ?case
    by (cases rule: server_step.cases) auto
qed

subsection \<open>A trace with two saves in flight\<close>

lemma start_request_post:
  "start_request \<lparr>req_method = POST, req_path = [''api'', ''weather''], req_body = b\<rparr> st =
     (case post_start b st of (Inl resp, st') \<Rightarrow> (Inl (Some resp), st') | (Inr p, st') \<Rightarrow> (Inr (p, POST), st'))"
  by (simp add: start_request_def routes_def route_method_def head_body_def split: prod.splits sum.splits)

lemma post_start_paris:
  "post_start paris st =
     (Inr (PSave (paris_at (fst (objectid_generate (clock st div 1000) (gen st))) (clock st)) []),
      st\<lparr>gen := snd (objectid_generate (clock st div 1000) (gen st))\<rparr>)"
  by (simp add: post_start_def truthy_opt_def new_weather_def Let_def split_def cast_string_def
      cast_number_def cast_or_unset_def cast_errors_def)

text \<open>
  Any server that starts some request \<open>q\<close> as the routes start \<open>POST /api/weather\<close> with
  the Paris body reaches the state with two such saves in flight.
\<close>

lemma two_saves_in_flight:
  assumes "env_uri e \<noteq> None" and q: "\<And>st. start q st = start_request post_paris st"
  shows "reachable start e (two_saves (listen_port (env_port e)))"
proof -
  have r0: "reachable start e boot0"
    by (rule reachable.init) (simp add: server_init_def wf_app_st_empty)
  have r1: "reachable start e (boot0\<lparr>phase := Connecting\<rparr>)"
    using reachable.step [OF r0 server_step.connect_call] assms(1) by simp
  let ?s2 = "boot0\<lparr>phase := Listening (listen_port (env_port e))\<rparr>"
  have r2: "reachable start e ?s2"
    using reachable.step [OF r1 server_step.connected] by simp
  let ?s3 = "?s2\<lparr>app := st_empty\<lparr>gen := snd (objectid_generate 0 gen0)\<rparr>,
     inflight := [(0, PSave (paris_at oid_first 0) [], POST)], next_req := 1\<rparr>"
  have r3: "reachable start e ?s3"
    using reachable.step [OF r2 server_step.arrive_pending [where s = ?s2 and r = q]]
    by (simp add: q start_request_post post_start_paris)
  let ?s4 = "?s3\<lparr>app := st_empty\<lparr>clock := 1000, gen := snd (objectid_generate 0 gen0)\<rparr>\<rparr>"
  have r4: "reachable start e ?s4"
    using reachable.step [OF r3 server_step.tick [where s = ?s3 and k = 1000]] by simp
  show ?thesis
    using reachable.step [OF r4 server_step.arrive_pending [where s = ?s4 and r = q]]
    by (simp add: q start_request_post post_start_paris numeral_2_eq_2)
qed

lemma reachable_two_saves: "reachable start_request env0 (two_saves ''5000'')"
  using two_saves_in_flight [of env0 start_request post_paris] by (simp add: listen_port_def)

text \<open>From there, the second save completing first stores the later record first.\<close>

lemma saves_out_of_order:
  assumes "reachable start e (two_saves p)"
  shows "\<exists>s. reachable start e s \<and> map recordedAt (docs (db (app s))) = [1000, 0]"
proof -
  let ?s = "two_saves p"
  let ?p1 = "PSave (paris_at oid_first 0) []" and ?p2 = "PSave (paris_at oid_second 1000) []"
  let ?c2 = "complete ?p2 (app ?s)"
  let ?s5 = "?s\<lparr>app := snd ?c2, inflight := [(0, ?p1, POST)], sent := [(1, Some (head_body POST (fst ?c2)))]\<rparr>"
  let ?c1 = "complete ?p1 (app ?s5)"
  let ?s6 = "?s5\<lparr>app := snd ?c1, inflight := [], sent := sent ?s5 @ [(0, Some (head_body POST (fst ?c1)))]\<rparr>"
  have r5: "reachable start e ?s5"
    using reachable.step [OF assms server_step.resume [where s = ?s and xs = "[(0, ?p1, POST)]" and ys = "[]"
        and n = 1 and pd = ?p2 and m = POST and resp = "fst ?c2" and st' = "snd ?c2"]]
    by simp
  have r6: "reachable start e ?s6"
    using reachable.step [OF r5 server_step.resume [where s = ?s5 and xs = "[]" and ys = "[]"
        and n = 0 and pd = ?p1 and m = POST and resp = "fst ?c1" and st' = "snd ?c1"]]
    by simp
  have "be_bytes 3 (Suc 0) \<noteq> be_bytes 3 (Suc (Suc 0))"
    by (simp add: numeral_3_eq_3)
  then have "map recordedAt (docs (db (app ?s6))) = [1000, 0]"
    by (simp add: save_weather_def validate_weather_def required_errors_def insert_doc_def Let_def
        objectid_generate_def oid_counter_mod_def)
  with r6 show ?thesis by (intro exI [of _ ?s6] conjI)
qed

subsection \<open>Claims\<close>

text \<open>
  The invariant is proved for whatever the server runs on arrival that keeps the
  interface \<open>start_ok\<close>; its witness runs the routes alone (\<open>start_request\<close>), and
  \<open>Middleware\<close> runs the whole middleware chain.
\<close>

text \<open>
  C18. Under every interleaving of requests, database outages and the passing of time
  that the server allows, the application invariant holds, for every start function that
  keeps it: the stored documents have distinct well-formed identifiers, all passed
  validation, and the generator stays in range. (The unique index, not the generator,
  keeps identifiers distinct.)
\<close>

theorem reachable_wf_app: "start_ok start \<Longrightarrow> reachable start e s \<Longrightarrow> wf_app (app s)"
  by (drule (1) reachable_wf) (simp add: wf_server_def)

theorem reachable_wf_app_witness:
  "start_ok start_request \<and> reachable start_request env0 (two_saves ''5000'') \<and>
   wf_app (app (two_saves ''5000''))"
  using start_request_ok reachable_two_saves reachable_wf_app [OF start_request_ok reachable_two_saves]
  by simp

text \<open>
  C19. Without \<open>MONGODB_URI\<close> the connection rejects and the process never listens, so
  it never serves a request (the spec: "if unavailable at startup, the process does not
  begin serving requests").
\<close>

theorem no_uri_never_serves:
  assumes "env_uri e = None" and "reachable start e s"
  shows "\<not> is_listening (phase s) \<and> sent s = []"
  using reachable_no_uri [OF assms] by auto

theorem no_uri_never_serves_witness:
  "reachable start_request \<lparr>env_port = None, env_uri = None\<rparr> (boot0\<lparr>phase := ConnectFailed\<rparr>) \<and>
   \<not> is_listening ConnectFailed \<and> sent boot0 = []"
proof -
  have r0: "reachable start_request \<lparr>env_port = None, env_uri = None\<rparr> boot0"
    by (rule reachable.init) (simp add: server_init_def wf_app_st_empty)
  have r: "reachable start_request \<lparr>env_port = None, env_uri = None\<rparr> (boot0\<lparr>phase := ConnectFailed\<rparr>)"
    using reachable.step [OF r0 server_step.connect_no_uri] by simp
  show ?thesis using r no_uri_never_serves [OF _ r] by simp
qed

end
