(* ===== verification/Middleware.thy ===== *)
theory Middleware
  imports Server
begin

text \<open>
  The middleware of \<open>src/index.js\<close> in front of the routes, in the order it is
  registered: \<open>cors()\<close> (line 16), which answers every \<open>OPTIONS\<close> request itself;
  \<open>express.json()\<close> (line 17), which turns the request body into \<open>req.body\<close> or fails
  the request; \<open>express.static\<close> over \<open>public/\<close> (lines 19--22), which answers
  \<open>GET\<close> and \<open>HEAD\<close> requests for the files there; then the routes of \<open>Api\<close>; and
  last Express's final handler, which answers 404. \<open>dispatch\<close> is the whole chain for
  one request; \<open>dispatch_start\<close> is the chain split at the handlers' \<open>await\<close>, which
  the concurrent server of \<open>Server\<close> runs, so that the server's claims hold of the
  running application.
\<close>

section \<open>Request bodies and \<open>express.json()\<close>\<close>

text \<open>
  A request body as \<open>express.json()\<close> sees it. \<open>NotParsed\<close>: no body, an empty one,
  or one whose content type is not JSON, which the parser leaves alone. \<open>JsonBody\<close>:
  a JSON body, by the outcome of \<open>JSON.parse\<close> on its text (\<open>None\<close> for a syntax
  error). \<open>JsonTooLarge\<close>: over the 100 kB limit. \<open>JsonBadCharset\<close>: a charset
  other than UTF.
\<close>

datatype raw_body = NotParsed | JsonBody "jval option" | JsonTooLarge | JsonBadCharset

record http_request =
  h_method :: http_method
  h_path :: "string list"
  h_body :: raw_body

text \<open>
  body-parser's \<open>json\<close> parser: \<open>req.body\<close> starts as \<open>{}\<close> and stays so for a body it
  does not read; in strict mode (the default) a JSON text must be an object or an array;
  any failure is passed to \<open>next(err)\<close> with its status (400 syntax, 413 size, 415
  charset).
\<close>

definition express_json :: "raw_body \<Rightarrow> nat + jval" where
  "express_json b =
     (case b of
        NotParsed \<Rightarrow> Inr (JObj [])
      | JsonBody None \<Rightarrow> Inl 400
      | JsonBody (Some v) \<Rightarrow> (case v of JObj kvs \<Rightarrow> Inr v | JArr xs \<Rightarrow> Inr v | _ \<Rightarrow> Inl 400)
      | JsonTooLarge \<Rightarrow> Inl 413
      | JsonBadCharset \<Rightarrow> Inl 415)"

text \<open>
  What Express's error and final handlers send: the status, and a body the API does not
  define (an HTML page), written \<open>JNull\<close>.
\<close>

definition express_error :: "nat \<Rightarrow> response" where
  "express_error code = \<lparr>status = code, resp_body = JNull\<rparr>"

section \<open>\<open>express.static\<close>\<close>

text \<open>
  The files of \<open>public/\<close> are given by their paths, as lists of segments. serve-static
  answers only \<open>GET\<close> and \<open>HEAD\<close>; a path with a segment starting with a dot is
  ignored (\<open>dotfiles: 'ignore'\<close>); a path that names a file is served; a path ending in
  a slash is served the \<open>index.html\<close> of that directory; a directory named without the
  trailing slash is redirected (301) to it; anything else falls through to the next
  handler. Matching is by exact segments, as on a case-sensitive file system.
\<close>

definition static_ok :: response where
  "static_ok = \<lparr>status = 200, resp_body = JNull\<rparr>"

definition static_serve :: "string list list \<Rightarrow> http_method \<Rightarrow> string list \<Rightarrow> response option" where
  "static_serve files m p =
     (if m \<noteq> GET \<and> m \<noteq> HEAD then None
      else if list_ex (\<lambda>s. s \<noteq> [] \<and> hd s = CHR ''.'') p then None
      else if p \<in> set files then Some static_ok
      else if p \<noteq> [] \<and> last p = [] \<and> butlast p @ [''index.html''] \<in> set files then Some static_ok
      else if p \<noteq> [] \<and> last p \<noteq> [] \<and> list_ex (\<lambda>f. length p < length f \<and> take (length p) f = p) files
      then Some \<lparr>status = 301, resp_body = JNull\<rparr>
      else None)"

section \<open>The chain\<close>

definition dispatch :: "string list list \<Rightarrow> http_request \<Rightarrow> app_state \<Rightarrow> response \<times> app_state" where
  "dispatch files r st =
     (if h_method r = OPTIONS then (\<lparr>status = 204, resp_body = JNull\<rparr>, st)
      else
        (case express_json (h_body r) of
           Inl code \<Rightarrow> (express_error code, st)
         | Inr b \<Rightarrow>
             (case static_serve files (h_method r) (h_path r) of
                Some resp \<Rightarrow> (resp, st)
              | None \<Rightarrow>
                  (case handle_request \<lparr>req_method = h_method r, req_path = h_path r, req_body = b\<rparr> st of
                     (Some resp, st') \<Rightarrow> (resp, st')
                   | (None, st') \<Rightarrow> (express_error 404, st')))))"

text \<open>
  The chain split at the handlers' \<open>await\<close>, as the concurrent server of \<open>Server\<close>
  runs it: everything before the database call happens on arrival, and every request
  that does not wait for the database is answered at once, by a middleware, a route or
  Express's 404.
\<close>

definition dispatch_start :: "string list list \<Rightarrow> http_request starter" where
  "dispatch_start files r st =
     (if h_method r = OPTIONS then (Inl (Some \<lparr>status = 204, resp_body = JNull\<rparr>), st)
      else
        (case express_json (h_body r) of
           Inl code \<Rightarrow> (Inl (Some (express_error code)), st)
         | Inr b \<Rightarrow>
             (case static_serve files (h_method r) (h_path r) of
                Some resp \<Rightarrow> (Inl (Some resp), st)
              | None \<Rightarrow>
                  (case start_request \<lparr>req_method = h_method r, req_path = h_path r, req_body = b\<rparr> st of
                     (Inl None, st') \<Rightarrow> (Inl (Some (express_error 404)), st')
                   | (Inl (Some resp), st') \<Rightarrow> (Inl (Some resp), st')
                   | (Inr pm, st') \<Rightarrow> (Inr pm, st')))))"

section \<open>Properties\<close>

lemma express_json_Inr: "express_json b = Inr v \<Longrightarrow> (\<exists>kvs. v = JObj kvs) \<or> (\<exists>xs. v = JArr xs)"
  by (auto simp: express_json_def split: raw_body.splits option.splits jval.splits)

lemma express_json_Inl: "express_json b = Inl c \<Longrightarrow> c \<in> {400, 413, 415}"
  by (auto simp: express_json_def split: raw_body.splits option.splits jval.splits)

lemma static_serve_other_method [simp]: "m \<noteq> GET \<Longrightarrow> m \<noteq> HEAD \<Longrightarrow> static_serve files m p = None"
  by (simp add: static_serve_def)

lemma save_weather_Inl_same: "save_weather d errs s = (Inl e, s') \<Longrightarrow> s' = s"
  by (auto simp: save_weather_def insert_doc_def Let_def split: if_splits)

text \<open>A 500 answered to a body other than \<open>null\<close> comes from a rejected \<open>save()\<close>.\<close>

lemma post_weather_500:
  assumes "post_weather b st = (r, st')" and "b \<noteq> JNull" and "status r = 500"
  shows "st' = st\<lparr>gen := snd (objectid_generate (clock st div 1000) (gen st))\<rparr>"
proof -
  obtain d errs g' where nw: "new_weather (clock st) (gen st) (jget b ''city'') (jget b ''country'')
      (jget b ''temperature'') (jget b ''description'') = ((d, errs), g')"
    by (metis prod.exhaust)
  obtain res db' where sv: "save_weather d errs (db st) = (res, db')"
    by (metis prod.exhaust)
  have guard: "truthy_opt (jget b ''city'') \<and> jget b ''temperature'' \<noteq> None"
  proof (rule ccontr)
    assume "\<not> (truthy_opt (jget b ''city'') \<and> jget b ''temperature'' \<noteq> None)"
    then have "post_weather b st = (json_error 400 ''city and temperature are required'', st)"
      using assms(2) by (auto simp: post_weather_def)
    with assms(1,3) show False by (auto simp: json_error_def)
  qed
  then have eq: "post_weather b st =
      (case res of Inl e \<Rightarrow> json_error 500 ''server error''
                 | Inr saved \<Rightarrow> \<lparr>status = 201, resp_body = weather_json saved\<rparr>,
       st\<lparr>db := db', gen := g'\<rparr>)"
    using assms(2) nw sv by (auto simp: post_weather_def Let_def)
  with assms(1,3) obtain e where "res = Inl e" and "st' = st\<lparr>db := db', gen := g'\<rparr>"
    by (cases res) auto
  with sv save_weather_Inl_same [of d errs "db st" e db'] new_weather_fields [OF nw] show ?thesis
    by simp
qed

lemma static_serve_none:
  assumes "p \<noteq> []" and "hd p \<noteq> []" and "\<forall>f\<in>set files. f = [] \<or> hd f \<noteq> hd p"
  shows "static_serve files m p = None"
proof -
  have "p \<notin> set files" using assms by auto
  moreover have "butlast p @ [''index.html''] \<notin> set files" if "last p = []"
  proof -
    from assms(1,2) that have "butlast p \<noteq> []" by (cases p rule: rev_cases) auto
    then have "hd (butlast p @ [''index.html'']) = hd p"
      by (metis append_butlast_last_id assms(1) hd_append2)
    with assms(3) show ?thesis by fastforce
  qed
  moreover have "\<not> (length p < length f \<and> take (length p) f = p)" if "f \<in> set files" for f
  proof
    assume "length p < length f \<and> take (length p) f = p"
    then have "f \<noteq> []" and "hd f = hd p"
      using assms(1) by (auto, metis hd_take length_greater_0_conv)
    with assms(3) that show False by blast
  qed
  ultimately show ?thesis by (auto simp: static_serve_def list_ex_iff)
qed

lemma dispatch_routes:
  assumes "h_method r \<noteq> OPTIONS" and "express_json (h_body r) = Inr b"
    and "static_serve files (h_method r) (h_path r) = None"
  shows "dispatch files r st =
           (case handle_request \<lparr>req_method = h_method r, req_path = h_path r, req_body = b\<rparr> st of
              (Some resp, st') \<Rightarrow> (resp, st')
            | (None, st') \<Rightarrow> (express_error 404, st'))"
  using assms by (simp add: dispatch_def)

text \<open>
  The static files do not interfere with the API: when no file of \<open>public/\<close>
  lies under the first segment of the request path, every request that passes
  \<open>express.json()\<close> is answered exactly as \<open>handle_request\<close> answers it, the paths no
  route takes being answered 404 by Express. So everything proved of
  \<open>handle_request\<close> holds of the application as Express runs it.
\<close>

lemma dispatch_without_static_file:
  assumes "p \<noteq> []" and "hd p \<noteq> []" and "\<forall>f\<in>set files. f = [] \<or> hd f \<noteq> hd p"
    and "m \<noteq> OPTIONS" and "express_json b = Inr v"
  shows "dispatch files \<lparr>h_method = m, h_path = p, h_body = b\<rparr> st =
           (case handle_request \<lparr>req_method = m, req_path = p, req_body = v\<rparr> st of
              (Some resp, st') \<Rightarrow> (resp, st')
            | (None, st') \<Rightarrow> (express_error 404, st'))"
  using dispatch_routes [of "\<lparr>h_method = m, h_path = p, h_body = b\<rparr>"] static_serve_none [OF assms(1-3)] assms(4,5)
  by simp

lemma dispatch_create:
  assumes "express_json b = Inr v"
  shows "dispatch files \<lparr>h_method = POST, h_path = [''api'', ''weather''], h_body = b\<rparr> st = post_weather v st"
  using assms by (simp add: dispatch_def handle_request_def routes_def route_method_def ascii_lower_def
      split: prod.splits)

text \<open>
  A \<open>POST /api/weather\<close> whose body \<open>express.json()\<close> does not read (a form, plain
  text, no body) reaches the handler as \<open>{}\<close> and is answered 400 \<open>city and
  temperature are required\<close>, with nothing stored and no identifier used.
\<close>

lemma dispatch_post_without_json:
  "dispatch files \<lparr>h_method = POST, h_path = [''api'', ''weather''], h_body = NotParsed\<rparr> st =
     (json_error 400 ''city and temperature are required'', st)"
  by (simp add: dispatch_create express_json_def post_weather_def truthy_opt_def)

subsection \<open>The chain in the concurrent server\<close>

lemma dispatch_start_ok: "start_ok (dispatch_start files)"
  unfolding start_ok_def
proof (intro allI impI)
  fix r st x st'
  assume wf: "wf_app st" and ds: "dispatch_start files r st = (x, st')"
  obtain y st'' where sr: "start_request \<lparr>req_method = h_method r, req_path = h_path r,
      req_body = projr (express_json (h_body r))\<rparr> st = (y, st'')"
    by (metis prod.exhaust)
  from start_request_wf [OF wf sr] ds sr show "wf_app st' \<and> (\<forall>pd m. x = Inr (pd, m) \<longrightarrow> pending_ok pd)"
    using wf by (auto simp: dispatch_start_def split: if_splits sum.splits option.splits prod.splits)
qed

text \<open>Running the split chain's two halves back to back is \<open>dispatch\<close>.\<close>

lemma dispatch_split:
  "dispatch files r st =
     (case dispatch_start files r st of
        (Inl ro, st') \<Rightarrow> (the ro, st')
      | (Inr (pd, m), st') \<Rightarrow> (let (resp, st'') = complete pd st' in (head_body m resp, st'')))"
  by (auto simp: dispatch_def dispatch_start_def handle_request_def start_request_def run_route_split
      head_body_def split: option.splits prod.splits sum.splits)

lemma reachable_dispatch_wf: "reachable (dispatch_start files) e s \<Longrightarrow> wf_app (app s)"
  using reachable_wf [OF dispatch_start_ok] by (simp add: wf_server_def)

lemma dispatch_start_post_paris:
  "dispatch_start files \<lparr>h_method = POST, h_path = [''api'', ''weather''], h_body = JsonBody (Some paris)\<rparr> st =
     start_request post_paris st"
  by (simp add: dispatch_start_def express_json_def start_request_post split: prod.splits sum.splits)

subsection \<open>Claims\<close>

text \<open>
  C20. The collection's insertion order need not follow \<open>recordedAt\<close>: \<open>recordedAt\<close>
  is read when the document is constructed, before the \<open>await\<close>, and two POSTs whose
  saves complete in the opposite order store the later record first. This happens in the
  server running the whole middleware chain, whatever the static files; the spec's
  "recordedAt is monotonically set at insertion time" does not hold of the code.
\<close>

theorem interleaved_saves_out_of_order:
  assumes "env_uri e \<noteq> None"
  shows "\<exists>s. reachable (dispatch_start files) e s \<and> \<not> sorted (map recordedAt (docs (db (app s))))"
proof -
  have "reachable (dispatch_start files) e (two_saves (listen_port (env_port e)))"
    using two_saves_in_flight [OF assms, of "dispatch_start files"
        "\<lparr>h_method = POST, h_path = [''api'', ''weather''], h_body = JsonBody (Some paris)\<rparr>"]
    by (simp add: dispatch_start_post_paris)
  from saves_out_of_order [OF this] obtain s where
    s: "reachable (dispatch_start files) e s \<and> map recordedAt (docs (db (app s))) = [1000, 0]" ..
  then show ?thesis by (intro exI [of _ s]) simp
qed

theorem interleaved_saves_out_of_order_witness:
  "env_uri env0 \<noteq> None \<and> (\<exists>s. reachable (dispatch_start []) env0 s \<and> \<not> sorted (map recordedAt (docs (db (app s)))))"
  using interleaved_saves_out_of_order [of env0 "[]"] by simp

text \<open>
  C28. A request whose body \<open>express.json()\<close> rejects (malformed JSON, a JSON text that
  is neither an object nor an array, too large, a foreign charset) never reaches a route
  or the static files: whatever its path, it is answered by Express's error handler with
  400, 413 or 415, and the state is unchanged.
\<close>

theorem dispatch_body_error:
  assumes "h_method r \<noteq> OPTIONS" and "express_json (h_body r) = Inl c"
  shows "dispatch files r st = (express_error c, st) \<and> c \<in> {400, 413, 415}"
  using assms express_json_Inl [OF assms(2)] by (simp add: dispatch_def)

theorem dispatch_body_error_witness:
  "dispatch [] \<lparr>h_method = POST, h_path = [''api'', ''weather''], h_body = JsonBody (Some (JStr ''Paris''))\<rparr> st_a =
     (express_error 400, st_a)"
  using dispatch_body_error [of "\<lparr>h_method = POST, h_path = [''api'', ''weather''], h_body = JsonBody (Some (JStr ''Paris''))\<rparr>"
      400 "[]" st_a]
  by (simp add: express_json_def)

text \<open>
  C29. Through the real middleware, every 500 answered to \<open>POST /api/weather\<close> comes
  from a rejected \<open>save()\<close>: a document was constructed, so the identifier generator has
  advanced, and nothing else changed. \<open>express.json()\<close> only hands objects and arrays
  to the handler, so the handler's branch for a \<open>null\<close> body (line 32) is dead code.
\<close>

theorem dispatch_post_500_from_save:
  assumes "dispatch files \<lparr>h_method = POST, h_path = [''api'', ''weather''], h_body = b\<rparr> st = (resp, st')"
    and "status resp = 500"
  shows "st' = st\<lparr>gen := snd (objectid_generate (clock st div 1000) (gen st))\<rparr>"
proof (cases "express_json b")
  case (Inl c)
  with assms express_json_Inl [OF Inl] show ?thesis by (auto simp: dispatch_def express_error_def)
next
  case (Inr v)
  then have "v \<noteq> JNull" using express_json_Inr by blast
  with assms dispatch_create [OF Inr] post_weather_500 show ?thesis by metis
qed

theorem dispatch_post_500_from_save_witness:
  "status (fst (dispatch [] \<lparr>h_method = POST, h_path = [''api'', ''weather''],
      h_body = JsonBody (Some (JObj [(''city'', JStr ''Paris''), (''temperature'', JNull)]))\<rparr> st_empty)) = 500 \<and>
   snd (dispatch [] \<lparr>h_method = POST, h_path = [''api'', ''weather''],
      h_body = JsonBody (Some (JObj [(''city'', JStr ''Paris''), (''temperature'', JNull)]))\<rparr> st_empty) =
     st_empty\<lparr>gen := snd (objectid_generate 0 gen0)\<rparr>"
proof -
  let ?b = "JObj [(''city'', JStr ''Paris''), (''temperature'', JNull)]"
  let ?r = "\<lparr>h_method = POST, h_path = [''api'', ''weather''], h_body = JsonBody (Some ?b)\<rparr>"
  obtain d errs g' where nw: "new_weather (clock st_empty) (gen st_empty) (jget ?b ''city'') (jget ?b ''country'')
      (Some JNull) (jget ?b ''description'') = ((d, errs), g')"
    by (metis prod.exhaust)
  have "\<not> valid_weather d"
    using nw by (simp add: valid_weather_def new_weather_null_temperature)
  then have "post_weather ?b st_empty = (json_error 500 ''server error'', st_empty\<lparr>gen := g'\<rparr>)"
    using post_weather_after_guard [of ?b, OF _ _ _ nw] new_weather_fields [OF nw]
    by (simp add: save_weather_invalid truthy_opt_def)
  then have d: "dispatch [] ?r st_empty = (json_error 500 ''server error'', st_empty\<lparr>gen := g'\<rparr>)"
    by (simp add: dispatch_create express_json_def)
  show ?thesis
    using d dispatch_post_500_from_save [OF d] by simp
qed

text \<open>
  C30. The converse: a file \<open>public/api/weather\<close> takes \<open>GET /api/weather\<close> away from
  the API. \<open>express.static\<close> is registered before the routes, so the file is sent
  and the listing handler never runs.
\<close>

theorem static_file_shadows_route:
  assumes "[''api'', ''weather''] \<in> set files" and "m = GET \<or> m = HEAD" and "express_json b = Inr v"
  shows "dispatch files \<lparr>h_method = m, h_path = [''api'', ''weather''], h_body = b\<rparr> st = (static_ok, st)"
  using assms by (auto simp: dispatch_def static_serve_def)

theorem static_file_shadows_route_witness:
  "dispatch [[''api'', ''weather'']] \<lparr>h_method = GET, h_path = [''api'', ''weather''], h_body = NotParsed\<rparr> st_a =
     (static_ok, st_a)"
  using static_file_shadows_route [of "[[''api'', ''weather'']]" GET NotParsed "JObj []" st_a]
  by (simp add: express_json_def)

end
