(* ===== verification/Spec2Isabelle.thy ===== *)
theory Spec2Isabelle
  imports Server Middleware
begin

text \<open>
  \<^bold>\<open>A verification model of the weather-record API (\<open>src/weather.js\<close>,
  \<open>src/index.js\<close>).\<close>

  \<^bold>\<open>The program.\<close> An Express application exposes six routes over one Mongoose model,
  \<open>Weather\<close>. Each route handler reads the request, makes one call into Mongoose and maps
  the outcome, or the exception its \<open>try\<close>/\<open>catch\<close> receives, to an HTTP status. The
  state the handlers touch is not their own: the MongoDB collection, the clock
  (\<open>Date.now()\<close>, \<open>new Date()\<close>) and bson's identifier generator.

  \<^bold>\<open>Theories, in import order.\<close>
  \<^item> \<open>Prelude\<close>: type names (\<open>byte\<close>, \<open>millis\<close>), rule collections, shared lemmas on
    keyed lists read as maps, bytes and modular arithmetic.
  \<^item> \<open>Json\<close>: the JavaScript values a handler sees and sends: \<open>jval\<close> (JSON values,
    objects as association lists where the last duplicate member wins, as
    \<open>JSON.parse\<close> does), \<open>jnum\<close> (numbers as exact decimals and the two infinities),
    \<open>js_truthy\<close> (the \<open>!city\<close> test), \<open>jget\<close> (a destructuring read),
    \<open>js_number_to_string\<close> (\<open>Number::toString\<close>), \<open>js_string_to_number\<close>
    (\<open>StringToNumber\<close>) and \<open>iso_date\<close> (\<open>Date.prototype.toISOString\<close>).
  \<^item> \<open>ObjectId\<close>: the twelve-byte identifiers. \<open>oid_to_hex\<close> is \<open>toHexString\<close>;
    \<open>cast_objectid\<close> is Mongoose's cast of the \<open>:id\<close> parameter (bson 4: a 24-digit hex
    string, or any 12-character ASCII string); \<open>objectid_generate\<close> is
    \<open>ObjectId.generate\<close> (seconds, five process bytes, a counter advanced modulo
    \<open>0xffffff\<close>), its state the record \<open>oid_gen\<close>.
  \<^item> \<open>Weather\<close>: the schema of \<open>src/weather.js\<close> as the record \<open>weather\<close> (each path
    \<open>Unset\<close>, \<open>Null\<close> or a \<open>Value\<close>), Mongoose's casts \<open>cast_string\<close> and
    \<open>cast_number\<close>, construction \<open>new_weather\<close> (\<open>new Weather({...})\<close>, line 37:
    generated \<open>_id\<close>, default \<open>recordedAt\<close>, cast errors recorded), the
    \<open>required\<close> validators (\<open>validate_weather\<close>) and \<open>toJSON\<close> (\<open>weather_json\<close>).
  \<^item> \<open>Store\<close>: the collection as the record \<open>store\<close> (documents in natural order, and
    whether the server answers) and the five Mongoose calls of \<open>src/index.js\<close>:
    \<open>save_weather\<close> (line 38), \<open>find_recent\<close> (line 50), \<open>find_by_id\<close> (line 62),
    \<open>find_by_id_and_delete\<close> (line 75), \<open>delete_many\<close> (line 88). Its invariant
    \<open>wf_store\<close>, its abstraction \<open>store_map\<close> to a map from identifiers to documents,
    and \<open>recent_spec\<close>, what any correct listing returns.
  \<^item> \<open>Api\<close>: the six handlers (\<open>get_health\<close>, \<open>post_weather\<close>, \<open>get_weather_list\<close>,
    \<open>get_weather_by_id\<close>, \<open>delete_weather_by_id\<close>, \<open>delete_all_weather\<close>), Express's
    route table (\<open>routes\<close>, matched case-insensitively with an optional trailing slash by
    \<open>match_segs\<close>, HEAD served by GET routes) and the whole application for one request,
    \<open>handle_request\<close>, over the state \<open>app_state\<close> (collection, clock, generator).
  \<^item> \<open>Server\<close>: the process over time. The configuration (\<open>env\<close>, \<open>listen_port\<close>,
    lines 10--14), the start-up phases (\<open>phase\<close>: connect, then listen, lines 97--105),
    every handler split at its one \<open>await\<close> into a synchronous part
    (\<open>start_request\<close>, \<open>route_start\<close>, \<open>post_start\<close>) and a continuation
    (\<open>complete\<close>), and the step relation \<open>server_step start\<close> of the whole server,
    over the function \<open>start\<close> it runs when a request arrives: requests arrive,
    resume in any order when their database call settles, the connection drops and
    returns, the clock advances. \<open>reachable start\<close> is the set of states a process can
    reach from boot. The invariant of the state holds for every \<open>start\<close> that keeps the
    interface \<open>start_ok\<close>.
  \<^item> \<open>Middleware\<close>: the middleware of lines 16--22 in registration order, as
    \<open>dispatch\<close>: \<open>cors()\<close> answering \<open>OPTIONS\<close>, \<open>express.json()\<close> as
    \<open>express_json\<close> (the raw body \<open>raw_body\<close> by the outcome of \<open>JSON.parse\<close>;
    strict mode, \<open>{}\<close> for a body it does not read, 400/413/415 otherwise),
    \<open>express.static\<close> as \<open>static_serve\<close> over the list of files of \<open>public/\<close>, the
    routes (\<open>handle_request\<close>), and Express's final 404. Error pages are abstracted to
    their status (\<open>express_error\<close>), file contents to \<open>static_ok\<close>. The chain split
    at the handlers' \<open>await\<close>, \<open>dispatch_start\<close>, is what the server of the running
    application starts on arrival (\<open>server_step (dispatch_start files)\<close>); it keeps
    \<open>start_ok\<close>, and its two halves back to back are \<open>dispatch\<close>.
  \<^item> \<open>Spec2Isabelle\<close> (this theory): properties of sequences of requests.

  \<^bold>\<open>What is proved.\<close> The handlers' behaviour on every branch, errors included (C1, C2,
  C13--C16); the invariant that every request keeps (C3: distinct, well-formed
  identifiers, only validated and saved documents, the generator counter in range); the
  listing against its abstract specification (C4); the map view of the collection under
  delete (C8); the identifier codec in both directions (C9, C10); uniqueness of generated
  identifiers and its exact bound (C11, C12); routing (C17); and the spec's scenarios
  as sequences of requests: a created record is read back (C5), a deleted one is gone
  (C6), deleting all empties the listing (C7). For the concurrent server: under every
  interleaving of requests, outages and clock ticks the invariant holds, for the routes
  alone and for the whole middleware chain (C18, with the handlers split at their
  \<open>await\<close> by \<open>handle_request_split\<close> and the chain by \<open>dispatch_split\<close>); without a
  connection string the process never listens nor answers (C19); concurrent POSTs can
  store records out of \<open>recordedAt\<close> order (C20). Values: a number sent for a String
  path is stored as exactly its \<open>toString\<close>, which reads back through the Number path
  (C21, from the round trip of \<open>js_number_to_string\<close> and \<open>js_string_to_number\<close> in
  \<open>Json\<close>); the JSON of a valid record has the spec's shape (C25). POST refines
  insertion into the map view (C22); there is no update endpoint (C23); a store failure
  is a 500 for the listing and the bulk delete (C27). Through the middleware: a body the
  parser rejects is answered by Express whatever the path, changing nothing (C28); every
  500 to a POST comes from a rejected \<open>save()\<close>, the handler's \<open>null\<close>-body branch
  being unreachable (C29); a static file shadows the route of its path (C30). With no
  static file under the request's first segment the chain is \<open>handle_request\<close> plus
  Express's 404 (\<open>dispatch_without_static_file\<close>). The health route's time string has
  the ISO format, with a month in 1..12 and a day in 1..31 that name exactly the day of
  the clock (the reference count \<open>days_from_civil\<close> inverts the conversion,
  \<open>civil_from_days_inverse\<close>), and time fields that read back the time of day (C31,
  from the bound of 365 on the day of the year that the era-based conversion leaves,
  \<open>civil_doy_bound\<close> in \<open>Json\<close>).

  \<^bold>\<open>Findings.\<close> Errors of the by-id queries are all reported as 400 \<open>Invalid id\<close>,
  a store failure included (C14). \<open>temperature: null\<close> passes the handler's
  \<open>=== undefined\<close> check and fails validation: 500, not 400 (C15). Twelve-character
  strings are valid identifiers (C16). Identifiers are unique only within
  \<open>0xffffff\<close> generations per second; beyond, the unique index turns a repeat into a
  500 (C12, C13). A rejected POST still advances the generator (C13, C15).
  \<open>recordedAt\<close> is read before the \<open>await\<close>, so concurrent POSTs can store records
  out of \<open>recordedAt\<close> order (C20). The guard accepts any truthy city: \<open>city: true\<close>
  is stored as \<open>"true"\<close> (C24). \<open>temperature: "Infinity"\<close> is stored, and read
  back as \<open>temperature: null\<close> (C26). \<open>express.static\<close> runs before the routes:
  a file \<open>public/api/weather\<close> would answer \<open>GET /api/weather\<close> (C30). Bodies the
  parser rejects get Express's HTML error page, outside the spec's error kinds (C28).

  \<^bold>\<open>Modelling choices.\<close> Clock values are natural numbers of milliseconds; an
  identifier's time field is the clock's seconds, the same reading as \<open>recordedAt\<close>.
  Numbers are exact decimals: rounding to binary64 and magnitudes beyond its range are
  not modelled (so \<open>"1e999"\<close>, which JavaScript reads as \<open>Infinity\<close>, stays finite
  here; C26 uses the literal \<open>"Infinity"\<close>). Strings are Latin-1 code units. Request paths arrive split into decoded
  segments. The order the server gives to documents with equal \<open>recordedAt\<close> is
  unspecified; the model uses natural order, and C4 is stated against \<open>recent_spec\<close>,
  which holds for every order. Each database call is one atomic step of the server (the
  server applies single-document operations atomically); a lost connection makes calls
  fail (Mongoose's buffering ends in a timeout error). No loop of the program is
  unbounded, so no definition needs fuel; every recursion is structural or has a
  measure (\<open>norm_dec\<close>, \<open>digits_of\<close>).

  \<^bold>\<open>Not modelled.\<close> What \<open>express.static\<close> sends beyond its status: file contents,
  headers, conditional requests (304) and ranges, which touch neither the API nor its
  state; the text of Express's error pages; the response headers \<open>cors()\<close> adds;
  logging, which changes no state or response. \<open>express.static\<close> reads the file system
  asynchronously; as it changes no state, the model runs it within the arrival step.

  \<^bold>\<open>Plan.\<close> Every statement of \<open>src/index.js\<close> and \<open>src/weather.js\<close> other than
  the imports is modelled. What remains partial lies in the libraries the code calls:
  binary64 rounding of numbers (a faithful model of IEEE 754 decimal conversion would be
  a development of its own, and no claim here depends on it beyond C26's literal
  \<open>"Infinity"\<close>), and what \<open>express.static\<close> sends besides its status.
\<close>

section \<open>Scenarios\<close>

text \<open>
  C5. The spec's example: a POST answered 201 returns a document, and a GET of that
  document's identifier (as its JSON form gives it) in the new state returns the same
  document.
\<close>

theorem post_then_get:
  assumes "wf_app st" and "post_weather body st = (r, st')" and "status r = 201"
  shows "\<exists>d. resp_body r = weather_json d \<and>
             get_weather_by_id (oid_to_hex (doc_id d)) st' = ok_json (weather_json d)"
proof -
  from post_weather_201 [OF assms(2,3)] obtain d where
    rb: "resp_body r = weather_json d" and dbs: "db st' = (db st)\<lparr>docs := docs (db st) @ [d]\<rparr>"
    and up: "db_up (db st)" and fresh: "doc_id d \<notin> set (map doc_id (docs (db st)))"
    and oid: "doc_id d = fst (objectid_generate (clock st div 1000) (gen st))"
    by blast
  from assms(1) oid objectid_generate_wf have "wf_oid (doc_id d)"
    by (simp add: wf_app_def)
  then have c: "cast_objectid (oid_to_hex (doc_id d)) = Some (doc_id d)"
    by (rule cast_oid_to_hex)
  from fresh have "find (\<lambda>x. doc_id x = doc_id d) (docs (db st) @ [d]) = Some d"
    by (simp add: find_snoc_fresh)
  with c dbs up rb show ?thesis
    by (auto simp: get_weather_by_id_def find_by_id_def)
qed

theorem post_then_get_witness:
  "status (fst (post_weather paris st_empty)) = 201 \<and>
   (\<exists>d. resp_body (fst (post_weather paris st_empty)) = weather_json d \<and>
        get_weather_by_id (oid_to_hex (doc_id d)) (snd (post_weather paris st_empty)) = ok_json (weather_json d))"
proof -
  have s: "status (fst (post_weather paris st_empty)) = 201"
    by (simp add: post_weather_def new_weather_def Let_def truthy_opt_def cast_string_def cast_number_def
        cast_or_unset_def cast_errors_def save_weather_def validate_weather_def required_errors_def
        insert_doc_def split_def)
  show ?thesis
    using s post_then_get [OF wf_app_st_empty prod.collapse [symmetric] s] by simp
qed

text \<open>
  C6. After a DELETE of an id answered 200, a GET of the same id is answered 404.
\<close>

theorem delete_then_get_not_found:
  assumes "wf_app st" and "delete_weather_by_id i st = (r, st')" and "status r = 200"
  shows "get_weather_by_id i st' = json_error 404 ''Not found''"
proof -
  from delete_weather_by_id_200 [OF assms(2,3)] obtain d where
    fd: "find_by_id_and_delete i (db st) = (Inr (Some d), db st')" by blast
  from assms(1) have wf: "wf_store (db st)" by (simp add: wf_app_def)
  from find_by_id_and_delete_map [OF wf fd] have
    c: "cast_objectid i = Some (doc_id d)" and m: "store_map (db st') = (store_map (db st))(doc_id d := None)"
    by auto
  from fd c have "db_up (db st')"
    using find_by_id_and_delete_db_up [of i "db st"]
    by (auto simp: find_by_id_and_delete_def split: option.splits if_splits)
  with c m show ?thesis
    by (simp add: get_weather_by_id_def find_by_id_map)
qed

theorem delete_then_get_not_found_witness:
  "status (fst (delete_weather_by_id ''aaaaaaaaaaaa'' st_a)) = 200 \<and>
   get_weather_by_id ''aaaaaaaaaaaa'' (snd (delete_weather_by_id ''aaaaaaaaaaaa'' st_a)) = json_error 404 ''Not found''"
proof -
  have s: "status (fst (delete_weather_by_id ''aaaaaaaaaaaa'' st_a)) = 200"
    by (simp add: delete_weather_by_id_def find_by_id_and_delete_def cast_objectid_def ok_json_def)
  show ?thesis
    using s delete_then_get_not_found [OF wf_app_st_a prod.collapse [symmetric] s] by simp
qed

text \<open>
  C7. After a DELETE of all records answered 200, the listing is answered 200 with the
  empty list.
\<close>

theorem delete_all_then_list_empty:
  assumes "delete_all_weather st = (r, st')" and "status r = 200"
  shows "get_weather_list st' = ok_json (JArr [])"
  using assms
  by (auto simp: delete_all_weather_def delete_many_def get_weather_list_def find_recent_def
      sort_recent_def ok_json_def split: if_splits)

theorem delete_all_then_list_empty_witness:
  "status (fst (delete_all_weather st_a)) = 200 \<and>
   get_weather_list (snd (delete_all_weather st_a)) = ok_json (JArr [])"
proof -
  have s: "status (fst (delete_all_weather st_a)) = 200"
    by (simp add: delete_all_weather_def delete_many_def ok_json_def)
  show ?thesis
    using s delete_all_then_list_empty [OF prod.collapse [symmetric] s] by simp
qed

text \<open>
  C8. A DELETE by id answered 200 implements deletion from the map view of the
  collection: the id casts to an identifier that was stored, the map loses exactly that
  key, and the answer names the identifier.
\<close>

theorem delete_weather_by_id_refines:
  assumes "wf_app st" and "delete_weather_by_id i st = (r, st')" and "status r = 200"
  shows "\<exists>oid. cast_objectid i = Some oid \<and> store_map (db st) oid \<noteq> None \<and>
           store_map (db st') = (store_map (db st))(oid := None) \<and>
           resp_body r = JObj [(''deleted'', JBool True), (''id'', JStr (oid_to_hex oid))]"
proof -
  from delete_weather_by_id_200 [OF assms(2,3)] obtain d where
    fd: "find_by_id_and_delete i (db st) = (Inr (Some d), db st')"
    and rb: "resp_body r = JObj [(''deleted'', JBool True), (''id'', JStr (oid_to_hex (doc_id d)))]"
    by blast
  from assms(1) have wf: "wf_store (db st)" by (simp add: wf_app_def)
  from find_by_id_and_delete_map [OF wf fd] have
    c: "cast_objectid i = Some (doc_id d)" and m: "store_map (db st') = (store_map (db st))(doc_id d := None)"
    by auto
  from fd c have "find (\<lambda>x. doc_id x = doc_id d) (docs (db st)) = Some d"
    by (auto simp: find_by_id_and_delete_def split: if_splits option.splits)
  then have "store_map (db st) (doc_id d) = Some d"
    by (simp add: store_map_def map_of_keyed_find)
  with c m rb show ?thesis by auto
qed

theorem delete_weather_by_id_refines_witness:
  "status (fst (delete_weather_by_id ''aaaaaaaaaaaa'' st_a)) = 200 \<and>
   (\<exists>oid. cast_objectid ''aaaaaaaaaaaa'' = Some oid \<and> store_map (db st_a) oid \<noteq> None \<and>
      store_map (db (snd (delete_weather_by_id ''aaaaaaaaaaaa'' st_a))) = (store_map (db st_a))(oid := None) \<and>
      resp_body (fst (delete_weather_by_id ''aaaaaaaaaaaa'' st_a)) =
        JObj [(''deleted'', JBool True), (''id'', JStr (oid_to_hex oid))])"
proof -
  have s: "status (fst (delete_weather_by_id ''aaaaaaaaaaaa'' st_a)) = 200"
    by (simp add: delete_weather_by_id_def find_by_id_and_delete_def cast_objectid_def ok_json_def)
  show ?thesis
    using s delete_weather_by_id_refines [OF wf_app_st_a prod.collapse [symmetric] s] by simp
qed

text \<open>
  C22. A POST answered 201 implements insertion into the map view of the collection: the
  returned document's identifier was free, and the map gains exactly that key, bound to
  the returned document.
\<close>

theorem post_weather_refines:
  assumes "wf_app st" and "post_weather body st = (r, st')" and "status r = 201"
  shows "\<exists>d. store_map (db st) (doc_id d) = None \<and>
             store_map (db st') = (store_map (db st))(doc_id d \<mapsto> d) \<and> resp_body r = weather_json d"
proof -
  from post_weather_201 [OF assms(2,3)] obtain d where
    rb: "resp_body r = weather_json d" and dbs: "db st' = (db st)\<lparr>docs := docs (db st) @ [d]\<rparr>"
    and fresh: "doc_id d \<notin> set (map doc_id (docs (db st)))"
    by blast
  from fresh have none: "store_map (db st) (doc_id d) = None"
    by (auto simp: store_map_def map_of_eq_None_iff)
  with dbs have "store_map (db st') = (store_map (db st))(doc_id d \<mapsto> d)"
    by (simp add: store_map_def singleton_map_add)
  with none rb show ?thesis by blast
qed

theorem post_weather_refines_witness:
  "wf_app st_empty \<and> status (fst (post_weather paris st_empty)) = 201 \<and>
   (\<exists>d. store_map (db st_empty) (doc_id d) = None \<and>
        store_map (db (snd (post_weather paris st_empty))) = (store_map (db st_empty))(doc_id d \<mapsto> d) \<and>
        resp_body (fst (post_weather paris st_empty)) = weather_json d)"
proof -
  have s: "status (fst (post_weather paris st_empty)) = 201"
    by (simp add: post_weather_def new_weather_def Let_def truthy_opt_def cast_string_def cast_number_def
        cast_or_unset_def cast_errors_def save_weather_def validate_weather_def required_errors_def
        insert_doc_def split_def)
  show ?thesis
    using wf_app_st_empty s post_weather_refines [OF wf_app_st_empty prod.collapse [symmetric] s] by simp
qed

end
